theory Spec2Isabelle
  imports Main
begin

section \<open>Naming utility (helpers_env.py)\<close>

text \<open>
  Python strings are modelled as \<^typ>\<open>string\<close>: lists of characters with code points
  below 256. On that range \<open>str.lower\<close> moves \<open>A\<close>..\<open>Z\<close> and the upper-case
  letters 192..222 (without the multiplication sign 215) up by 32, \<open>str.strip()\<close>
  removes the white-space characters 9..13, 28..32, 133 and 160, and \<open>str.isalpha\<close>
  holds of the ASCII letters, of 170, 181, 186 and of 192..255 without 215 and 247.
\<close>

definition code :: "char \<Rightarrow> nat" where
  "code c = of_char c"

definition is_upper :: "char \<Rightarrow> bool" where
  "is_upper c = ((65 \<le> code c \<and> code c \<le> 90) \<or> (192 \<le> code c \<and> code c \<le> 222 \<and> code c \<noteq> 215))"

definition lower_char :: "char \<Rightarrow> char" where
  "lower_char c = (if is_upper c then char_of (code c + 32) else c)"

definition lower :: "string \<Rightarrow> string" where
  "lower s = map lower_char s"

definition is_space :: "char \<Rightarrow> bool" where
  "is_space c = ((9 \<le> code c \<and> code c \<le> 13) \<or> (28 \<le> code c \<and> code c \<le> 32) \<or> code c = 133 \<or> code c = 160)"

definition strip_with :: "(char \<Rightarrow> bool) \<Rightarrow> string \<Rightarrow> string" where
  "strip_with p s = rev (dropWhile p (rev (dropWhile p s)))"

definition strip :: "string \<Rightarrow> string" where
  "strip s = strip_with is_space s"

definition replace_char :: "char \<Rightarrow> char \<Rightarrow> string \<Rightarrow> string" where
  "replace_char a b s = map (\<lambda>c. if c = a then b else c) s"

definition is_lower_ascii :: "char \<Rightarrow> bool" where
  "is_lower_ascii c = (97 \<le> code c \<and> code c \<le> 122)"

definition is_digit :: "char \<Rightarrow> bool" where
  "is_digit c = (48 \<le> code c \<and> code c \<le> 57)"

definition name_char :: "char \<Rightarrow> bool" where
  "name_char c = (is_lower_ascii c \<or> is_digit c \<or> c = CHR ''-'')"

definition is_hyphen :: "char \<Rightarrow> bool" where
  "is_hyphen c = (c = CHR ''-'')"

text \<open>\<open>re.sub(r"-+", "-", s)\<close>: every maximal run of hyphens becomes one hyphen.\<close>

function collapse_hyphens :: "string \<Rightarrow> string" where
  "collapse_hyphens [] = []"
| "collapse_hyphens (c # cs) =
     (if is_hyphen c then CHR ''-'' # collapse_hyphens (dropWhile is_hyphen cs)
      else c # collapse_hyphens cs)"
  by pat_completeness auto
termination
  by (relation "measure length") (auto simp: length_dropWhile_le less_Suc_eq_le)

definition is_alpha :: "char \<Rightarrow> bool" where
  "is_alpha c = ((65 \<le> code c \<and> code c \<le> 90) \<or> (97 \<le> code c \<and> code c \<le> 122)
     \<or> code c = 170 \<or> code c = 181 \<or> code c = 186
     \<or> (192 \<le> code c \<and> code c \<noteq> 215 \<and> code c \<noteq> 247))"

text \<open>The value of \<open>s\<close> in \<open>sanitize_name\<close> after its third assignment.\<close>

definition clean_name :: "string \<Rightarrow> string" where
  "clean_name name =
     (let s = replace_char CHR '' '' CHR ''-'' (strip (lower name));
          s = filter name_char s
      in strip_with is_hyphen (collapse_hyphens s))"

definition sanitize_name :: "string \<Rightarrow> string" where
  "sanitize_name name =
     (let s = clean_name name
      in if s = [] \<or> \<not> is_alpha (hd s) then ''u-'' @ s else s)"

fun no_double_hyphen :: "string \<Rightarrow> bool" where
  "no_double_hyphen [] = True"
| "no_double_hyphen [a] = True"
| "no_double_hyphen (a # b # cs) = (\<not> (is_hyphen a \<and> is_hyphen b) \<and> no_double_hyphen (b # cs))"

text \<open>
  A string that the cleaning steps of \<open>sanitize_name\<close> leave alone: name characters
  only, no doubled hyphen, no hyphen at either end.
\<close>

definition safe_name :: "string \<Rightarrow> bool" where
  "safe_name t = (list_all name_char t \<and> no_double_hyphen t \<and>
     (t = [] \<or> (\<not> is_hyphen (hd t) \<and> \<not> is_hyphen (last t))))"

text \<open>Python's \<open>s[:i]\<close>: a negative \<open>i\<close> counts from the end and stops at 0.\<close>

definition slice_to :: "string \<Rightarrow> int \<Rightarrow> string" where
  "slice_to s i = (if i < 0 then take (nat (int (length s) + i)) s else take (nat i) s)"

definition build_api_name :: "string \<Rightarrow> string \<Rightarrow> string \<Rightarrow> int \<Rightarrow> string \<times> string" where
  "build_api_name display_name suffix prefix max_len =
     (let base = sanitize_name display_name;
          candidate = prefix @ ''-'' @ base @ ''-'' @ suffix
      in if int (length candidate) > max_len then
           let overflow = int (length candidate) - max_len;
               base = (if overflow < int (length base) then slice_to base (- overflow)
                       else slice_to base (max 1 (int (length base) - overflow)));
               candidate = prefix @ ''-'' @ base @ ''-'' @ suffix
           in (candidate, base)
         else (candidate, base))"

text \<open>The defaults of the source: \<open>prefix="ghc25"\<close>, \<open>max_len=40\<close>.\<close>

definition build_api_name_default :: "string \<Rightarrow> string \<Rightarrow> string \<times> string" where
  "build_api_name_default display_name suffix = build_api_name display_name suffix ''ghc25'' 40"

subsection \<open>Exceptions\<close>

text \<open>
  An exception is its class and the text \<open>str(e)\<close>. \<open>ServiceError\<close> stands for every
  service fault that no handler of the source names.
\<close>

datatype exn_class = ValueError | RuntimeError | IndexError | OverflowError
  | NotFoundException | ResourceNotFoundException | ServiceError

datatype exn = Exn (exn_class: exn_class) (exn_msg: string)

definition validate_identifiers :: "string \<Rightarrow> string \<Rightarrow> exn + unit" where
  "validate_identifiers first_name_prefix birth_mmdd =
     (if first_name_prefix = [] \<or> first_name_prefix = ''NAME'' then
        Inl (Exn ValueError ''ERROR: Please replace 'NAME' with the first 4 letters of your first name'')
      else if birth_mmdd = [] \<or> birth_mmdd = ''MMDD'' then
        Inl (Exn ValueError ''ERROR: Please replace 'MMDD' with your birth month and day (e.g., '0315' for March 15)'')
      else Inr ())"

section \<open>Service model\<close>

text \<open>
  Every helper of the repository talks to a managed service through a boto3 client. A
  client is a record of its operations; an operation takes its arguments and the state
  \<open>'w\<close> of the world (the account, the clock, the file system) and gives the reply or
  the exception together with the world after the call. Nothing is assumed about the
  operations, so a statement about a helper holds for every behaviour of the service.
  A reply holds the entries of the response that the helper reads.
\<close>

subsection \<open>Python string helpers\<close>

text \<open>\<open>s.split(sep)\<close> for a separator of one character; the result is never empty.\<close>

fun py_split :: "char \<Rightarrow> string \<Rightarrow> string list" where
  "py_split sep [] = [[]]"
| "py_split sep (c # cs) =
     (if c = sep then [] # py_split sep cs
      else (case py_split sep cs of [] \<Rightarrow> [[c]] | p # ps \<Rightarrow> (c # p) # ps))"

text \<open>\<open>xs[i]\<close> for \<open>i \<ge> 0\<close>: out of range raises \<open>IndexError\<close>.\<close>

definition index :: "'a list \<Rightarrow> nat \<Rightarrow> exn + 'a" where
  "index xs i = (if i < length xs then Inr (xs ! i) else Inl (Exn IndexError ''list index out of range''))"

definition starts_with :: "string \<Rightarrow> string \<Rightarrow> bool" where
  "starts_with p s = (take (length p) s = p)"

text \<open>\<open>p in s\<close> on strings: \<open>p\<close> occurs in \<open>s\<close> as a contiguous substring.\<close>

fun contains :: "string \<Rightarrow> string \<Rightarrow> bool" where
  "contains [] p = (p = [])"
| "contains (c # cs) p = (starts_with p (c # cs) \<or> contains cs p)"

text \<open>Truth value of an optional string: \<open>None\<close> and \<open>""\<close> are false.\<close>

definition truthy :: "string option \<Rightarrow> bool" where
  "truthy t = (case t of None \<Rightarrow> False | Some s \<Rightarrow> s \<noteq> [])"

subsection \<open>AppSync\<close>

record graphql_api =
  gapi_name :: string
  gapi_id :: string
  gapi_fields :: "(string \<times> string) list"

record api_page =
  graphqlApis :: "graphql_api list option"
  nextToken :: "string option"

record log_config =
  cloudWatchLogsRoleArn :: string
  fieldLogLevel :: string

record create_api_args =
  ca_name :: string
  authenticationType :: string
  xrayEnabled :: bool
  logConfig :: "log_config option"

record schema_status =
  st_status :: "string option"
  st_details :: "string option"

record api_key =
  key_id :: string
  key_expires :: int

record data_source =
  dsrc_name :: string
  dsrc_type :: string
  dsrc_fields :: "(string \<times> string) list"

record ds_page =
  dataSources :: "data_source list option"
  ds_nextToken :: "string option"

record dynamodb_config =
  tableName :: string
  awsRegion :: string
  useCallerCredentials :: bool

record http_config =
  endpoint :: string
  authorizationType :: string
  signingRegion :: string
  signingServiceName :: string

record create_ds_args =
  cd_apiId :: string
  cd_name :: string
  cd_type :: string
  serviceRoleArn :: "string option"
  dynamodbConfig :: "dynamodb_config option"
  httpConfig :: "http_config option"

record resolver_args =
  r_apiId :: string
  typeName :: string
  fieldName :: string
  dataSourceName :: "string option"
  r_runtime :: "(string \<times> string) option"
  r_code :: "string option"
  r_kind :: "string option"
  requestMappingTemplate :: "string option"
  responseMappingTemplate :: "string option"
  pipelineFunctions :: "string list option"

record function_args =
  f_apiId :: string
  functionId :: "string option"
  f_name :: string
  f_dataSourceName :: string
  f_runtime :: "string \<times> string"
  f_code :: string

record function_configuration =
  fc_functionId :: string
  fc_name :: string
  fc_fields :: "(string \<times> string) list"

record 'w appsync =
  list_graphql_apis :: "string option \<Rightarrow> 'w \<Rightarrow> (exn + api_page) \<times> 'w"
  create_graphql_api :: "create_api_args \<Rightarrow> 'w \<Rightarrow> (exn + graphql_api) \<times> 'w"
  start_schema_creation :: "string \<Rightarrow> string \<Rightarrow> 'w \<Rightarrow> (exn + unit) \<times> 'w"
  get_schema_creation_status :: "string \<Rightarrow> 'w \<Rightarrow> (exn + schema_status) \<times> 'w"
  create_api_key :: "string \<Rightarrow> string \<Rightarrow> int \<Rightarrow> 'w \<Rightarrow> (exn + api_key) \<times> 'w"
  list_data_sources :: "string \<Rightarrow> 'w \<Rightarrow> (exn + ds_page) \<times> 'w"
  create_data_source :: "create_ds_args \<Rightarrow> 'w \<Rightarrow> (exn + data_source) \<times> 'w"
  update_resolver :: "resolver_args \<Rightarrow> 'w \<Rightarrow> (exn + unit) \<times> 'w"
  create_resolver :: "resolver_args \<Rightarrow> 'w \<Rightarrow> (exn + unit) \<times> 'w"
  update_function :: "function_args \<Rightarrow> 'w \<Rightarrow> (exn + function_configuration) \<times> 'w"
  create_function_op :: "function_args \<Rightarrow> 'w \<Rightarrow> (exn + function_configuration) \<times> 'w"

text \<open>
  The ambient system: \<open>time.sleep\<close>, \<open>pathlib.Path(p).read_bytes()\<close> and
  \<open>datetime.now(timezone.utc)\<close>, the latter in microseconds since the epoch. The world
  may change while the caller sleeps.
\<close>

record 'w system =
  sleep :: "int \<Rightarrow> 'w \<Rightarrow> 'w"
  read_bytes :: "string \<Rightarrow> 'w \<Rightarrow> exn + string"
  now_us :: "'w \<Rightarrow> int"

subsection \<open>DynamoDB, SNS, SQS\<close>

record table_description =
  td_name :: string
  td_status :: string
  td_fields :: "(string \<times> string) list"

record create_table_args =
  ct_TableName :: string
  AttributeDefinitions :: "(string \<times> string) list"
  KeySchema :: "(string \<times> string) list"
  BillingMode :: string
  SSEEnabled :: bool

record 'w dynamodb =
  describe_table :: "string \<Rightarrow> 'w \<Rightarrow> (exn + table_description) \<times> 'w"
  create_table :: "create_table_args \<Rightarrow> 'w \<Rightarrow> (exn + table_description) \<times> 'w"
  wait_table_exists :: "string \<Rightarrow> 'w \<Rightarrow> (exn + unit) \<times> 'w"

text \<open>
  \<open>list_topics()['Topics']\<close> is given as the list of the \<open>TopicArn\<close> entries, and the
  reply of \<open>list_queues\<close> as its optional \<open>QueueUrls\<close> entry.
\<close>

record 'w sns =
  create_topic :: "string \<Rightarrow> 'w \<Rightarrow> (exn + string) \<times> 'w"
  list_topics :: "'w \<Rightarrow> (exn + string list) \<times> 'w"

record 'w sqs =
  create_queue :: "string \<Rightarrow> (string \<times> string) list \<Rightarrow> 'w \<Rightarrow> (exn + string) \<times> 'w"
  get_queue_attributes :: "string \<Rightarrow> string list \<Rightarrow> 'w \<Rightarrow> (exn + string) \<times> 'w"
  list_queues :: "string \<Rightarrow> 'w \<Rightarrow> (exn + string list option) \<times> 'w"

section \<open>Provisioning helpers (helpers_appsync.py, helpers_pipeline_resolvers.py)\<close>

text \<open>
  \<open>resp.get("graphqlApis", [])\<close> and \<open>resp.get("dataSources", [])\<close>: a missing entry
  reads as the empty list.
\<close>

definition get_list :: "'a list option \<Rightarrow> 'a list" where
  "get_list v = (case v of None \<Rightarrow> [] | Some xs \<Rightarrow> xs)"

text \<open>
  The loop of \<open>find_api_by_name\<close>, entered with the current \<open>token\<close>. The service
  decides how many pages there are, so the loop need not end: not returning is \<open>None\<close>.
\<close>

partial_function (option) find_api_loop ::
  "'w appsync \<Rightarrow> string \<Rightarrow> string option \<Rightarrow> 'w \<Rightarrow> ((exn + graphql_api option) \<times> 'w) option"
where
  "find_api_loop client name token w =
     (case list_graphql_apis client (if truthy token then token else None) w of
        (Inl e, w') \<Rightarrow> Some (Inl e, w')
      | (Inr resp, w') \<Rightarrow>
          (case find (\<lambda>api. gapi_name api = name) (get_list (graphqlApis resp)) of
             Some api \<Rightarrow> Some (Inr (Some api), w')
           | None \<Rightarrow>
               (if \<not> truthy (nextToken resp) then Some (Inr None, w')
                else find_api_loop client name (nextToken resp) w')))"

declare find_api_loop.simps [code]

definition find_api_by_name ::
  "'w appsync \<Rightarrow> string \<Rightarrow> 'w \<Rightarrow> ((exn + graphql_api option) \<times> 'w) option" where
  "find_api_by_name client name w = find_api_loop client name None w"

text \<open>The \<open>kwargs\<close> that \<open>ensure_api\<close> builds for \<open>create_graphql_api\<close>.\<close>

definition api_kwargs :: "string \<Rightarrow> string option \<Rightarrow> bool \<Rightarrow> create_api_args" where
  "api_kwargs name cloudwatch_logs_role_arn enable_xray =
     \<lparr>ca_name = name, authenticationType = ''API_KEY'', xrayEnabled = enable_xray,
      logConfig =
        (if truthy cloudwatch_logs_role_arn
         then Some \<lparr>cloudWatchLogsRoleArn = get_list cloudwatch_logs_role_arn,
                     fieldLogLevel = ''ERROR''\<rparr>
         else None)\<rparr>"

definition ensure_api ::
  "'w appsync \<Rightarrow> string \<Rightarrow> string option \<Rightarrow> bool \<Rightarrow> 'w \<Rightarrow> ((exn + graphql_api) \<times> 'w) option" where
  "ensure_api client name cloudwatch_logs_role_arn enable_xray w =
     (case find_api_by_name client name w of
        None \<Rightarrow> None
      | Some (Inl e, w') \<Rightarrow> Some (Inl e, w')
      | Some (Inr (Some api), w') \<Rightarrow> Some (Inr api, w')
      | Some (Inr None, w') \<Rightarrow>
          Some (create_graphql_api client (api_kwargs name cloudwatch_logs_role_arn enable_xray) w'))"

text \<open>
  \<open>upload_schema\<close>: the \<open>for _ in range(30)\<close> loop with \<open>n\<close> rounds left. A missing
  \<open>status\<close> entry is no terminal status; a missing \<open>details\<close> entry reads as \<open>""\<close>.
\<close>

fun poll_schema :: "'w appsync \<Rightarrow> 'w system \<Rightarrow> string \<Rightarrow> nat \<Rightarrow> 'w \<Rightarrow> (exn + unit) \<times> 'w" where
  "poll_schema client sys api_id 0 w = (Inr (), w)"
| "poll_schema client sys api_id (Suc n) w =
     (case get_schema_creation_status client api_id w of
        (Inl e, w') \<Rightarrow> (Inl e, w')
      | (Inr st, w') \<Rightarrow>
          (if st_status st \<in> {Some ''SUCCESS'', Some ''FAILED'', Some ''NOT_APPLICABLE''} then
             (if st_status st \<noteq> Some ''SUCCESS'' then
                (Inl (Exn RuntimeError (''Schema status='' @ get_list (st_status st) @ '': ''
                        @ take 400 (get_list (st_details st)))), w')
              else (Inr (), w'))
           else poll_schema client sys api_id n (sleep sys 2 w')))"

text \<open>
  What the service would answer to the polls of \<open>upload_schema\<close>: \<open>poll_world k w\<close> is
  the world in which poll number \<open>k\<close> (counted from 0) is issued when the loop starts in
  \<open>w\<close> and no earlier poll ends it, and \<open>poll_reply k w\<close> is the answer to that poll.
  An answer is \<open>pending\<close> when it is a status other than the three terminal ones, and
  \<open>failing\<close> when it is an exception or one of the statuses \<open>FAILED\<close> and
  \<open>NOT_APPLICABLE\<close>.
\<close>

fun poll_world :: "'w appsync \<Rightarrow> 'w system \<Rightarrow> string \<Rightarrow> nat \<Rightarrow> 'w \<Rightarrow> 'w" where
  "poll_world client sys api_id 0 w = w"
| "poll_world client sys api_id (Suc k) w =
     poll_world client sys api_id k (sleep sys 2 (snd (get_schema_creation_status client api_id w)))"

definition poll_reply :: "'w appsync \<Rightarrow> 'w system \<Rightarrow> string \<Rightarrow> nat \<Rightarrow> 'w \<Rightarrow> exn + schema_status" where
  "poll_reply client sys api_id k w =
     fst (get_schema_creation_status client api_id (poll_world client sys api_id k w))"

definition pending :: "exn + schema_status \<Rightarrow> bool" where
  "pending r = (case r of Inl _ \<Rightarrow> False
     | Inr st \<Rightarrow> st_status st \<notin> {Some ''SUCCESS'', Some ''FAILED'', Some ''NOT_APPLICABLE''})"

definition failing :: "exn + schema_status \<Rightarrow> bool" where
  "failing r = (case r of Inl _ \<Rightarrow> True
     | Inr st \<Rightarrow> st_status st \<in> {Some ''FAILED'', Some ''NOT_APPLICABLE''})"

text \<open>What \<open>upload_schema\<close> makes of the answer that ends its loop.\<close>

definition poll_outcome :: "exn + schema_status \<Rightarrow> exn + unit" where
  "poll_outcome r = (case r of Inl e \<Rightarrow> Inl e
     | Inr st \<Rightarrow>
         (if st_status st = Some ''SUCCESS'' then Inr ()
          else Inl (Exn RuntimeError (''Schema status='' @ get_list (st_status st) @ '': ''
                 @ take 400 (get_list (st_details st))))))"

definition upload_schema :: "'w appsync \<Rightarrow> 'w system \<Rightarrow> string \<Rightarrow> string \<Rightarrow> 'w \<Rightarrow> (exn + unit) \<times> 'w" where
  "upload_schema client sys api_id schema_path w =
     (case read_bytes sys schema_path w of
        Inl e \<Rightarrow> (Inl e, w)
      | Inr data \<Rightarrow>
          (case start_schema_creation client api_id data w of
             (Inl e, w') \<Rightarrow> (Inl e, w')
           | (Inr _, w') \<Rightarrow> poll_schema client sys api_id 30 w'))"

subsection \<open>The expiry of an API key: Python numbers, \<open>timedelta\<close> and \<open>timestamp\<close>\<close>

text \<open>
  \<open>ensure_api_key\<close> computes
  \<open>int((datetime.now(timezone.utc) + timedelta(days=days, minutes=2)).timestamp())\<close>.
  Instants and durations are whole microseconds, as \<open>datetime\<close> and \<open>timedelta\<close>
  hold them. A float is its mantissa and exponent, \<open>m * 2 ^ e\<close>.

  \<open>true_divide a b\<close> is Python's \<open>a / b\<close> on integers (\<open>b > 0\<close>): the double
  nearest to the quotient, ties to the even mantissa, for quotients in the normal range.
  \<open>timestamp()\<close> of an aware \<open>datetime\<close> is the true division of its microseconds
  since the epoch by \<open>10 ** 6\<close>, and \<open>int\<close> drops the fraction towards zero.
\<close>

function bit_length :: "int \<Rightarrow> nat" where
  "bit_length n = (if n \<le> 0 then 0 else Suc (bit_length (n div 2)))"
  by pat_completeness auto
termination
  by (relation "measure nat") auto

declare bit_length.simps [simp del]

definition round_half_even :: "int \<Rightarrow> int \<Rightarrow> int" where
  "round_half_even p q =
     (let f = p div q; r = p mod q
      in if 2 * r < q then f else if q < 2 * r then f + 1 else if even f then f else f + 1)"

definition true_divide :: "int \<Rightarrow> int \<Rightarrow> int \<times> int" where
  "true_divide a b =
     (if a = 0 then (0, 0)
      else
        (let n = \<bar>a\<bar>;
             k = (if b \<le> n then int (bit_length (n div b)) - 1
                  else - int (bit_length ((b - 1) div n)));
             e = k - 52;
             m = (if e \<le> 0 then round_half_even (n * 2 ^ nat (- e)) b
                  else round_half_even n (b * 2 ^ nat e))
         in (sgn a * m, e)))"

definition int_of_float :: "int \<times> int \<Rightarrow> int" where
  "int_of_float x =
     (case x of (m, e) \<Rightarrow>
        if 0 \<le> e then m * 2 ^ nat e else sgn m * (\<bar>m\<bar> div 2 ^ nat (- e)))"

definition timestamp_seconds :: "int \<Rightarrow> int" where
  "timestamp_seconds us = int_of_float (true_divide us 1000000)"

text \<open>
  The \<open>days\<close> argument is an \<open>int\<close> or a \<open>float\<close> (a finite one, a NaN, or an
  infinity with its sign).
\<close>

datatype number = PyInt int | PyFloat int int | PyNaN | PyInf bool

text \<open>\<open>days < 1\<close>.\<close>

definition less_than_one :: "number \<Rightarrow> bool" where
  "less_than_one d = (case d of
       PyInt n \<Rightarrow> n < 1
     | PyFloat m e \<Rightarrow> (if 0 \<le> e then m * 2 ^ nat e < 1 else m < 2 ^ nat (- e))
     | PyNaN \<Rightarrow> False
     | PyInf positive \<Rightarrow> \<not> positive)"

definition us_per_day :: int where
  "us_per_day = 86400000000"

text \<open>
  What \<open>timedelta\<close> adds to the microseconds \<open>sofar\<close> for a float number of days: the
  whole days exactly; the fraction of a day times \<open>us_per_day\<close> in double arithmetic,
  whose whole microseconds are added and whose rest is rounded to the nearest
  microsecond, a half towards an even total.
\<close>

definition float_days_us :: "int \<Rightarrow> int \<Rightarrow> int \<Rightarrow> int" where
  "float_days_us sofar m e =
     (if 0 \<le> e then sofar + m * 2 ^ nat e * us_per_day
      else
        (let q = 2 ^ nat (- e);
             intpart = sgn m * (\<bar>m\<bar> div q);
             fracpart = sgn m * (\<bar>m\<bar> mod q);
             total = sofar + intpart * us_per_day
         in if fracpart = 0 then total
            else
              (let dnum = true_divide (us_per_day * fracpart) q;
                   intpart2 = int_of_float dnum;
                   x = total + intpart2;
                   den = (if 0 \<le> snd dnum then 1 else 2 ^ nat (- snd dnum));
                   leftover = (if 0 \<le> snd dnum then 0 else fst dnum - intpart2 * den)
               in if 2 * \<bar>leftover\<bar> < den then x
                  else if den < 2 * \<bar>leftover\<bar> then x + sgn leftover
                  else if odd x then x + sgn leftover else x)))"

text \<open>\<open>timedelta(days=days, minutes=2)\<close> in microseconds, before its range check.\<close>

definition timedelta_us :: "number \<Rightarrow> exn + int" where
  "timedelta_us days = (case days of
       PyInt n \<Rightarrow> Inr (2 * 60000000 + n * us_per_day)
     | PyFloat m e \<Rightarrow> Inr (float_days_us (2 * 60000000) m e)
     | PyNaN \<Rightarrow> Inl (Exn ValueError ''cannot convert float NaN to integer'')
     | PyInf _ \<Rightarrow> Inl (Exn OverflowError ''cannot convert float infinity to integer''))"

text \<open>Decimal digits of a non-negative integer, for the message of the range check.\<close>

function show_digits :: "int \<Rightarrow> string" where
  "show_digits n =
     (if n < 10 then [char_of (48 + nat n)]
      else show_digits (n div 10) @ [char_of (48 + nat (n mod 10))])"
  by pat_completeness auto
termination
  by (relation "measure nat") auto

declare show_digits.simps [simp del]

definition timedelta_overflow :: "int \<Rightarrow> exn" where
  "timedelta_overflow d =
     (if d < 2147483648
      then Exn OverflowError (''days='' @ show_digits d @ ''; must have magnitude <= 999999999'')
      else Exn OverflowError ''Python int too large to convert to C int'')"

text \<open>The last instant of the year 9999, the largest \<open>datetime\<close>.\<close>

definition datetime_max_us :: int where
  "datetime_max_us = 253402300799999999"

definition ensure_api_key ::
  "'w appsync \<Rightarrow> 'w system \<Rightarrow> string \<Rightarrow> number \<Rightarrow> 'w \<Rightarrow> (exn + string \<times> int) \<times> 'w" where
  "ensure_api_key client sys api_id days w =
     (let days = (if less_than_one days then PyInt 1 else days)
      in case timedelta_us days of
           Inl e \<Rightarrow> (Inl e, w)
         | Inr delta \<Rightarrow>
             (if 999999999 < delta div us_per_day then
                (Inl (timedelta_overflow (delta div us_per_day)), w)
              else if datetime_max_us < now_us sys w + delta then
                (Inl (Exn OverflowError ''date value out of range''), w)
              else
                (let expires_epoch = timestamp_seconds (now_us sys w + delta)
                 in case create_api_key client api_id ''workshop'' expires_epoch w of
                      (Inl e, w') \<Rightarrow> (Inl e, w')
                    | (Inr key, w') \<Rightarrow> (Inr (key_id key, key_expires key), w'))))"

text \<open>The default of the source: \<open>days=1\<close>.\<close>

definition ensure_api_key_default ::
  "'w appsync \<Rightarrow> 'w system \<Rightarrow> string \<Rightarrow> 'w \<Rightarrow> (exn + string \<times> int) \<times> 'w" where
  "ensure_api_key_default client sys api_id w = ensure_api_key client sys api_id (PyInt 1) w"

text \<open>
  The arguments of the three \<open>create_data_source\<close> calls; \<open>region\<close> is the fourth
  colon-separated field of the ARN.
\<close>

definition ddb_ds_args :: "string \<Rightarrow> string \<Rightarrow> string \<Rightarrow> string \<Rightarrow> string \<Rightarrow> create_ds_args" where
  "ddb_ds_args api_id name table_arn role_arn region =
     \<lparr>cd_apiId = api_id, cd_name = name, cd_type = ''AMAZON_DYNAMODB'',
      serviceRoleArn = Some role_arn,
      dynamodbConfig =
        Some \<lparr>tableName = last (py_split CHR ''/'' table_arn),
              awsRegion = region, useCallerCredentials = False\<rparr>,
      httpConfig = None\<rparr>"

definition none_ds_args :: "string \<Rightarrow> string \<Rightarrow> create_ds_args" where
  "none_ds_args api_id name =
     \<lparr>cd_apiId = api_id, cd_name = name, cd_type = ''NONE'',
      serviceRoleArn = None, dynamodbConfig = None, httpConfig = None\<rparr>"

definition sns_ds_args :: "string \<Rightarrow> string \<Rightarrow> string \<Rightarrow> string \<Rightarrow> create_ds_args" where
  "sns_ds_args api_id name role_arn region =
     \<lparr>cd_apiId = api_id, cd_name = name, cd_type = ''HTTP'',
      serviceRoleArn = Some role_arn,
      dynamodbConfig = None,
      httpConfig =
        Some \<lparr>endpoint = ''https://sns.'' @ region @ ''.amazonaws.com/'',
              authorizationType = ''AWS_IAM'',
              signingRegion = region, signingServiceName = ''sns''\<rparr>\<rparr>"

definition ensure_ddb_ds ::
  "'w appsync \<Rightarrow> string \<Rightarrow> string \<Rightarrow> string \<Rightarrow> string \<Rightarrow> 'w \<Rightarrow> (exn + data_source) \<times> 'w" where
  "ensure_ddb_ds client api_id name table_arn role_arn w =
     (case list_data_sources client api_id w of
        (Inl e, w') \<Rightarrow> (Inl e, w')
      | (Inr resp, w') \<Rightarrow>
          (case find (\<lambda>d. dsrc_name d = name) (get_list (dataSources resp)) of
             Some d \<Rightarrow> (Inr d, w')
           | None \<Rightarrow>
               (case index (py_split CHR '':'' table_arn) 3 of
                  Inl e \<Rightarrow> (Inl e, w')
                | Inr region \<Rightarrow>
                    create_data_source client (ddb_ds_args api_id name table_arn role_arn region) w')))"

definition ensure_none_ds ::
  "'w appsync \<Rightarrow> string \<Rightarrow> string \<Rightarrow> 'w \<Rightarrow> (exn + data_source) \<times> 'w" where
  "ensure_none_ds client api_id name w =
     (case list_data_sources client api_id w of
        (Inl e, w') \<Rightarrow> (Inl e, w')
      | (Inr resp, w') \<Rightarrow>
          (case find (\<lambda>d. dsrc_name d = name) (get_list (dataSources resp)) of
             Some d \<Rightarrow> (Inr d, w')
           | None \<Rightarrow>
               create_data_source client (none_ds_args api_id name) w'))"

text \<open>The default of the source: \<open>name="NoneDS"\<close>.\<close>

definition ensure_none_ds_default :: "'w appsync \<Rightarrow> string \<Rightarrow> 'w \<Rightarrow> (exn + data_source) \<times> 'w" where
  "ensure_none_ds_default client api_id w = ensure_none_ds client api_id ''NoneDS'' w"

definition ensure_sns_ds ::
  "'w appsync \<Rightarrow> string \<Rightarrow> string \<Rightarrow> string \<Rightarrow> string \<Rightarrow> 'w \<Rightarrow> (exn + data_source) \<times> 'w" where
  "ensure_sns_ds client api_id name topic_arn role_arn w =
     (case list_data_sources client api_id w of
        (Inl e, w') \<Rightarrow> (Inl e, w')
      | (Inr resp, w') \<Rightarrow>
          (case find (\<lambda>d. dsrc_name d = name) (get_list (dataSources resp)) of
             Some d \<Rightarrow> (Inr d, w')
           | None \<Rightarrow>
               (case index (py_split CHR '':'' topic_arn) 3 of
                  Inl e \<Rightarrow> (Inl e, w')
                | Inr region \<Rightarrow>
                    create_data_source client (sns_ds_args api_id name role_arn region) w')))"

definition js_resolver_args :: "string \<Rightarrow> string \<Rightarrow> string \<Rightarrow> string \<Rightarrow> string \<Rightarrow> resolver_args" where
  "js_resolver_args api_id type_name field ds_name js_code =
     \<lparr>r_apiId = api_id, typeName = type_name, fieldName = field,
      dataSourceName = Some ds_name,
      r_runtime = Some (''APPSYNC_JS'', ''1.0.0''), r_code = Some js_code,
      r_kind = None, requestMappingTemplate = None, responseMappingTemplate = None,
      pipelineFunctions = None\<rparr>"

definition upsert_js_resolver ::
  "'w appsync \<Rightarrow> string \<Rightarrow> string \<Rightarrow> string \<Rightarrow> string \<Rightarrow> string \<Rightarrow> 'w \<Rightarrow> (exn + unit) \<times> 'w" where
  "upsert_js_resolver client api_id type_name field ds_name js_code w =
     (case update_resolver client (js_resolver_args api_id type_name field ds_name js_code) w of
        (Inr _, w') \<Rightarrow> (Inr (), w')
      | (Inl e, w') \<Rightarrow>
          (if exn_class e = NotFoundException then
             (case create_resolver client (js_resolver_args api_id type_name field ds_name js_code) w' of
                (Inr _, w'') \<Rightarrow> (Inr (), w'')
              | (Inl e', w'') \<Rightarrow> (Inl e', w''))
           else (Inl e, w')))"

definition pipeline_resolver_args :: "string \<Rightarrow> string \<Rightarrow> string \<Rightarrow> string list \<Rightarrow> resolver_args" where
  "pipeline_resolver_args api_id type_name field functions =
     \<lparr>r_apiId = api_id, typeName = type_name, fieldName = field,
      dataSourceName = None, r_runtime = None, r_code = None,
      r_kind = Some ''PIPELINE'', requestMappingTemplate = Some ''{}'',
      responseMappingTemplate = Some ''$util.toJson($ctx.result)'',
      pipelineFunctions = Some functions\<rparr>"

definition create_pipeline_resolver ::
  "'w appsync \<Rightarrow> string \<Rightarrow> string \<Rightarrow> string \<Rightarrow> string list \<Rightarrow> 'w \<Rightarrow> (exn + unit) \<times> 'w" where
  "create_pipeline_resolver client api_id type_name field functions w =
     (case update_resolver client (pipeline_resolver_args api_id type_name field functions) w of
        (Inr _, w') \<Rightarrow> (Inr (), w')
      | (Inl e, w') \<Rightarrow>
          (if exn_class e = NotFoundException then
             (case create_resolver client (pipeline_resolver_args api_id type_name field functions) w' of
                (Inr _, w'') \<Rightarrow> (Inr (), w'')
              | (Inl e', w'') \<Rightarrow> (Inl e', w''))
           else (Inl e, w')))"

definition function_update_args :: "string \<Rightarrow> string \<Rightarrow> string \<Rightarrow> string \<Rightarrow> function_args" where
  "function_update_args api_id name ds_name js_code =
     \<lparr>f_apiId = api_id, functionId = Some name, f_name = name, f_dataSourceName = ds_name,
      f_runtime = (''APPSYNC_JS'', ''1.0.0''), f_code = js_code\<rparr>"

definition function_create_args :: "string \<Rightarrow> string \<Rightarrow> string \<Rightarrow> string \<Rightarrow> function_args" where
  "function_create_args api_id name ds_name js_code =
     \<lparr>f_apiId = api_id, functionId = None, f_name = name, f_dataSourceName = ds_name,
      f_runtime = (''APPSYNC_JS'', ''1.0.0''), f_code = js_code\<rparr>"

definition create_function ::
  "'w appsync \<Rightarrow> string \<Rightarrow> string \<Rightarrow> string \<Rightarrow> string \<Rightarrow> 'w \<Rightarrow> (exn + function_configuration) \<times> 'w" where
  "create_function client api_id name ds_name js_code w =
     (case update_function client (function_update_args api_id name ds_name js_code) w of
        (Inr fc, w') \<Rightarrow> (Inr fc, w')
      | (Inl e, w') \<Rightarrow>
          (if exn_class e = NotFoundException then
             create_function_op client (function_create_args api_id name ds_name js_code) w'
           else (Inl e, w')))"

section \<open>Tables, topic and queue (helpers_ddb_pricing.py, helpers_sns_sqs.py)\<close>

text \<open>
  \<open>boto3.client(service, region_name=region)\<close> is a parameter \<open>boto3\<close> that gives the
  client of a region.
\<close>

text \<open>
  \<open>ensure_catalog_table\<close> and \<open>ensure_cost_table\<close> differ in the name of the hash key
  only; \<open>ensure_table\<close> is their common body.
\<close>

definition table_args :: "string \<Rightarrow> string \<Rightarrow> create_table_args" where
  "table_args table_name key =
     \<lparr>ct_TableName = table_name, AttributeDefinitions = [(key, ''S'')],
      KeySchema = [(key, ''HASH'')], BillingMode = ''PAY_PER_REQUEST'',
      SSEEnabled = True\<rparr>"

definition ensure_table ::
  "'w dynamodb \<Rightarrow> string \<Rightarrow> string \<Rightarrow> 'w \<Rightarrow> (exn + table_description) \<times> 'w" where
  "ensure_table ddb table_name key w =
     (case describe_table ddb table_name w of
        (Inr t, w') \<Rightarrow> (Inr t, w')
      | (Inl e, w') \<Rightarrow>
          (if exn_class e = ResourceNotFoundException then
             (case create_table ddb (table_args table_name key) w' of
                (Inl e1, w1) \<Rightarrow> (Inl e1, w1)
              | (Inr _, w1) \<Rightarrow>
                  (case wait_table_exists ddb table_name w1 of
                     (Inl e2, w2) \<Rightarrow> (Inl e2, w2)
                   | (Inr _, w2) \<Rightarrow> describe_table ddb table_name w2))
           else (Inl e, w')))"

definition ensure_catalog_table ::
  "(string \<Rightarrow> 'w dynamodb) \<Rightarrow> string \<Rightarrow> string \<Rightarrow> 'w \<Rightarrow> (exn + table_description) \<times> 'w" where
  "ensure_catalog_table boto3 table_name region w = ensure_table (boto3 region) table_name ''asin'' w"

definition ensure_cost_table ::
  "(string \<Rightarrow> 'w dynamodb) \<Rightarrow> string \<Rightarrow> string \<Rightarrow> 'w \<Rightarrow> (exn + table_description) \<times> 'w" where
  "ensure_cost_table boto3 table_name region w = ensure_table (boto3 region) table_name ''asinVendor'' w"

definition ensure_sns_topic ::
  "(string \<Rightarrow> 'w sns) \<Rightarrow> string \<Rightarrow> string \<Rightarrow> 'w \<Rightarrow> (exn + string option) \<times> 'w" where
  "ensure_sns_topic boto3 api_name region w =
     (let topic_name = api_name @ ''-price-changes''; sns = boto3 region
      in case create_topic sns topic_name w of
           (Inr arn, w') \<Rightarrow> (Inr (Some arn), w')
         | (Inl e, w') \<Rightarrow>
             (if contains (lower (exn_msg e)) ''already exists'' then
                (case list_topics sns w' of
                   (Inl e', w'') \<Rightarrow> (Inl e', w'')
                 | (Inr topics, w'') \<Rightarrow> (Inr (find (\<lambda>arn. contains arn topic_name) topics), w''))
              else (Inl e, w')))"

definition ensure_sqs_queue ::
  "(string \<Rightarrow> 'w sqs) \<Rightarrow> string \<Rightarrow> string \<Rightarrow> 'w \<Rightarrow> (exn + string \<times> string) \<times> 'w" where
  "ensure_sqs_queue boto3 api_name region w =
     (let queue_name = api_name @ ''-price-processing''; sqs = boto3 region;
          attempt =
            (case create_queue sqs queue_name
                    [(''MessageRetentionPeriod'', ''1209600''), (''VisibilityTimeout'', ''60'')] w of
               (Inl e, w') \<Rightarrow> (Inl e, w')
             | (Inr queue_url, w') \<Rightarrow>
                 (case get_queue_attributes sqs queue_url [''QueueArn''] w' of
                    (Inl e, w'') \<Rightarrow> (Inl e, w'')
                  | (Inr queue_arn, w'') \<Rightarrow> (Inr (queue_url, queue_arn), w'')))
      in case attempt of
           (Inr r, w') \<Rightarrow> (Inr r, w')
         | (Inl e, w') \<Rightarrow>
             (if contains (lower (exn_msg e)) ''already exists'' then
                (case list_queues sqs queue_name w' of
                   (Inl e', w'') \<Rightarrow> (Inl e', w'')
                 | (Inr queues, w'') \<Rightarrow>
                     (case get_list queues of
                        [] \<Rightarrow> (Inl e, w'')
                      | queue_url # _ \<Rightarrow>
                          (case get_queue_attributes sqs queue_url [''QueueArn''] w'' of
                             (Inl e', w3) \<Rightarrow> (Inl e', w3)
                           | (Inr queue_arn, w3) \<Rightarrow> (Inr (queue_url, queue_arn), w3))))
              else (Inl e, w')))"

section \<open>Recording the calls\<close>

text \<open>
  To count the calls a helper issues, a client is wrapped so that its world carries a
  log: every operation of the wrapped client does what the operation does and appends
  the call with its arguments to the log.
\<close>

datatype call =
    ListGraphqlApis "string option"
  | CreateGraphqlApi create_api_args
  | StartSchemaCreation string string
  | GetSchemaCreationStatus string
  | CreateApiKey string string int
  | ListDataSources string
  | CreateDataSource create_ds_args
  | UpdateResolver resolver_args
  | CreateResolver resolver_args
  | UpdateFunction function_args
  | CreateFunction function_args
  | DescribeTable string
  | CreateTable create_table_args
  | WaitTableExists string
  | Sleep int

definition record_call :: "call \<Rightarrow> ('w \<Rightarrow> 'r \<times> 'w) \<Rightarrow> 'w \<times> call list \<Rightarrow> 'r \<times> ('w \<times> call list)" where
  "record_call c f s = (case f (fst s) of (r, w') \<Rightarrow> (r, (w', snd s @ [c])))"

definition logged :: "'w appsync \<Rightarrow> ('w \<times> call list) appsync" where
  "logged client =
     \<lparr>list_graphql_apis = (\<lambda>token. record_call (ListGraphqlApis token) (list_graphql_apis client token)),
      create_graphql_api = (\<lambda>a. record_call (CreateGraphqlApi a) (create_graphql_api client a)),
      start_schema_creation = (\<lambda>a d. record_call (StartSchemaCreation a d) (start_schema_creation client a d)),
      get_schema_creation_status = (\<lambda>a. record_call (GetSchemaCreationStatus a) (get_schema_creation_status client a)),
      create_api_key = (\<lambda>a d e. record_call (CreateApiKey a d e) (create_api_key client a d e)),
      list_data_sources = (\<lambda>a. record_call (ListDataSources a) (list_data_sources client a)),
      create_data_source = (\<lambda>a. record_call (CreateDataSource a) (create_data_source client a)),
      update_resolver = (\<lambda>a. record_call (UpdateResolver a) (update_resolver client a)),
      create_resolver = (\<lambda>a. record_call (CreateResolver a) (create_resolver client a)),
      update_function = (\<lambda>a. record_call (UpdateFunction a) (update_function client a)),
      create_function_op = (\<lambda>a. record_call (CreateFunction a) (create_function_op client a))\<rparr>"

definition logged_ddb :: "'w dynamodb \<Rightarrow> ('w \<times> call list) dynamodb" where
  "logged_ddb ddb =
     \<lparr>describe_table = (\<lambda>n. record_call (DescribeTable n) (describe_table ddb n)),
      create_table = (\<lambda>a. record_call (CreateTable a) (create_table ddb a)),
      wait_table_exists = (\<lambda>n. record_call (WaitTableExists n) (wait_table_exists ddb n))\<rparr>"

definition logged_sys :: "'w system \<Rightarrow> ('w \<times> call list) system" where
  "logged_sys sys =
     \<lparr>sleep = (\<lambda>n s. (sleep sys n (fst s), snd s @ [Sleep n])),
      read_bytes = (\<lambda>p s. read_bytes sys p (fst s)),
      now_us = (\<lambda>s. now_us sys (fst s))\<rparr>"

text \<open>The creation calls of the ensure-style helpers.\<close>

fun is_creation :: "call \<Rightarrow> bool" where
  "is_creation (CreateGraphqlApi _) = True"
| "is_creation (CreateDataSource _) = True"
| "is_creation (CreateTable _) = True"
| "is_creation _ = False"

definition creations :: "call list \<Rightarrow> call list" where
  "creations l = filter is_creation l"

text \<open>
  What the service serves to the loop of \<open>find_api_by_name\<close>:
  \<open>pages_served client token w ps\<close> says that the service, asked with \<open>token\<close> in the
  world \<open>w\<close> and then with the \<open>nextToken\<close> of each reply, answers with the replies
  \<open>ps\<close> one after the other, each with the world it leaves, and that every reply but
  the last carries a \<open>nextToken\<close>. \<open>list_calls\<close> is the calls of these requests and
  \<open>page_apis\<close> the APIs of the replies.
\<close>

fun pages_served :: "'w appsync \<Rightarrow> string option \<Rightarrow> 'w \<Rightarrow> (api_page \<times> 'w) list \<Rightarrow> bool" where
  "pages_served client token w [] = True"
| "pages_served client token w ((resp, w') # ps) =
     (list_graphql_apis client (if truthy token then token else None) w = (Inr resp, w')
      \<and> (ps = [] \<or> truthy (nextToken resp))
      \<and> pages_served client (nextToken resp) w' ps)"

fun list_calls :: "string option \<Rightarrow> (api_page \<times> 'w) list \<Rightarrow> call list" where
  "list_calls token [] = []"
| "list_calls token ((resp, w') # ps) =
     ListGraphqlApis (if truthy token then token else None) # list_calls (nextToken resp) ps"

definition page_apis :: "(api_page \<times> 'w) list \<Rightarrow> graphql_api list" where
  "page_apis ps = concat (map (\<lambda>p. get_list (graphqlApis (fst p))) ps)"

text \<open>The calls of \<open>k\<close> polls that each found a pending status.\<close>

definition poll_log :: "string \<Rightarrow> nat \<Rightarrow> call list" where
  "poll_log a k = concat (replicate k [GetSchemaCreationStatus a, Sleep 2])"

section \<open>Test services\<close>

text \<open>
  A client none of whose operations is available, to be overridden field by field, and
  a listing service that serves a given list of pages of APIs. The token that leads to
  page \<open>i\<close> is a string of length \<open>i\<close>.
\<close>

definition unavailable :: exn where
  "unavailable = Exn ServiceError ''unavailable''"

definition no_appsync :: "'w appsync" where
  "no_appsync =
     \<lparr>list_graphql_apis = (\<lambda>_ w. (Inl unavailable, w)),
      create_graphql_api = (\<lambda>_ w. (Inl unavailable, w)),
      start_schema_creation = (\<lambda>_ _ w. (Inl unavailable, w)),
      get_schema_creation_status = (\<lambda>_ w. (Inl unavailable, w)),
      create_api_key = (\<lambda>_ _ _ w. (Inl unavailable, w)),
      list_data_sources = (\<lambda>_ w. (Inl unavailable, w)),
      create_data_source = (\<lambda>_ w. (Inl unavailable, w)),
      update_resolver = (\<lambda>_ w. (Inl unavailable, w)),
      create_resolver = (\<lambda>_ w. (Inl unavailable, w)),
      update_function = (\<lambda>_ w. (Inl unavailable, w)),
      create_function_op = (\<lambda>_ w. (Inl unavailable, w))\<rparr>"

definition page_token :: "nat \<Rightarrow> string option" where
  "page_token i = (if i = 0 then None else Some (replicate i CHR ''+''))"

definition serve_page :: "graphql_api list list \<Rightarrow> string option \<Rightarrow> api_page" where
  "serve_page pages token =
     (let i = length (get_list token)
      in \<lparr>graphqlApis = (if i < length pages then Some (pages ! i) else None),
          nextToken = (if Suc i < length pages then page_token (Suc i) else None)\<rparr>)"

definition paged_appsync :: "graphql_api list list \<Rightarrow> 'w appsync" where
  "paged_appsync pages = no_appsync
     \<lparr>list_graphql_apis := (\<lambda>token w. (Inr (serve_page pages token), w)),
      create_graphql_api :=
        (\<lambda>a w. (Inr \<lparr>gapi_name = ca_name a, gapi_id = ''new-api'', gapi_fields = []\<rparr>, w))\<rparr>"

text \<open>
  A resolver and function service whose world says whether the target exists: updating
  a missing target gives the not-found signal, creating makes it exist.
\<close>

definition resolver_service :: "bool appsync" where
  "resolver_service = no_appsync
     \<lparr>update_resolver :=
        (\<lambda>_ w. (if w then Inr () else Inl (Exn NotFoundException ''No resolver found''), w)),
      create_resolver := (\<lambda>_ w. (Inr (), True)),
      update_function :=
        (\<lambda>a w. (if w then Inr \<lparr>fc_functionId = f_name a, fc_name = f_name a, fc_fields = []\<rparr>
                  else Inl (Exn NotFoundException ''Function not found''), w)),
      create_function_op :=
        (\<lambda>a w. (Inr \<lparr>fc_functionId = ''fn-1'', fc_name = f_name a, fc_fields = []\<rparr>, True))\<rparr>"

text \<open>A key service that grants every key, and a system whose clock stands at \<open>t\<close>.\<close>

definition key_service :: "'w appsync" where
  "key_service = no_appsync
     \<lparr>create_api_key := (\<lambda>_ _ e w. (Inr \<lparr>key_id = ''da2-key'', key_expires = e\<rparr>, w))\<rparr>"

definition clock_at :: "int \<Rightarrow> 'w system" where
  "clock_at t = \<lparr>sleep = (\<lambda>_ w. w), read_bytes = (\<lambda>_ _. Inr ''type Query { ok: Boolean }''),
     now_us = (\<lambda>_. t)\<rparr>"

text \<open>
  A schema service whose world is the script of the statuses still to be reported; once
  the script is used up it reports \<open>PROCESSING\<close> for ever.
\<close>

definition schema_service :: "string list appsync" where
  "schema_service = no_appsync
     \<lparr>start_schema_creation := (\<lambda>_ _ w. (Inr (), w)),
      get_schema_creation_status :=
        (\<lambda>_ w. (Inr \<lparr>st_status = Some (case w of [] \<Rightarrow> ''PROCESSING'' | x # _ \<Rightarrow> x),
                      st_details = None\<rparr>, tl w))\<rparr>"

text \<open>
  A data source service whose world is the list of the data sources of the API, a table
  service whose world says whether the table exists (a new table is reported as
  \<open>CREATING\<close> by \<open>create_table\<close> and as \<open>ACTIVE\<close> by \<open>describe_table\<close>), and a
  topic and a queue service that refuse to create and list what the account holds.
\<close>

definition datasource_service :: "data_source list appsync" where
  "datasource_service = no_appsync
     \<lparr>list_data_sources := (\<lambda>_ w. (Inr \<lparr>dataSources = Some w, ds_nextToken = None\<rparr>, w)),
      create_data_source :=
        (\<lambda>a w. (Inr \<lparr>dsrc_name = cd_name a, dsrc_type = cd_type a, dsrc_fields = []\<rparr>,
                  w @ [\<lparr>dsrc_name = cd_name a, dsrc_type = cd_type a, dsrc_fields = []\<rparr>]))\<rparr>"

text \<open>
  The same service when it lists one data source to a page: the reply holds the first
  data source of the API and, when there are more, a \<open>nextToken\<close>.
\<close>

definition truncating_datasource_service :: "data_source list appsync" where
  "truncating_datasource_service = datasource_service
     \<lparr>list_data_sources :=
        (\<lambda>_ w. (Inr \<lparr>dataSources = Some (take 1 w),
                      ds_nextToken = (if 1 < length w then Some ''+'' else None)\<rparr>, w))\<rparr>"

definition table_service :: "string \<Rightarrow> bool dynamodb" where
  "table_service region =
     \<lparr>describe_table =
        (\<lambda>n w. (if w then Inr \<lparr>td_name = n, td_status = ''ACTIVE'', td_fields = []\<rparr>
                  else Inl (Exn ResourceNotFoundException ''Requested resource not found''), w)),
      create_table =
        (\<lambda>a w. (Inr \<lparr>td_name = ct_TableName a, td_status = ''CREATING'', td_fields = []\<rparr>, True)),
      wait_table_exists = (\<lambda>_ w. (Inr (), w))\<rparr>"

definition topic_service :: "string list \<Rightarrow> string \<Rightarrow> 'w sns" where
  "topic_service arns region =
     \<lparr>create_topic =
        (\<lambda>_ w. (Inl (Exn ServiceError ''Invalid parameter: Tags Reason: Topic already exists with different tags''), w)),
      list_topics = (\<lambda>w. (Inr arns, w))\<rparr>"

definition queue_service :: "string list \<Rightarrow> string \<Rightarrow> 'w sqs" where
  "queue_service urls region =
     \<lparr>create_queue =
        (\<lambda>_ _ w. (Inl (Exn ServiceError ''A queue already exists with the same name and a different value for attribute VisibilityTimeout''), w)),
      get_queue_attributes =
        (\<lambda>url _ w. (Inr (''arn:aws:sqs:us-east-1:123456789012:'' @ last (py_split CHR ''/'' url)), w)),
      list_queues = (\<lambda>pre w. (Inr (Some (filter (\<lambda>u. starts_with pre (last (py_split CHR ''/'' u))) urls)), w))\<rparr>"

text \<open>Two pages of APIs, a data source and two ARNs for the examples.\<close>

definition example_pages :: "graphql_api list list" where
  "example_pages =
     [[\<lparr>gapi_name = ''catalog-api'', gapi_id = ''a1'', gapi_fields = []\<rparr>],
      [\<lparr>gapi_name = ''shop-api'', gapi_id = ''a2'', gapi_fields = []\<rparr>]]"

definition cost_ds :: data_source where
  "cost_ds = \<lparr>dsrc_name = ''CostDS'', dsrc_type = ''AMAZON_DYNAMODB'', dsrc_fields = []\<rparr>"

definition cost_table_arn :: string where
  "cost_table_arn = ''arn:aws:dynamodb:us-east-1:123456789012:table/cost''"

definition price_topic_arn :: string where
  "price_topic_arn = ''arn:aws:sns:us-east-1:123456789012:shop-price-changes''"

section \<open>Properties of the naming utility\<close>

lemma code_hyphen: "code CHR ''-'' = 45"
  by (simp add: code_def)

lemma name_char_not_upper: "name_char c \<Longrightarrow> \<not> is_upper c"
  by (auto simp: name_char_def is_upper_def is_lower_ascii_def is_digit_def code_hyphen)

lemma name_char_lower: "name_char c \<Longrightarrow> lower_char c = c"
  by (simp add: lower_char_def name_char_not_upper)

lemma name_char_not_space: "name_char c \<Longrightarrow> \<not> is_space c"
  by (auto simp: name_char_def is_space_def is_lower_ascii_def is_digit_def code_hyphen)

lemma name_char_not_blank: "name_char c \<Longrightarrow> c \<noteq> CHR '' ''"
  by (auto simp: name_char_def is_lower_ascii_def is_digit_def code_def)

lemma name_char_alpha: "name_char c \<Longrightarrow> is_alpha c \<longleftrightarrow> is_lower_ascii c"
  by (auto simp: name_char_def is_alpha_def is_lower_ascii_def is_digit_def code_hyphen)

lemma name_char_cases: "name_char c \<Longrightarrow> \<not> is_alpha c \<Longrightarrow> \<not> is_hyphen c \<Longrightarrow> is_digit c"
  by (auto simp: name_char_def is_alpha_def is_lower_ascii_def is_hyphen_def)

lemma collapse_Nil_iff: "collapse_hyphens s = [] \<longleftrightarrow> s = []"
  by (cases s) auto

lemma hd_collapse: "s \<noteq> [] \<Longrightarrow> hd (collapse_hyphens s) = hd s"
  by (cases s) (auto simp: is_hyphen_def)

lemma no_double_Cons: "\<not> is_hyphen c \<Longrightarrow> no_double_hyphen (c # s) = no_double_hyphen s"
  by (cases s) auto

lemma no_double_Cons2: "s = [] \<or> \<not> is_hyphen (hd s) \<Longrightarrow> no_double_hyphen (c # s) = no_double_hyphen s"
  by (cases s) auto

lemma dropWhile_hd: "dropWhile p s = [] \<or> \<not> p (hd (dropWhile p s))"
  by (metis hd_dropWhile)

lemma no_double_collapse: "no_double_hyphen (collapse_hyphens s)"
proof (induction s rule: collapse_hyphens.induct)
  case 1
  show ?case by simp
next
  case (2 c cs)
  show ?case
  proof (cases "is_hyphen c")
    case True
    let ?d = "dropWhile is_hyphen cs"
    have "collapse_hyphens ?d = [] \<or> \<not> is_hyphen (hd (collapse_hyphens ?d))"
    proof (cases "?d = []")
      case True
      show ?thesis unfolding True by simp
    next
      case False
      then have "\<not> is_hyphen (hd ?d)" by (metis hd_dropWhile)
      then show ?thesis using False by (simp add: hd_collapse)
    qed
    then show ?thesis using 2 True by (simp add: no_double_Cons2)
  next
    case False
    then show ?thesis using 2 by (simp add: no_double_Cons)
  qed
qed

lemma set_collapse: "set (collapse_hyphens s) \<subseteq> set s"
proof (induction s rule: collapse_hyphens.induct)
  case 1
  show ?case by simp
next
  case (2 c cs)
  have "set (dropWhile is_hyphen cs) \<subseteq> set cs"
    by (meson set_dropWhileD subsetI)
  then show ?case using 2 by (auto simp: is_hyphen_def)
qed

lemma collapse_id: "no_double_hyphen s \<Longrightarrow> collapse_hyphens s = s"
proof (induction s rule: no_double_hyphen.induct)
  case 1
  show ?case by simp
next
  case (2 a)
  show ?case by (simp add: is_hyphen_def)
next
  case (3 a b cs)
  then show ?case by (auto simp: is_hyphen_def)
qed

lemma no_double_append: "no_double_hyphen (xs @ ys) \<Longrightarrow> no_double_hyphen xs \<and> no_double_hyphen ys"
proof (induction xs rule: no_double_hyphen.induct)
  case 1
  then show ?case by simp
next
  case (2 a)
  then show ?case by (cases ys) auto
next
  case (3 a b cs)
  then show ?case by auto
qed

lemma strip_with_decomp: "\<exists>pre post. s = pre @ strip_with p s @ post"
proof -
  let ?d = "dropWhile p s"
  have "rev (rev ?d) = rev (takeWhile p (rev ?d) @ dropWhile p (rev ?d))"
    by (simp only: takeWhile_dropWhile_id)
  also have "\<dots> = rev (dropWhile p (rev ?d)) @ rev (takeWhile p (rev ?d))"
    by (simp only: rev_append)
  finally have b: "strip_with p s @ rev (takeWhile p (rev ?d)) = ?d"
    by (simp only: rev_rev_ident strip_with_def)
  have "takeWhile p s @ (strip_with p s @ rev (takeWhile p (rev ?d))) = s"
    by (simp only: b takeWhile_dropWhile_id)
  then have "s = takeWhile p s @ strip_with p s @ rev (takeWhile p (rev ?d))" by simp
  then show ?thesis by blast
qed

lemma no_double_strip: "no_double_hyphen s \<Longrightarrow> no_double_hyphen (strip_with p s)"
proof -
  assume n: "no_double_hyphen s"
  obtain pre post where d: "s = pre @ strip_with p s @ post"
    using strip_with_decomp by blast
  have "no_double_hyphen (pre @ strip_with p s @ post)" using n d by simp
  then have "no_double_hyphen (strip_with p s @ post)" using no_double_append by blast
  then show ?thesis using no_double_append by blast
qed

lemma set_strip_with: "set (strip_with p s) \<subseteq> set s"
proof -
  obtain pre post where d: "s = pre @ strip_with p s @ post"
    using strip_with_decomp by blast
  have "set (strip_with p s) \<subseteq> set (pre @ strip_with p s @ post)" by auto
  then show ?thesis using d by simp
qed

lemma strip_with_ends:
  "strip_with p s = [] \<or> (\<not> p (hd (strip_with p s)) \<and> \<not> p (last (strip_with p s)))"
proof (cases "strip_with p s = []")
  case True
  then show ?thesis by simp
next
  case False
  let ?d = "dropWhile p s"
  let ?e = "dropWhile p (rev ?d)"
  have u: "strip_with p s = rev ?e" by (simp add: strip_with_def)
  have ne: "?e \<noteq> []" using False u by simp
  then have "\<not> p (hd ?e)" by (rule hd_dropWhile)
  then have l: "\<not> p (last (strip_with p s))" using ne u by (simp add: last_rev)
  have dne: "?d \<noteq> []"
  proof
    assume "?d = []"
    then have "?e = []" by (simp only: rev.simps dropWhile.simps)
    then show False using ne by simp
  qed
  then have h: "\<not> p (hd ?d)" by (rule hd_dropWhile)
  have "rev ?d \<noteq> []" using dne by simp
  then obtain x xs where c: "rev ?d = x # xs" by (cases "rev ?d") blast+
  have "strip_with p s \<noteq> [] \<Longrightarrow> hd (strip_with p s) = hd ?d"
  proof -
    obtain post where "?d = strip_with p s @ post"
      unfolding strip_with_def
      by (metis rev_append rev_rev_ident takeWhile_dropWhile_id)
    then show "strip_with p s \<noteq> [] \<Longrightarrow> hd (strip_with p s) = hd ?d"
      by (metis hd_append2)
  qed
  then show ?thesis using False h l by simp
qed

lemma strip_with_id: "s = [] \<or> (\<not> p (hd s) \<and> \<not> p (last s)) \<Longrightarrow> strip_with p s = s"
proof (cases s)
  case Nil
  then show ?thesis by (simp add: strip_with_def)
next
  case (Cons a as)
  assume "s = [] \<or> (\<not> p (hd s) \<and> \<not> p (last s))"
  then have h: "\<not> p (hd s)" and l: "\<not> p (last s)" using Cons by auto
  have d: "dropWhile p s = s" using h by (simp add: dropWhile_eq_self_iff)
  have "rev s \<noteq> []" using Cons by simp
  moreover have "hd (rev s) = last s" using Cons by (simp add: hd_rev)
  ultimately have "dropWhile p (rev s) = rev s" using l by (simp add: dropWhile_eq_self_iff)
  then show ?thesis using d by (simp add: strip_with_def)
qed


lemma clean_name_safe: "safe_name (clean_name s)"
proof -
  let ?f = "filter name_char (replace_char CHR '' '' CHR ''-'' (strip (lower s)))"
  have c: "clean_name s = strip_with is_hyphen (collapse_hyphens ?f)"
    by (simp add: clean_name_def)
  have "set (clean_name s) \<subseteq> set ?f"
    unfolding c using set_strip_with set_collapse by (rule subset_trans)
  then have 1: "list_all name_char (clean_name s)"
    by (auto simp: list_all_iff)
  have 2: "no_double_hyphen (clean_name s)"
    unfolding c by (rule no_double_strip) (rule no_double_collapse)
  have 3: "clean_name s = [] \<or> (\<not> is_hyphen (hd (clean_name s)) \<and> \<not> is_hyphen (last (clean_name s)))"
    unfolding c by (rule strip_with_ends)
  show ?thesis unfolding safe_name_def using 1 2 3 by blast
qed

lemma clean_name_id: "safe_name t \<Longrightarrow> clean_name t = t"
proof -
  assume s: "safe_name t"
  then have nc: "\<And>c. c \<in> set t \<Longrightarrow> name_char c"
    by (simp add: safe_name_def list_all_iff)
  have nd: "no_double_hyphen t" using s by (simp add: safe_name_def)
  have ends: "t = [] \<or> (\<not> is_hyphen (hd t) \<and> \<not> is_hyphen (last t))"
    using s by (simp add: safe_name_def)
  have 1: "lower t = t"
    unfolding lower_def by (rule map_idI) (simp add: nc name_char_lower)
  have "t = [] \<or> (\<not> is_space (hd t) \<and> \<not> is_space (last t))"
  proof (cases "t = []")
    case True
    then show ?thesis by simp
  next
    case False
    then have "hd t \<in> set t" and "last t \<in> set t" by simp_all
    then show ?thesis using nc name_char_not_space by blast
  qed
  then have 2: "strip t = t" unfolding strip_def by (rule strip_with_id)
  have 3: "replace_char CHR '' '' CHR ''-'' t = t"
    unfolding replace_char_def by (rule map_idI) (use nc name_char_not_blank in auto)
  have 4: "filter name_char t = t" using nc by (simp add: filter_id_conv)
  have 5: "collapse_hyphens t = t" using nd by (rule collapse_id)
  have 6: "strip_with is_hyphen t = t" using ends by (rule strip_with_id)
  show ?thesis by (simp add: clean_name_def 1 2 3 4 5 6)
qed

lemma sanitize_name_cases:
  "(clean_name s = [] \<and> sanitize_name s = ''u-'')
   \<or> (clean_name s \<noteq> [] \<and> is_lower_ascii (hd (clean_name s)) \<and> sanitize_name s = clean_name s)
   \<or> (clean_name s \<noteq> [] \<and> is_digit (hd (clean_name s)) \<and> sanitize_name s = ''u-'' @ clean_name s)"
proof (cases "clean_name s = []")
  case True
  then show ?thesis by (simp add: sanitize_name_def)
next
  case False
  have sf: "safe_name (clean_name s)" by (rule clean_name_safe)
  have "hd (clean_name s) \<in> set (clean_name s)" using False by simp
  then have nc: "name_char (hd (clean_name s))" using sf by (simp add: safe_name_def list_all_iff)
  have nh: "\<not> is_hyphen (hd (clean_name s))" using sf False by (simp add: safe_name_def)
  show ?thesis
  proof (cases "is_alpha (hd (clean_name s))")
    case True
    then have "is_lower_ascii (hd (clean_name s))" using nc by (simp add: name_char_alpha)
    then show ?thesis using False True by (simp add: sanitize_name_def)
  next
    case na: False
    then have "is_digit (hd (clean_name s))" using nc nh by (simp add: name_char_cases)
    then show ?thesis using False na by (simp add: sanitize_name_def)
  qed
qed

lemma name_char_u: "name_char CHR ''u''" "name_char CHR ''-''" "is_lower_ascii CHR ''u''"
  "\<not> is_hyphen CHR ''u''" "is_hyphen CHR ''-''" "is_alpha CHR ''u''"
  by (simp_all add: name_char_def is_lower_ascii_def code_def is_hyphen_def is_alpha_def)

lemma lower_not_hyphen: "is_lower_ascii c \<Longrightarrow> \<not> is_hyphen c"
  by (auto simp: is_lower_ascii_def is_hyphen_def code_def)

lemma sanitize_name_props:
  "list_all name_char (sanitize_name s) \<and> sanitize_name s \<noteq> []
   \<and> is_lower_ascii (hd (sanitize_name s)) \<and> no_double_hyphen (sanitize_name s)"
proof -
  let ?c = "clean_name s"
  have sf: "safe_name ?c" by (rule clean_name_safe)
  consider (empty) "?c = []" "sanitize_name s = ''u-''"
    | (alpha) "?c \<noteq> []" "is_lower_ascii (hd ?c)" "sanitize_name s = ?c"
    | (digit) "?c \<noteq> []" "is_digit (hd ?c)" "sanitize_name s = ''u-'' @ ?c"
    using sanitize_name_cases by blast
  then show ?thesis
  proof cases
    case empty
    then show ?thesis by (simp add: name_char_u)
  next
    case alpha
    then show ?thesis using sf by (simp add: safe_name_def)
  next
    case digit
    have "\<not> is_hyphen (hd ?c)" using sf digit(1) by (simp add: safe_name_def)
    then have "no_double_hyphen (CHR ''-'' # ?c)" using sf by (simp add: no_double_Cons2 safe_name_def)
    then have "no_double_hyphen (CHR ''u'' # CHR ''-'' # ?c)" by (simp add: name_char_u)
    then show ?thesis using sf digit by (simp add: safe_name_def name_char_u)
  qed
qed

lemma sanitize_name_last:
  "clean_name s \<noteq> [] \<Longrightarrow> \<not> is_hyphen (last (sanitize_name s))"
proof -
  let ?c = "clean_name s"
  assume ne: "?c \<noteq> []"
  have sf: "safe_name ?c" by (rule clean_name_safe)
  then have l: "\<not> is_hyphen (last ?c)" using ne by (simp add: safe_name_def)
  have "sanitize_name s = ?c \<or> sanitize_name s = ''u-'' @ ?c"
    using sanitize_name_cases ne by blast
  then show ?thesis using l ne by auto
qed

lemma sanitize_name_safe: "clean_name s \<noteq> [] \<Longrightarrow> safe_name (sanitize_name s)"
  using sanitize_name_props [of s] sanitize_name_last [of s]
  by (simp add: safe_name_def lower_not_hyphen)

lemma lower_alpha: "is_lower_ascii c \<Longrightarrow> is_alpha c"
  by (simp add: is_lower_ascii_def is_alpha_def)

lemma sanitize_name_idem: "clean_name s \<noteq> [] \<Longrightarrow> sanitize_name (sanitize_name s) = sanitize_name s"
proof -
  assume ne: "clean_name s \<noteq> []"
  let ?o = "sanitize_name s"
  have "clean_name ?o = ?o" using ne by (simp add: sanitize_name_safe clean_name_id)
  moreover have "?o \<noteq> []" "is_alpha (hd ?o)"
    using sanitize_name_props [of s] by (simp_all add: lower_alpha)
  ultimately show ?thesis by (simp add: sanitize_name_def [of ?o])
qed

lemma sanitize_name_marker: "sanitize_name s = ''u-'' \<longleftrightarrow> clean_name s = []"
proof -
  have sf: "safe_name (clean_name s)" by (rule clean_name_safe)
  have "clean_name s \<noteq> ''u-''" using sf by (auto simp: safe_name_def name_char_u)
  then show ?thesis using sanitize_name_cases [of s] by auto
qed

lemma sanitize_name_nonempty: "sanitize_name d \<noteq> []"
  using sanitize_name_props [of d] by simp

lemma candidate_length:
  "int (length (prefix @ ''-'' @ b @ ''-'' @ suffix))
     = int (length prefix) + int (length b) + int (length suffix) + 2"
  by simp

lemma build_api_name_fits:
  "int (length prefix) + int (length (sanitize_name d)) + int (length suffix) + 2 \<le> max_len \<Longrightarrow>
   build_api_name d suffix prefix max_len
     = (prefix @ ''-'' @ sanitize_name d @ ''-'' @ suffix, sanitize_name d)"
  unfolding build_api_name_def Let_def candidate_length by simp

lemma build_api_name_cut:
  assumes "max_len < int (length prefix) + int (length (sanitize_name d)) + int (length suffix) + 2"
    and "int (length prefix) + int (length suffix) + 3 \<le> max_len"
    and "k = nat (max_len - int (length prefix) - int (length suffix) - 2)"
  shows "build_api_name d suffix prefix max_len
     = (prefix @ ''-'' @ take k (sanitize_name d) @ ''-'' @ suffix, take k (sanitize_name d))"
proof -
  let ?b = "sanitize_name d"
  define ov where "ov = int (length prefix) + int (length ?b) + int (length suffix) + 2 - max_len"
  have ov: "0 < ov" "ov < int (length ?b)" using assms(1,2) unfolding ov_def by linarith+
  have "nat (int (length ?b) + - ov) = k" using assms(3) unfolding ov_def by linarith
  then have s: "slice_to ?b (- ov) = take k ?b"
    using ov by (simp add: slice_to_def)
  have gt: "max_len < int (length prefix) + int (length ?b) + int (length suffix) + 2"
    by (rule assms(1))
  show ?thesis
    unfolding build_api_name_def Let_def candidate_length
    unfolding ov_def [symmetric] using gt ov s by simp
qed

lemma build_api_name_floor:
  assumes "max_len < int (length prefix) + int (length suffix) + 3"
  shows "build_api_name d suffix prefix max_len
     = (prefix @ ''-'' @ take 1 (sanitize_name d) @ ''-'' @ suffix, take 1 (sanitize_name d))"
proof -
  let ?b = "sanitize_name d"
  define ov where "ov = int (length prefix) + int (length ?b) + int (length suffix) + 2 - max_len"
  have ne: "?b \<noteq> []" by (rule sanitize_name_nonempty)
  then have pos: "0 < length ?b" by simp
  have ov: "\<not> ov < int (length ?b)" using assms unfolding ov_def by linarith
  have gt: "max_len < int (length prefix) + int (length ?b) + int (length suffix) + 2"
    using assms pos by linarith
  have "max 1 (int (length ?b) - ov) = 1" using ov by linarith
  then have s: "slice_to ?b (max 1 (int (length ?b) - ov)) = take 1 ?b"
    by (simp add: slice_to_def)
  show ?thesis
    unfolding build_api_name_def Let_def candidate_length
    unfolding ov_def [symmetric] using gt ov s by simp
qed



section \<open>Properties of the provisioning helpers\<close>

subsection \<open>Update first, create when not found\<close>

lemma upsert_js_resolver_updated:
  "update_resolver c (js_resolver_args a t f d j) w = (Inr u, w1) \<Longrightarrow>
   upsert_js_resolver (logged c) a t f d j (w, [])
     = (Inr (), (w1, [UpdateResolver (js_resolver_args a t f d j)]))"
  by (simp add: upsert_js_resolver_def logged_def record_call_def)

lemma upsert_js_resolver_fault:
  "update_resolver c (js_resolver_args a t f d j) w = (Inl e, w1) \<Longrightarrow>
   exn_class e \<noteq> NotFoundException \<Longrightarrow>
   upsert_js_resolver (logged c) a t f d j (w, [])
     = (Inl e, (w1, [UpdateResolver (js_resolver_args a t f d j)]))"
  by (simp add: upsert_js_resolver_def logged_def record_call_def)

lemma upsert_js_resolver_created:
  "update_resolver c (js_resolver_args a t f d j) w = (Inl e, w1) \<Longrightarrow>
   exn_class e = NotFoundException \<Longrightarrow>
   create_resolver c (js_resolver_args a t f d j) w1 = (r, w2) \<Longrightarrow>
   upsert_js_resolver (logged c) a t f d j (w, [])
     = (r, (w2, [UpdateResolver (js_resolver_args a t f d j),
                 CreateResolver (js_resolver_args a t f d j)]))"
  by (cases r) (simp_all add: upsert_js_resolver_def logged_def record_call_def)

lemma create_pipeline_resolver_updated:
  "update_resolver c (pipeline_resolver_args a t f fs) w = (Inr u, w1) \<Longrightarrow>
   create_pipeline_resolver (logged c) a t f fs (w, [])
     = (Inr (), (w1, [UpdateResolver (pipeline_resolver_args a t f fs)]))"
  by (simp add: create_pipeline_resolver_def logged_def record_call_def)

lemma create_pipeline_resolver_fault:
  "update_resolver c (pipeline_resolver_args a t f fs) w = (Inl e, w1) \<Longrightarrow>
   exn_class e \<noteq> NotFoundException \<Longrightarrow>
   create_pipeline_resolver (logged c) a t f fs (w, [])
     = (Inl e, (w1, [UpdateResolver (pipeline_resolver_args a t f fs)]))"
  by (simp add: create_pipeline_resolver_def logged_def record_call_def)

lemma create_pipeline_resolver_created:
  "update_resolver c (pipeline_resolver_args a t f fs) w = (Inl e, w1) \<Longrightarrow>
   exn_class e = NotFoundException \<Longrightarrow>
   create_resolver c (pipeline_resolver_args a t f fs) w1 = (r, w2) \<Longrightarrow>
   create_pipeline_resolver (logged c) a t f fs (w, [])
     = (r, (w2, [UpdateResolver (pipeline_resolver_args a t f fs),
                 CreateResolver (pipeline_resolver_args a t f fs)]))"
  by (cases r) (simp_all add: create_pipeline_resolver_def logged_def record_call_def)

lemma create_function_updated:
  "update_function c (function_update_args a n d j) w = (Inr fc, w1) \<Longrightarrow>
   create_function (logged c) a n d j (w, [])
     = (Inr fc, (w1, [UpdateFunction (function_update_args a n d j)]))"
  by (simp add: create_function_def logged_def record_call_def)

lemma create_function_fault:
  "update_function c (function_update_args a n d j) w = (Inl e, w1) \<Longrightarrow>
   exn_class e \<noteq> NotFoundException \<Longrightarrow>
   create_function (logged c) a n d j (w, [])
     = (Inl e, (w1, [UpdateFunction (function_update_args a n d j)]))"
  by (simp add: create_function_def logged_def record_call_def)

lemma create_function_created:
  "update_function c (function_update_args a n d j) w = (Inl e, w1) \<Longrightarrow>
   exn_class e = NotFoundException \<Longrightarrow>
   create_function_op c (function_create_args a n d j) w1 = (r, w2) \<Longrightarrow>
   create_function (logged c) a n d j (w, [])
     = (r, (w2, [UpdateFunction (function_update_args a n d j),
                 CreateFunction (function_create_args a n d j)]))"
  by (simp add: create_function_def logged_def record_call_def)


subsection \<open>The expiry of an API key\<close>

lemma bit_length_pos: "0 < n \<Longrightarrow> 0 < bit_length n"
  by (subst bit_length.simps) simp

lemma bit_length_bound: "n < 2 ^ j \<Longrightarrow> bit_length n \<le> j"
proof (induction j arbitrary: n)
  case 0
  then have "n \<le> 0" by simp
  then show ?case by (subst bit_length.simps) simp
next
  case (Suc j)
  show ?case
  proof (cases "n \<le> 0")
    case True
    then show ?thesis by (subst bit_length.simps) simp
  next
    case False
    have "n div 2 < 2 ^ j" using Suc.prems by simp
    then have "bit_length (n div 2) \<le> j" by (rule Suc.IH)
    then show ?thesis using False by (subst bit_length.simps) simp
  qed
qed

lemma round_half_even_cases:
  "round_half_even p q = p div q \<or> (round_half_even p q = p div q + 1 \<and> q \<le> 2 * (p mod q))"
  by (auto simp: round_half_even_def Let_def)

text \<open>Scaling by a power of two that is a multiple below: the quotient lies between.\<close>

lemma scaled_round_bounds:
  assumes "0 \<le> a" "0 < b" "0 < P"
  shows "(a div b) * P \<le> round_half_even (a * P) b"
    and "round_half_even (a * P) b \<le> (a div b + 1) * P"
proof -
  define F where "F = a div b"
  define r where "r = a mod b"
  have a: "a = F * b + r" unfolding F_def r_def by simp
  have r: "0 \<le> r" "r < b" unfolding r_def using assms(2) by simp_all
  have x: "a * P = (F * P) * b + r * P" unfolding a by (simp add: algebra_simps)
  have rP: "0 \<le> r * P" "r * P < b * P" using r assms(3) by simp_all
  define f where "f = (a * P) div b"
  define r' where "r' = (a * P) mod b"
  have x': "a * P = f * b + r'" unfolding f_def r'_def by simp
  have r': "0 \<le> r'" "r' < b" unfolding r'_def using assms(2) by simp_all
  have lo: "F * P \<le> f"
  proof (rule ccontr)
    assume "\<not> F * P \<le> f"
    then have "f + 1 \<le> F * P" by simp
    then have "(f + 1) * b \<le> (F * P) * b" using assms(2) by (simp add: mult_right_mono)
    then show False using x x' r' rP by (simp add: algebra_simps)
  qed
  have hi: "f < (F + 1) * P"
  proof (rule ccontr)
    assume "\<not> f < (F + 1) * P"
    then have "(F + 1) * P \<le> f" by simp
    then have "((F + 1) * P) * b \<le> f * b" using assms(2) by (simp add: mult_right_mono)
    then show False using x x' r' rP by (simp add: algebra_simps)
  qed
  have m: "round_half_even (a * P) b = f \<or> round_half_even (a * P) b = f + 1"
    using round_half_even_cases [of "a * P" b] unfolding f_def by blast
  show "(a div b) * P \<le> round_half_even (a * P) b" using m lo unfolding F_def by auto
  show "round_half_even (a * P) b \<le> (a div b + 1) * P" using m hi unfolding F_def by auto
qed

lemma scaled_round_exact:
  assumes "0 \<le> a" "524288 \<le> P"
  shows "round_half_even (a * P) 1000000 < (a div 1000000 + 1) * P"
proof -
  define F where "F = a div 1000000"
  define r where "r = a mod 1000000"
  have a: "a = F * 1000000 + r" unfolding F_def r_def by simp
  have r: "0 \<le> r" "r \<le> 999999" unfolding r_def by simp_all
  have x: "a * P = 1000000 * (F * P) + r * P" unfolding a by (simp add: algebra_simps)
  have "r * P \<le> 999999 * P" using r assms(2) by (simp add: mult_right_mono)
  then have rP: "r * P \<le> 1000000 * P - P" by simp
  define f where "f = (a * P) div 1000000"
  define r' where "r' = (a * P) mod 1000000"
  have x': "a * P = 1000000 * f + r'" unfolding f_def r'_def by simp
  have r': "0 \<le> r'" "r' < 1000000" unfolding r'_def by simp_all
  define FP where "FP = F * P"
  have e: "1000000 * f + r' = 1000000 * FP + r * P" using x x' unfolding FP_def by simp
  consider (down) "round_half_even (a * P) 1000000 = f"
    | (up) "round_half_even (a * P) 1000000 = f + 1" "1000000 \<le> 2 * r'"
    using round_half_even_cases [of "a * P" 1000000] unfolding f_def r'_def by blast
  then have "round_half_even (a * P) 1000000 < FP + P"
  proof cases
    case down
    have "f < FP + P" using e rP r' assms(2) by linarith
    then show ?thesis using down by simp
  next
    case up
    have "f + 1 < FP + P" using e rP r' up(2) assms(2) by linarith
    then show ?thesis using up(1) by simp
  qed
  then show ?thesis unfolding FP_def F_def by (simp add: algebra_simps)
qed


lemma timestamp_seconds_unfold:
  assumes "1000000 \<le> a" "a div 1000000 < 2 ^ 53"
  shows "\<exists>s. s = 53 - bit_length (a div 1000000)
    \<and> (bit_length (a div 1000000) \<le> j \<longrightarrow> 53 - j \<le> s)
    \<and> timestamp_seconds a = round_half_even (a * 2 ^ s) 1000000 div 2 ^ s"
proof -
  define F where "F = a div 1000000"
  define s where "s = 53 - bit_length F"
  have Fpos: "0 < F" unfolding F_def using assms(1) by simp
  have bl: "0 < bit_length F" using Fpos by (rule bit_length_pos)
  have bu: "bit_length F \<le> 53" using assms(2) unfolding F_def by (rule bit_length_bound)
  have e: "int (bit_length F) - 1 - 52 = - int s" unfolding s_def using bu by simp
  have le: "- int s \<le> 0" by simp
  have n: "nat (- (- int s)) = s" by simp
  define m where "m = round_half_even (a * 2 ^ s) 1000000"
  have lo: "F * 2 ^ s \<le> m"
    unfolding m_def F_def using assms(1) by (intro scaled_round_bounds(1)) simp_all
  have mpos: "0 < m"
  proof -
    have "0 < F * 2 ^ s" using Fpos by simp
    then show ?thesis using lo by linarith
  qed
  have td: "true_divide a 1000000 = (m, - int s)"
    using assms(1) e unfolding true_divide_def Let_def m_def F_def by simp
  have "int_of_float (m, - int s) = m div 2 ^ s"
  proof (cases "s = 0")
    case True
    then show ?thesis by (simp add: int_of_float_def)
  next
    case False
    then have "\<not> 0 \<le> - int s" by simp
    then show ?thesis using mpos by (simp add: int_of_float_def)
  qed
  then have ts: "timestamp_seconds a = m div 2 ^ s"
    unfolding timestamp_seconds_def td by simp
  have "bit_length F \<le> j \<longrightarrow> 53 - j \<le> s" unfolding s_def by arith
  then show ?thesis using ts unfolding m_def F_def s_def by blast
qed

lemma timestamp_seconds_near:
  assumes "1000000 \<le> a" "a div 1000000 < 2 ^ 53"
  shows "a div 1000000 \<le> timestamp_seconds a" and "timestamp_seconds a \<le> a div 1000000 + 1"
proof -
  obtain s where ts: "timestamp_seconds a = round_half_even (a * 2 ^ s) 1000000 div 2 ^ s"
    using timestamp_seconds_unfold [OF assms] by blast
  let ?P = "2 ^ s :: int"
  let ?m = "round_half_even (a * ?P) 1000000"
  have P: "0 < ?P" by simp
  have a0: "0 \<le> a" using assms(1) by simp
  have lo: "(a div 1000000) * ?P \<le> ?m"
    using a0 P by (intro scaled_round_bounds(1)) simp_all
  have hi: "?m \<le> (a div 1000000 + 1) * ?P"
    using a0 P by (intro scaled_round_bounds(2)) simp_all
  have "((a div 1000000) * ?P) div ?P \<le> ?m div ?P" using lo P by (rule zdiv_mono1)
  then show "a div 1000000 \<le> timestamp_seconds a" unfolding ts by simp
  have "?m div ?P \<le> ((a div 1000000 + 1) * ?P) div ?P" using hi P by (rule zdiv_mono1)
  then show "timestamp_seconds a \<le> a div 1000000 + 1" unfolding ts by simp
qed

lemma timestamp_seconds_exact:
  assumes "1000000 \<le> a" "a div 1000000 < 2 ^ 34"
  shows "timestamp_seconds a = a div 1000000"
proof -
  have lt: "a div 1000000 < 2 ^ 53"
  proof -
    have "(2::int) ^ 34 \<le> 2 ^ 53" by simp
    then show ?thesis using assms(2) by linarith
  qed
  have b: "bit_length (a div 1000000) \<le> 34" using assms(2) by (rule bit_length_bound)
  obtain s where s: "19 \<le> s"
    and ts: "timestamp_seconds a = round_half_even (a * 2 ^ s) 1000000 div 2 ^ s"
    using timestamp_seconds_unfold [OF assms(1) lt, of 34] b by auto
  let ?P = "2 ^ s :: int"
  let ?m = "round_half_even (a * ?P) 1000000"
  have "(2::int) ^ 19 \<le> 2 ^ s" using s by (intro power_increasing) simp_all
  then have P19: "524288 \<le> ?P" by simp
  have P: "0 < ?P" by simp
  have a0: "0 \<le> a" using assms(1) by simp
  have lo: "(a div 1000000) * ?P \<le> ?m"
    using a0 P by (intro scaled_round_bounds(1)) simp_all
  have hi: "?m < (a div 1000000 + 1) * ?P"
    using a0 P19 by (rule scaled_round_exact)
  define y where "y = ?m - (a div 1000000) * ?P"
  have "?m = ?P * (a div 1000000) + y" "0 \<le> y" "y < ?P"
    unfolding y_def using lo hi by (simp_all add: algebra_simps)
  then have "?m div ?P = a div 1000000" by (rule int_div_pos_eq)
  then show ?thesis unfolding ts .
qed

lemma div_less_of_less_mult:
  fixes a b c :: int
  assumes "0 < b" "a < c * b"
  shows "a div b < c"
proof -
  have e: "b * (a div b) + a mod b = a" by simp
  have "0 \<le> a mod b" using assms(1) by simp
  then have "b * (a div b) \<le> a" using e by linarith
  then have "(a div b) * b \<le> a" by (simp add: mult.commute)
  then have "(a div b) * b < c * b" using assms(2) by linarith
  then show ?thesis using assms(1) by (simp add: mult_less_cancel_right_pos)
qed

lemma true_divide_pos:
  assumes "0 < a" "0 < b" "a div b < 2 ^ 53"
  shows "\<exists>s. true_divide a b = (round_half_even (a * 2 ^ s) b, - int s)"
proof -
  define k where "k = (if b \<le> a then int (bit_length (a div b)) - 1
                  else - int (bit_length ((b - 1) div a)))"
  have "bit_length (a div b) \<le> 53" using assms(3) by (rule bit_length_bound)
  then have k: "k - 52 \<le> 0" unfolding k_def by simp
  define s where "s = nat (- (k - 52))"
  have e: "k - 52 = - int s" unfolding s_def using k by simp
  have a: "\<bar>a\<bar> = a" "sgn a = 1" "a \<noteq> 0" using assms(1) by simp_all
  have "true_divide a b =
      (sgn a * (if k - 52 \<le> 0 then round_half_even (a * 2 ^ nat (- (k - 52))) b
                else round_half_even a (b * 2 ^ nat (k - 52))), k - 52)"
    unfolding true_divide_def Let_def k_def a by (simp only: a if_False)
  then have "true_divide a b = (round_half_even (a * 2 ^ s) b, - int s)"
    unfolding e a by simp
  then show ?thesis by blast
qed

lemma int_of_float_nonneg:
  "0 \<le> m \<Longrightarrow> int_of_float (m, - int s) = m div 2 ^ s"
  by (cases "s = 0") (auto simp: int_of_float_def sgn_if)

lemma float_days_us_unfold:
  assumes "0 < m" "e < 0" and "q = 2 ^ nat (- e)" and "m mod q \<noteq> 0"
    and "true_divide (us_per_day * (m mod q)) q = dnum"
    and "x = sofar + (m div q) * us_per_day + int_of_float dnum"
    and "den = (if 0 \<le> snd dnum then 1 else 2 ^ nat (- snd dnum))"
    and "leftover = (if 0 \<le> snd dnum then 0 else fst dnum - int_of_float dnum * den)"
  shows "float_days_us sofar m e =
     (if 2 * \<bar>leftover\<bar> < den then x
      else if den < 2 * \<bar>leftover\<bar> then x + sgn leftover
      else if odd x then x + sgn leftover else x)"
proof -
  have m: "\<bar>m\<bar> = m" "sgn m = 1" using assms(1) by simp_all
  have ne: "\<not> 0 \<le> e" using assms(2) by simp
  show ?thesis
    unfolding float_days_us_def Let_def m assms(3) [symmetric]
    unfolding assms(6,7,8) assms(5) [symmetric]
    using ne assms(4) by (simp only: if_False mult_1 mult_1_right)
qed

lemma pick_rounded:
  fixes x t :: int
  shows "(if c1 then x else if c2 then x + t else if c3 then x + t else x) = x
    \<or> (\<not> c1 \<and> (if c1 then x else if c2 then x + t else if c3 then x + t else x) = x + t)"
  by auto

lemma float_days_us_bounds:
  assumes "0 < m" "e < 0"
  shows "sofar + (m * us_per_day) div 2 ^ nat (- e) \<le> float_days_us sofar m e"
    and "float_days_us sofar m e \<le> sofar + (m * us_per_day) div 2 ^ nat (- e) + 1"
proof -
  define q :: int where "q = 2 ^ nat (- e)"
  define I where "I = m div q"
  define j where "j = m mod q"
  define D where "D = us_per_day"
  have q: "0 < q" unfolding q_def by simp
  have D: "0 < D" "D < 2 ^ 53" unfolding D_def us_per_day_def by simp_all
  have j: "0 \<le> j" "j < q" unfolding j_def using q by simp_all
  have m: "m = I * q + j" unfolding I_def j_def by simp
  have "m * D = j * D + (I * D) * q" unfolding m by (simp add: algebra_simps)
  then have "(m * D) div q = (j * D + (I * D) * q) div q" by simp
  also have "\<dots> = (j * D) div q + I * D" using q by simp
  finally have md: "(m * D) div q = I * D + (j * D) div q" by simp
  define total where "total = sofar + I * D"
  define A where "A = (D * j) div q"
  have goal: "total + A \<le> float_days_us sofar m e \<and> float_days_us sofar m e \<le> total + A + 1"
  proof (cases "j = 0")
    case True
    have "float_days_us sofar m e = total"
      using assms True unfolding float_days_us_def Let_def total_def I_def j_def q_def D_def
      by (simp add: sgn_if)
    moreover have "A = 0" unfolding A_def True by simp
    ultimately show ?thesis by simp
  next
    case False
    then have jp: "0 < j" using j by simp
    have a: "0 < D * j" using D jp by simp
    have "D * j < D * q" using j D by simp
    then have "(D * j) div q < D" using q by (intro div_less_of_less_mult) simp_all
    then have Alt: "A < 2 ^ 53" unfolding A_def using D by linarith
    have A0: "0 \<le> A" unfolding A_def using a q by (simp add: pos_imp_zdiv_nonneg_iff)
    obtain s where td: "true_divide (D * j) q = (round_half_even (D * j * 2 ^ s) q, - int s)"
      using true_divide_pos [OF a q] Alt unfolding A_def by blast
    define P :: int where "P = 2 ^ s"
    define pm where "pm = round_half_even (D * j * P) q"
    have P: "0 < P" unfolding P_def by simp
    have lo: "A * P \<le> pm" unfolding A_def pm_def
      using a q P by (intro scaled_round_bounds(1)) simp_all
    have hi: "pm \<le> (A + 1) * P" unfolding A_def pm_def
      using a q P by (intro scaled_round_bounds(2)) simp_all
    have pm0: "0 \<le> pm"
    proof -
      have "0 \<le> A * P" using A0 P by simp
      then show ?thesis using lo by linarith
    qed
    define g where "g = pm div P"
    define l where "l = pm mod P"
    have l: "0 \<le> l" "l < P" unfolding l_def using P by simp_all
    have pmgl: "pm = g * P + l" unfolding g_def l_def by simp
    have gA: "A \<le> g"
    proof -
      have "(A * P) div P \<le> pm div P" using lo P by (rule zdiv_mono1)
      then show ?thesis unfolding g_def using P by simp
    qed
    have gA1: "g \<le> A + 1"
    proof -
      have "pm div P \<le> ((A + 1) * P) div P" using hi P by (rule zdiv_mono1)
      then show ?thesis unfolding g_def using P by simp
    qed
    have top: "g = A + 1 \<Longrightarrow> l = 0"
    proof -
      assume "g = A + 1"
      then have "pm = (A + 1) * P + l" using pmgl by simp
      then show "l = 0" using hi l by linarith
    qed
    have iof: "int_of_float (pm, - int s) = g"
      unfolding g_def P_def using pm0 by (rule int_of_float_nonneg)
    define x where "x = total + g"
    have den: "(if 0 \<le> - int s then 1 else 2 ^ nat (- (- int s))) = P"
      unfolding P_def by (cases "s = 0") simp_all
    have lv: "(if 0 \<le> - int s then 0 else pm - g * P) = l"
    proof (cases "s = 0")
      case True
      then have "P = 1" unfolding P_def by simp
      then have "l = 0" using l by simp
      then show ?thesis using True by simp
    next
      case False
      then show ?thesis using pmgl by simp
    qed
    have td': "true_divide (us_per_day * (m mod q)) q = (pm, - int s)"
      using td unfolding pm_def P_def D_def j_def by simp
    have xx: "x = sofar + (m div q) * us_per_day + int_of_float (pm, - int s)"
      unfolding x_def total_def I_def D_def iof by simp
    have dd: "P = (if 0 \<le> snd (pm, - int s) then 1 else 2 ^ nat (- snd (pm, - int s)))"
      unfolding P_def by (cases "s = 0") simp_all
    have ll: "l = (if 0 \<le> snd (pm, - int s) then 0
        else fst (pm, - int s) - int_of_float (pm, - int s) * P)"
      using lv unfolding iof by (cases "s = 0") simp_all
    have jne: "m mod q \<noteq> 0" using False unfolding j_def .
    have R: "float_days_us sofar m e =
       (if 2 * \<bar>l\<bar> < P then x
        else if P < 2 * \<bar>l\<bar> then x + sgn l
        else if odd x then x + sgn l else x)"
      using assms q_def jne td' xx dd ll by (rule float_days_us_unfold)
    have res: "float_days_us sofar m e = x \<or> float_days_us sofar m e = x + sgn l"
      unfolding R using pick_rounded [of "2 * \<bar>l\<bar> < P" x "P < 2 * \<bar>l\<bar>" "sgn l" "odd x"]
      by blast
    have sg: "0 \<le> sgn l" "sgn l \<le> 1" using l by (auto simp: sgn_if)
    have up: "float_days_us sofar m e \<le> total + A + 1"
    proof (cases "g = A + 1")
      case True
      then have "l = 0" by (rule top)
      then show ?thesis using res True unfolding x_def by auto
    next
      case False
      then have "g = A" using gA gA1 by linarith
      then show ?thesis using res sg unfolding x_def by auto
    qed
    have dn: "total + A \<le> float_days_us sofar m e"
      using res sg gA unfolding x_def by auto
    show ?thesis using up dn by simp
  qed
  have eq: "sofar + (m * us_per_day) div 2 ^ nat (- e) = total + A"
    using md unfolding total_def A_def D_def q_def by (simp add: mult.commute)
  show "sofar + (m * us_per_day) div 2 ^ nat (- e) \<le> float_days_us sofar m e"
    unfolding eq using goal by simp
  show "float_days_us sofar m e \<le> sofar + (m * us_per_day) div 2 ^ nat (- e) + 1"
    unfolding eq using goal by simp
qed


lemma ensure_api_key_clamp:
  "less_than_one days \<Longrightarrow>
     ensure_api_key c sys api_id days w = ensure_api_key c sys api_id (PyInt 1) w"
  by (simp add: ensure_api_key_def less_than_one_def)

lemma ensure_api_key_call:
  fixes c :: "'w appsync"
  assumes "\<not> less_than_one days" and "timedelta_us days = Inr d"
    and "d div us_per_day \<le> 999999999"
    and "now_us sys w + d \<le> datetime_max_us"
    and "create_api_key c api_id ''workshop'' (timestamp_seconds (now_us sys w + d)) w = (r, w1)"
  shows "ensure_api_key (logged c) (logged_sys sys) api_id days (w, [])
     = ((case r of Inl e \<Rightarrow> Inl e | Inr key \<Rightarrow> Inr (key_id key, key_expires key)),
        (w1, [CreateApiKey api_id ''workshop'' (timestamp_seconds (now_us sys w + d))]))"
proof -
  have dd: "(if less_than_one days then PyInt 1 else days) = days" using assms(1) by simp
  have n: "now_us (logged_sys sys) (w, []) = now_us sys w" by (simp add: logged_sys_def)
  have ok1: "\<not> 999999999 < d div us_per_day" using assms(3) by simp
  have ok2: "\<not> datetime_max_us < now_us sys w + d" using assms(4) by simp
  have cr: "create_api_key (logged c) api_id ''workshop''
        (timestamp_seconds (now_us sys w + d)) (w, [])
      = (r, (w1, [CreateApiKey api_id ''workshop'' (timestamp_seconds (now_us sys w + d))]))"
    using assms(5) by (simp add: logged_def record_call_def)
  show ?thesis
    unfolding ensure_api_key_def Let_def dd n assms(2) sum.case if_not_P [OF ok1] if_not_P [OF ok2] cr
    by (cases r) simp_all
qed

lemma ensure_api_key_raises:
  fixes c :: "'w appsync"
  assumes "\<not> less_than_one days" and "timedelta_us days = Inl e"
  shows "ensure_api_key c sys api_id days w = (Inl e, w)"
proof -
  have dd: "(if less_than_one days then PyInt 1 else days) = days" using assms(1) by simp
  show ?thesis unfolding ensure_api_key_def Let_def dd assms(2) by simp
qed

lemma timedelta_us_int: "timedelta_us (PyInt n) = Inr (n * 86400000000 + 120000000)"
  by (simp add: timedelta_us_def us_per_day_def)

lemma timedelta_us_float_whole:
  "0 \<le> e \<Longrightarrow> timedelta_us (PyFloat m e) = Inr (m * 2 ^ nat e * 86400000000 + 120000000)"
  by (simp add: timedelta_us_def float_days_us_def us_per_day_def)

lemma timedelta_us_float:
  assumes "0 < m" "e < 0"
  shows "\<exists>d. timedelta_us (PyFloat m e) = Inr d
      \<and> (m * 86400000000) div 2 ^ nat (- e) + 120000000 \<le> d
      \<and> d \<le> (m * 86400000000) div 2 ^ nat (- e) + 120000001"
proof -
  have t: "timedelta_us (PyFloat m e) = Inr (float_days_us 120000000 m e)"
    by (simp add: timedelta_us_def)
  have "120000000 + (m * us_per_day) div 2 ^ nat (- e) \<le> float_days_us 120000000 m e"
    using assms by (rule float_days_us_bounds)
  moreover have "float_days_us 120000000 m e \<le> 120000000 + (m * us_per_day) div 2 ^ nat (- e) + 1"
    using assms by (rule float_days_us_bounds)
  ultimately show ?thesis unfolding t us_per_day_def by simp
qed

lemma clock_now: "now_us (clock_at t) w = t"
  by (simp add: clock_at_def)

lemma key_service_create:
  "create_api_key key_service a d e w = (Inr \<lparr>key_id = ''da2-key'', key_expires = e\<rparr>, w)"
  by (simp add: key_service_def no_appsync_def)

subsection \<open>Polling the schema status\<close>

lemma poll_schema_pending:
  "pending (fst (get_schema_creation_status c a w)) \<Longrightarrow>
   poll_schema c sys a (Suc n) w
     = poll_schema c sys a n (sleep sys 2 (snd (get_schema_creation_status c a w)))"
  by (cases "get_schema_creation_status c a w")
     (auto simp: pending_def split: sum.splits)

lemma poll_schema_done:
  "\<not> pending (fst (get_schema_creation_status c a w)) \<Longrightarrow>
   poll_schema c sys a (Suc n) w
     = (poll_outcome (fst (get_schema_creation_status c a w)), snd (get_schema_creation_status c a w))"
  by (cases "get_schema_creation_status c a w")
     (auto simp: pending_def poll_outcome_def split: sum.splits)

lemma poll_schema_all_pending:
  "(\<And>k. k < n \<Longrightarrow> pending (poll_reply c sys a k w)) \<Longrightarrow>
   poll_schema c sys a n w = (Inr (), poll_world c sys a n w)"
proof (induction n arbitrary: w)
  case 0
  show ?case by simp
next
  case (Suc n)
  let ?w = "sleep sys 2 (snd (get_schema_creation_status c a w))"
  have p0: "pending (fst (get_schema_creation_status c a w))"
    using Suc.prems [of 0] by (simp add: poll_reply_def)
  have "\<And>k. k < n \<Longrightarrow> pending (poll_reply c sys a k ?w)"
    using Suc.prems [of "Suc k" for k] by (simp add: poll_reply_def)
  then have "poll_schema c sys a n ?w = (Inr (), poll_world c sys a n ?w)"
    by (rule Suc.IH)
  then show ?case using p0 by (simp only: poll_schema_pending poll_world.simps)
qed

lemma poll_schema_first_done:
  "k < n \<Longrightarrow> (\<And>j. j < k \<Longrightarrow> pending (poll_reply c sys a j w)) \<Longrightarrow>
   \<not> pending (poll_reply c sys a k w) \<Longrightarrow>
   poll_schema c sys a n w
     = (poll_outcome (poll_reply c sys a k w),
        snd (get_schema_creation_status c a (poll_world c sys a k w)))"
proof (induction k arbitrary: w n)
  case 0
  then obtain m where n: "n = Suc m" by (cases n) auto
  have "\<not> pending (fst (get_schema_creation_status c a w))"
    using "0.prems"(3) by (simp add: poll_reply_def)
  then show ?case unfolding n by (simp add: poll_schema_done poll_reply_def del: poll_schema.simps)
next
  case (Suc k)
  then obtain m where n: "n = Suc m" and km: "k < m" by (cases n) auto
  let ?w = "sleep sys 2 (snd (get_schema_creation_status c a w))"
  have p0: "pending (fst (get_schema_creation_status c a w))"
    using Suc.prems(2) [of 0] by (simp add: poll_reply_def)
  have a: "\<And>j. j < k \<Longrightarrow> pending (poll_reply c sys a j ?w)"
    using Suc.prems(2) [of "Suc j" for j] by (simp add: poll_reply_def)
  have b: "\<not> pending (poll_reply c sys a k ?w)"
    using Suc.prems(3) by (simp add: poll_reply_def)
  have "poll_schema c sys a m ?w
     = (poll_outcome (poll_reply c sys a k ?w),
        snd (get_schema_creation_status c a (poll_world c sys a k ?w)))"
    using km a b by (rule Suc.IH)
  then show ?case unfolding n using p0
    by (simp add: poll_schema_pending poll_reply_def del: poll_schema.simps)
qed

lemma failing_not_pending: "failing r \<Longrightarrow> \<not> pending r"
  by (auto simp: failing_def pending_def split: sum.splits)

lemma poll_outcome_raises: "\<not> pending r \<Longrightarrow> isl (poll_outcome r) \<longleftrightarrow> failing r"
  by (auto simp: failing_def pending_def poll_outcome_def split: sum.splits)

lemma poll_schema_raises:
  "isl (fst (poll_schema c sys a n w))
     \<longleftrightarrow> (\<exists>k<n. (\<forall>j<k. pending (poll_reply c sys a j w)) \<and> failing (poll_reply c sys a k w))"
proof (cases "\<forall>k<n. pending (poll_reply c sys a k w)")
  case True
  then have "poll_schema c sys a n w = (Inr (), poll_world c sys a n w)"
    by (simp add: poll_schema_all_pending)
  moreover have "\<not> (\<exists>k<n. (\<forall>j<k. pending (poll_reply c sys a j w)) \<and> failing (poll_reply c sys a k w))"
    using True failing_not_pending by blast
  ultimately show ?thesis by simp
next
  case False
  define P where "P k \<longleftrightarrow> k < n \<and> \<not> pending (poll_reply c sys a k w)" for k
  have ex: "\<exists>k. P k" using False unfolding P_def by blast
  define k0 where "k0 = (LEAST k. P k)"
  have pk0: "P k0" unfolding k0_def using ex by (metis LeastI)
  have least: "\<And>j. j < k0 \<Longrightarrow> \<not> P j" unfolding k0_def by (rule not_less_Least)
  have k0n: "k0 < n" and np: "\<not> pending (poll_reply c sys a k0 w)"
    using pk0 unfolding P_def by simp_all
  have before: "\<And>j. j < k0 \<Longrightarrow> pending (poll_reply c sys a j w)"
    using least k0n unfolding P_def by (meson less_trans)
  have res: "poll_schema c sys a n w
     = (poll_outcome (poll_reply c sys a k0 w),
        snd (get_schema_creation_status c a (poll_world c sys a k0 w)))"
    using k0n before np by (rule poll_schema_first_done)
  have l: "isl (fst (poll_schema c sys a n w)) \<longleftrightarrow> failing (poll_reply c sys a k0 w)"
    unfolding res using np by (simp add: poll_outcome_raises)
  show ?thesis
  proof
    assume "isl (fst (poll_schema c sys a n w))"
    then have "failing (poll_reply c sys a k0 w)" using l by simp
    then show "\<exists>k<n. (\<forall>j<k. pending (poll_reply c sys a j w)) \<and> failing (poll_reply c sys a k w)"
      using k0n before by blast
  next
    assume "\<exists>k<n. (\<forall>j<k. pending (poll_reply c sys a j w)) \<and> failing (poll_reply c sys a k w)"
    then obtain k where k: "k < n" "\<forall>j<k. pending (poll_reply c sys a j w)"
      "failing (poll_reply c sys a k w)" by blast
    have "\<not> pending (poll_reply c sys a k w)" using k(3) by (rule failing_not_pending)
    then have "\<not> k < k0" using before by blast
    moreover have "\<not> k0 < k" using k(2) np by blast
    ultimately have "k = k0" by simp
    then show "isl (fst (poll_schema c sys a n w))" using l k(3) by simp
  qed
qed

lemma poll_world_logged:
  "poll_world (logged c) (logged_sys sys) a k (w, l)
     = (poll_world c sys a k w, l @ poll_log a k)"
proof (induction k arbitrary: w l)
  case 0
  show ?case by (simp add: poll_log_def)
next
  case (Suc k)
  obtain r w' where g: "get_schema_creation_status c a w = (r, w')"
    by (cases "get_schema_creation_status c a w")
  have "sleep (logged_sys sys) 2 (snd (get_schema_creation_status (logged c) a (w, l)))
      = (sleep sys 2 w', (l @ [GetSchemaCreationStatus a]) @ [Sleep 2])"
    by (simp add: logged_def logged_sys_def record_call_def g)
  then show ?case using g by (simp add: Suc.IH poll_log_def)
qed

lemma get_status_logged:
  "get_schema_creation_status (logged c) a (w, l)
     = (fst (get_schema_creation_status c a w),
        (snd (get_schema_creation_status c a w), l @ [GetSchemaCreationStatus a]))"
  by (cases "get_schema_creation_status c a w") (simp add: logged_def record_call_def)

lemma poll_reply_logged:
  "poll_reply (logged c) (logged_sys sys) a k (w, l) = poll_reply c sys a k w"
  by (simp add: poll_reply_def poll_world_logged get_status_logged)

lemma upload_schema_started:
  "read_bytes sys p w = Inr data \<Longrightarrow> start_schema_creation c a data w = (Inr u, w0) \<Longrightarrow>
   upload_schema c sys a p w = poll_schema c sys a 30 w0"
  by (simp add: upload_schema_def del: poll_schema.simps)

lemma upload_schema_started_logged:
  "read_bytes sys p w = Inr data \<Longrightarrow> start_schema_creation c a data w = (Inr u, w0) \<Longrightarrow>
   upload_schema (logged c) (logged_sys sys) a p (w, [])
     = poll_schema (logged c) (logged_sys sys) a 30 (w0, [StartSchemaCreation a data])"
  by (simp add: upload_schema_def logged_def logged_sys_def record_call_def del: poll_schema.simps)

lemma upload_schema_timeout:
  assumes "read_bytes sys p w = Inr data" "start_schema_creation c a data w = (Inr u, w0)"
    and "\<And>k. k < 30 \<Longrightarrow> pending (poll_reply c sys a k w0)"
  shows "upload_schema c sys a p w = (Inr (), poll_world c sys a 30 w0)"
    and "upload_schema (logged c) (logged_sys sys) a p (w, [])
      = (Inr (), (poll_world c sys a 30 w0, StartSchemaCreation a data # poll_log a 30))"
proof -
  show "upload_schema c sys a p w = (Inr (), poll_world c sys a 30 w0)"
    unfolding upload_schema_started [OF assms(1,2)]
    using assms(3) by (rule poll_schema_all_pending)
  have "\<And>k. k < 30 \<Longrightarrow>
      pending (poll_reply (logged c) (logged_sys sys) a k (w0, [StartSchemaCreation a data]))"
    using assms(3) by (simp add: poll_reply_logged)
  then have "poll_schema (logged c) (logged_sys sys) a 30 (w0, [StartSchemaCreation a data])
      = (Inr (), poll_world (logged c) (logged_sys sys) a 30 (w0, [StartSchemaCreation a data]))"
    by (rule poll_schema_all_pending)
  then show "upload_schema (logged c) (logged_sys sys) a p (w, [])
      = (Inr (), (poll_world c sys a 30 w0, StartSchemaCreation a data # poll_log a 30))"
    unfolding upload_schema_started_logged [OF assms(1,2)] by (simp add: poll_world_logged)
qed

lemma upload_schema_ended:
  assumes "read_bytes sys p w = Inr data" "start_schema_creation c a data w = (Inr u, w0)"
    and "k < 30" "\<And>j. j < k \<Longrightarrow> pending (poll_reply c sys a j w0)"
    and "\<not> pending (poll_reply c sys a k w0)"
  shows "upload_schema (logged c) (logged_sys sys) a p (w, [])
      = (poll_outcome (poll_reply c sys a k w0),
         (snd (get_schema_creation_status c a (poll_world c sys a k w0)),
          StartSchemaCreation a data # poll_log a k @ [GetSchemaCreationStatus a]))"
proof -
  let ?s = "(w0, [StartSchemaCreation a data])"
  have 1: "\<And>j. j < k \<Longrightarrow> pending (poll_reply (logged c) (logged_sys sys) a j ?s)"
    using assms(4) by (simp add: poll_reply_logged)
  have 2: "\<not> pending (poll_reply (logged c) (logged_sys sys) a k ?s)"
    using assms(5) by (simp add: poll_reply_logged)
  have "poll_schema (logged c) (logged_sys sys) a 30 ?s
     = (poll_outcome (poll_reply (logged c) (logged_sys sys) a k ?s),
        snd (get_schema_creation_status (logged c) a (poll_world (logged c) (logged_sys sys) a k ?s)))"
    using assms(3) 1 2 by (rule poll_schema_first_done)
  then show ?thesis
    unfolding upload_schema_started_logged [OF assms(1,2)]
    by (simp add: poll_reply_logged poll_world_logged get_status_logged)
qed

lemma not_applicable_raises:
  "st_status st = Some ''NOT_APPLICABLE'' \<Longrightarrow>
   failing (Inr st) \<and> poll_outcome (Inr st)
     = Inl (Exn RuntimeError (''Schema status=NOT_APPLICABLE: '' @ take 400 (get_list (st_details st))))"
  by (simp add: failing_def poll_outcome_def get_list_def)

lemma success_returns:
  "st_status st = Some ''SUCCESS'' \<Longrightarrow>
   \<not> failing (Inr st) \<and> \<not> pending (Inr st) \<and> poll_outcome (Inr st) = Inr ()"
  by (simp add: failing_def pending_def poll_outcome_def)

lemma schema_service_status:
  "get_schema_creation_status schema_service a w
     = (Inr \<lparr>st_status = Some (case w of [] \<Rightarrow> ''PROCESSING'' | x # _ \<Rightarrow> x), st_details = None\<rparr>, tl w)"
  by (simp add: schema_service_def no_appsync_def)

lemma schema_service_idle: "poll_world schema_service (clock_at t) a k [] = []"
  by (induction k) (simp_all add: schema_service_status clock_at_def)

lemma schema_service_idle_pending: "pending (poll_reply schema_service (clock_at t) a k [])"
  by (simp add: poll_reply_def schema_service_idle schema_service_status pending_def)

lemma schema_service_start:
  "read_bytes (clock_at t) p w = Inr ''type Query { ok: Boolean }''"
  "start_schema_creation schema_service a d w = (Inr (), w)"
  by (simp_all add: clock_at_def schema_service_def no_appsync_def)

lemma length_poll_log: "length (poll_log a k) = 2 * k"
  by (induction k) (simp_all add: poll_log_def)

subsection \<open>Looking an API up by name\<close>

lemma find_Some_holds: "find P xs = Some x \<Longrightarrow> P x \<and> x \<in> set xs"
  by (induction xs) (auto split: if_splits)

lemma find_api_loop_exact:
  fixes c :: "'w appsync"
  assumes "find_api_loop c name token w = Some y"
  shows "\<forall>api w'. y = (Inr (Some api), w') \<longrightarrow> gapi_name api = name"
proof (rule find_api_loop.raw_induct
        [where P = "\<lambda>c name token w y. \<forall>api w'. y = (Inr (Some api), w') \<longrightarrow> gapi_name api = name",
         OF _ assms])
  fix f :: "'w appsync \<Rightarrow> string \<Rightarrow> string option \<Rightarrow> 'w \<Rightarrow> ((exn + graphql_api option) \<times> 'w) option"
    and c :: "'w appsync" and name token w y
  assume IH: "\<And>c name token w y. f c name token w = Some y \<Longrightarrow>
      \<forall>api w'. y = (Inr (Some api), w') \<longrightarrow> gapi_name api = name"
  assume eq: "(case list_graphql_apis c (if truthy token then token else None) w of
        (Inl e, w') \<Rightarrow> Some (Inl e, w')
      | (Inr resp, w') \<Rightarrow>
          (case find (\<lambda>api. gapi_name api = name) (get_list (graphqlApis resp)) of
             None \<Rightarrow>
               (if \<not> truthy (nextToken resp) then Some (Inr None, w')
                else f c name (nextToken resp) w')
           | Some api \<Rightarrow> Some (Inr (Some api), w'))) = Some y"
  obtain r w1 where l: "list_graphql_apis c (if truthy token then token else None) w = (r, w1)"
    by (cases "list_graphql_apis c (if truthy token then token else None) w")
  show "\<forall>api w'. y = (Inr (Some api), w') \<longrightarrow> gapi_name api = name"
  proof (cases r)
    case (Inl e)
    then have "y = (Inl e, w1)" using eq l by simp
    then show ?thesis by simp
  next
    case (Inr resp)
    show ?thesis
    proof (cases "find (\<lambda>api. gapi_name api = name) (get_list (graphqlApis resp))")
      case (Some api)
      then have "y = (Inr (Some api), w1)" using eq l Inr by simp
      moreover have "gapi_name api = name" using find_Some_holds [OF Some] by simp
      ultimately show ?thesis by simp
    next
      case None
      show ?thesis
      proof (cases "truthy (nextToken resp)")
        case True
        then have "f c name (nextToken resp) w1 = Some y" using eq l Inr None by simp
        then show ?thesis by (rule IH)
      next
        case False
        then have "y = (Inr None, w1)" using eq l Inr None by simp
        then show ?thesis by simp
      qed
    qed
  qed
qed


lemma list_graphql_apis_logged:
  "list_graphql_apis (logged c) t s
     = (fst (list_graphql_apis c t (fst s)),
        (snd (list_graphql_apis c t (fst s)), snd s @ [ListGraphqlApis t]))"
  by (simp add: logged_def record_call_def split: prod.splits)

lemma find_api_loop_calls:
  fixes c :: "'w appsync"
  assumes "find_api_loop (logged c) name token s = Some y"
  shows "creations (snd (snd y)) = creations (snd s)"
proof -
  have "logged c = logged c \<longrightarrow> creations (snd (snd y)) = creations (snd s)"
  proof (rule find_api_loop.raw_induct
        [where P = "\<lambda>c' name token s y. c' = logged c \<longrightarrow> creations (snd (snd y)) = creations (snd s)",
         OF _ assms])
    fix f :: "('w \<times> call list) appsync \<Rightarrow> string \<Rightarrow> string option \<Rightarrow> 'w \<times> call list
        \<Rightarrow> ((exn + graphql_api option) \<times> 'w \<times> call list) option"
      and c' :: "('w \<times> call list) appsync" and name token s y
    assume IH: "\<And>c' name token s y. f c' name token s = Some y \<Longrightarrow>
        c' = logged c \<longrightarrow> creations (snd (snd y)) = creations (snd s)"
    assume eq: "(case list_graphql_apis c' (if truthy token then token else None) s of
          (Inl e, w') \<Rightarrow> Some (Inl e, w')
        | (Inr resp, w') \<Rightarrow>
            (case find (\<lambda>api. gapi_name api = name) (get_list (graphqlApis resp)) of
               None \<Rightarrow>
                 (if \<not> truthy (nextToken resp) then Some (Inr None, w')
                  else f c' name (nextToken resp) w')
             | Some api \<Rightarrow> Some (Inr (Some api), w'))) = Some y"
    show "c' = logged c \<longrightarrow> creations (snd (snd y)) = creations (snd s)"
    proof
      assume c': "c' = logged c"
      let ?t = "if truthy token then token else None"
      obtain r s1 where l: "list_graphql_apis c' ?t s = (r, s1)"
        by (cases "list_graphql_apis c' ?t s")
      have s1: "creations (snd s1) = creations (snd s)"
        using l unfolding c' list_graphql_apis_logged by (auto simp: creations_def)
      show "creations (snd (snd y)) = creations (snd s)"
      proof (cases r)
        case (Inl e)
        then have "y = (Inl e, s1)" using eq l by simp
        then show ?thesis using s1 by simp
      next
        case (Inr resp)
        show ?thesis
        proof (cases "find (\<lambda>api. gapi_name api = name) (get_list (graphqlApis resp))")
          case (Some api)
          then have "y = (Inr (Some api), s1)" using eq l Inr by simp
          then show ?thesis using s1 by simp
        next
          case None
          show ?thesis
          proof (cases "truthy (nextToken resp)")
            case True
            then have "f c' name (nextToken resp) s1 = Some y" using eq l Inr None by simp
            then have "c' = logged c \<longrightarrow> creations (snd (snd y)) = creations (snd s1)" by (rule IH)
            then have "creations (snd (snd y)) = creations (snd s1)" using c' by simp
            then show ?thesis using s1 by simp
          next
            case False
            then have "y = (Inr None, s1)" using eq l Inr None by simp
            then show ?thesis using s1 by simp
          qed
        qed
      qed
    qed
  qed
  then show ?thesis by simp
qed

lemma find_api_by_name_exact:
  "find_api_by_name c name w = Some (Inr (Some api), w') \<Longrightarrow> gapi_name api = name"
  unfolding find_api_by_name_def
  using find_api_loop_exact [of c name None w "(Inr (Some api), w')"] by simp

lemma find_api_by_name_calls:
  "find_api_by_name (logged c) name (w, []) = Some (r, s) \<Longrightarrow> creations (snd s) = []"
  unfolding find_api_by_name_def using find_api_loop_calls [of c name None "(w, [])" "(r, s)"]
  by (simp add: creations_def)

lemma truthy_page_token: "(if truthy (page_token i) then page_token i else None) = page_token i"
  by (simp add: page_token_def truthy_def)

lemma truthy_None: "\<not> truthy None"
  by (simp add: truthy_def)

lemma length_page_token: "length (get_list (page_token i)) = i"
  by (simp add: page_token_def get_list_def)

lemma paged_list:
  "list_graphql_apis (paged_appsync pages) (page_token i) w
     = (Inr \<lparr>graphqlApis = (if i < length pages then Some (pages ! i) else None),
             nextToken = (if Suc i < length pages then page_token (Suc i) else None)\<rparr>, w)"
  by (simp add: paged_appsync_def no_appsync_def serve_page_def length_page_token)

lemma find_append_cases:
  "find P (xs @ ys) = (case find P xs of Some x \<Rightarrow> Some x | None \<Rightarrow> find P ys)"
  by (induction xs) auto

lemma find_api_loop_paged:
  "i < length pages \<Longrightarrow>
   find_api_loop (paged_appsync pages) name (page_token i) w
     = Some (Inr (find (\<lambda>api. gapi_name api = name) (concat (drop i pages))), w)"
proof (induction "length pages - i" arbitrary: i)
  case 0
  then show ?case by simp
next
  case (Suc n)
  let ?P = "\<lambda>api. gapi_name api = name"
  have d: "drop i pages = pages ! i # drop (Suc i) pages"
    using Suc.prems by (simp add: Cons_nth_drop_Suc)
  have f: "find ?P (concat (drop i pages))
      = (case find ?P (pages ! i) of Some x \<Rightarrow> Some x | None \<Rightarrow> find ?P (concat (drop (Suc i) pages)))"
    unfolding d by (simp add: find_append_cases)
  show ?case
  proof (cases "find ?P (pages ! i)")
    case (Some api)
    then show ?thesis
      using Suc.prems f
      by (subst find_api_loop.simps) (simp add: truthy_page_token paged_list get_list_def)
  next
    case None
    show ?thesis
    proof (cases "Suc i < length pages")
      case True
      have "n = length pages - Suc i" using Suc.hyps(2) by simp
      then have IH: "find_api_loop (paged_appsync pages) name (page_token (Suc i)) w
          = Some (Inr (find ?P (concat (drop (Suc i) pages))), w)"
        using True by (rule Suc.hyps(1))
      have t: "truthy (page_token (Suc i))" by (simp add: page_token_def truthy_def)
      show ?thesis
        using Suc.prems f None True t IH
        by (subst find_api_loop.simps) (simp add: truthy_page_token paged_list get_list_def)
    next
      case False
      then have "drop (Suc i) pages = []" by simp
      then show ?thesis
        using Suc.prems f None False
        by (subst find_api_loop.simps) (simp add: truthy_page_token paged_list get_list_def truthy_None)
    qed
  qed
qed

lemma find_api_by_name_paged:
  "find_api_by_name (paged_appsync pages) name w
     = Some (Inr (find (\<lambda>api. gapi_name api = name) (concat pages)), w)"
proof (cases pages)
  case Nil
  have "page_token 0 = None" by (simp add: page_token_def)
  then have l: "list_graphql_apis (paged_appsync []) None w
      = (Inr \<lparr>graphqlApis = None, nextToken = None\<rparr>, w)"
    using paged_list [of "[]" 0 w] by simp
  show ?thesis unfolding find_api_by_name_def Nil
    by (subst find_api_loop.simps) (simp add: l truthy_None get_list_def)
next
  case (Cons p ps)
  then have "0 < length pages" by simp
  then have "find_api_loop (paged_appsync pages) name (page_token 0) w
     = Some (Inr (find (\<lambda>api. gapi_name api = name) (concat (drop 0 pages))), w)"
    by (rule find_api_loop_paged)
  then show ?thesis by (simp add: find_api_by_name_def page_token_def)
qed

subsection \<open>Ensuring a resource\<close>

lemma find_api_loop_served:
  fixes c :: "'w appsync"
  assumes "pages_served c tok w (qs @ [(resp, w1)])"
    and "find (\<lambda>api. gapi_name api = name) (page_apis qs) = None"
    and "find (\<lambda>api. gapi_name api = name) (get_list (graphqlApis resp)) = None
           \<Longrightarrow> \<not> truthy (nextToken resp)"
  shows "find_api_loop (logged c) name tok (w, l)
    = Some (Inr (find (\<lambda>api. gapi_name api = name) (get_list (graphqlApis resp))),
            (w1, l @ list_calls tok (qs @ [(resp, w1)])))"
  using assms(1,2)
proof (induction qs arbitrary: tok w l)
  case Nil
  let ?t = "if truthy tok then tok else None"
  have s: "list_graphql_apis c ?t w = (Inr resp, w1)" using Nil.prems(1) by simp
  have ls: "list_graphql_apis (logged c) ?t (w, l) = (Inr resp, (w1, l @ [ListGraphqlApis ?t]))"
    unfolding list_graphql_apis_logged using s by simp
  show ?case
  proof (cases "find (\<lambda>api. gapi_name api = name) (get_list (graphqlApis resp))")
    case None
    then have "\<not> truthy (nextToken resp)" by (rule assms(3))
    then show ?thesis using None ls by (subst find_api_loop.simps) simp
  next
    case (Some api)
    then show ?thesis using ls by (subst find_api_loop.simps) simp
  qed
next
  case (Cons q qs)
  let ?t = "if truthy tok then tok else None"
  obtain r0 w0 where q: "q = (r0, w0)" by (cases q)
  have s: "list_graphql_apis c ?t w = (Inr r0, w0)"
    and t: "truthy (nextToken r0)"
    and rest: "pages_served c (nextToken r0) w0 (qs @ [(resp, w1)])"
    using Cons.prems(1) unfolding q by simp_all
  have ls: "list_graphql_apis (logged c) ?t (w, l) = (Inr r0, (w0, l @ [ListGraphqlApis ?t]))"
    unfolding list_graphql_apis_logged using s by simp
  have f: "find (\<lambda>api. gapi_name api = name) (get_list (graphqlApis r0) @ page_apis qs) = None"
    using Cons.prems(2) unfolding q page_apis_def by simp
  have f0: "find (\<lambda>api. gapi_name api = name) (get_list (graphqlApis r0)) = None"
    using f unfolding find_append_cases by (simp split: option.splits)
  have f1: "find (\<lambda>api. gapi_name api = name) (page_apis qs) = None"
    using f unfolding find_append_cases by (simp split: option.splits)
  have IH: "find_api_loop (logged c) name (nextToken r0) (w0, l @ [ListGraphqlApis ?t])
    = Some (Inr (find (\<lambda>api. gapi_name api = name) (get_list (graphqlApis resp))),
            (w1, (l @ [ListGraphqlApis ?t]) @ list_calls (nextToken r0) (qs @ [(resp, w1)])))"
    using rest f1 by (rule Cons.IH)
  show ?case unfolding q using ls f0 t IH by (subst find_api_loop.simps) simp
qed

lemma creations_list_calls: "creations (list_calls tok ps) = []"
  by (induction tok ps rule: list_calls.induct) (simp_all add: creations_def)

lemma ensure_api_served_found:
  fixes c :: "'w appsync"
  assumes "pages_served c None w (qs @ [(resp, w1)])"
    and "find (\<lambda>api. gapi_name api = name) (page_apis qs) = None"
    and "find (\<lambda>api. gapi_name api = name) (get_list (graphqlApis resp)) = Some api"
  shows "ensure_api (logged c) name role xray (w, [])
      = Some (Inr api, (w1, list_calls None (qs @ [(resp, w1)])))
    \<and> creations (list_calls None (qs @ [(resp, w1)])) = []
    \<and> gapi_name api = name"
proof -
  have "find_api_loop (logged c) name None (w, [])
    = Some (Inr (find (\<lambda>api. gapi_name api = name) (get_list (graphqlApis resp))),
            (w1, [] @ list_calls None (qs @ [(resp, w1)])))"
    using assms(1,2) by (rule find_api_loop_served) (simp add: assms(3))
  then have f: "find_api_by_name (logged c) name (w, [])
    = Some (Inr (Some api), (w1, list_calls None (qs @ [(resp, w1)])))"
    unfolding find_api_by_name_def assms(3) by simp
  have 1: "ensure_api (logged c) name role xray (w, [])
      = Some (Inr api, (w1, list_calls None (qs @ [(resp, w1)])))"
    unfolding ensure_api_def f by simp
  have 2: "creations (list_calls None (qs @ [(resp, w1)])) = []" by (rule creations_list_calls)
  have 3: "gapi_name api = name" using find_Some_holds [OF assms(3)] by simp
  show ?thesis using 1 2 3 by (intro conjI)
qed

lemma ensure_api_served_missing:
  fixes c :: "'w appsync"
  assumes "pages_served c None w (qs @ [(resp, w1)])"
    and "find (\<lambda>api. gapi_name api = name) (page_apis (qs @ [(resp, w1)])) = None"
    and "\<not> truthy (nextToken resp)"
    and "create_graphql_api c (api_kwargs name role xray) w1 = (r, w2)"
  shows "ensure_api (logged c) name role xray (w, [])
      = Some (r, (w2, list_calls None (qs @ [(resp, w1)])
                        @ [CreateGraphqlApi (api_kwargs name role xray)]))
    \<and> creations (list_calls None (qs @ [(resp, w1)])
                        @ [CreateGraphqlApi (api_kwargs name role xray)])
      = [CreateGraphqlApi (api_kwargs name role xray)]"
proof -
  have f: "find (\<lambda>api. gapi_name api = name) (page_apis qs @ get_list (graphqlApis resp)) = None"
    using assms(2) unfolding page_apis_def by simp
  have f0: "find (\<lambda>api. gapi_name api = name) (page_apis qs) = None"
    using f unfolding find_append_cases by (simp split: option.splits)
  have f1: "find (\<lambda>api. gapi_name api = name) (get_list (graphqlApis resp)) = None"
    using f unfolding find_append_cases by (simp split: option.splits)
  have "find_api_loop (logged c) name None (w, [])
    = Some (Inr (find (\<lambda>api. gapi_name api = name) (get_list (graphqlApis resp))),
            (w1, [] @ list_calls None (qs @ [(resp, w1)])))"
    using assms(1) f0 by (rule find_api_loop_served) (rule assms(3))
  then have g: "find_api_by_name (logged c) name (w, [])
    = Some (Inr None, (w1, list_calls None (qs @ [(resp, w1)])))"
    unfolding find_api_by_name_def f1 by simp
  have cr: "create_graphql_api (logged c) (api_kwargs name role xray)
        (w1, list_calls None (qs @ [(resp, w1)]))
      = (r, (w2, list_calls None (qs @ [(resp, w1)])
                   @ [CreateGraphqlApi (api_kwargs name role xray)]))"
    using assms(4) by (simp add: logged_def record_call_def)
  have 1: "ensure_api (logged c) name role xray (w, [])
      = Some (r, (w2, list_calls None (qs @ [(resp, w1)])
                        @ [CreateGraphqlApi (api_kwargs name role xray)]))"
    unfolding ensure_api_def g using cr by simp
  have 2: "creations (list_calls None (qs @ [(resp, w1)])
                        @ [CreateGraphqlApi (api_kwargs name role xray)])
      = [CreateGraphqlApi (api_kwargs name role xray)]"
    using creations_list_calls [of None "qs @ [(resp, w1)]"] by (simp add: creations_def)
  show ?thesis using 1 2 by (intro conjI)
qed

lemma list_data_sources_logged:
  "list_data_sources c a w = (r, w1) \<Longrightarrow>
   list_data_sources (logged c) a (w, l) = (r, (w1, l @ [ListDataSources a]))"
  by (simp add: logged_def record_call_def)

lemma create_data_source_logged:
  "create_data_source c args w = (r, w1) \<Longrightarrow>
   create_data_source (logged c) args (w, l) = (r, (w1, l @ [CreateDataSource args]))"
  by (simp add: logged_def record_call_def)

lemma ensure_ddb_ds_found:
  assumes "list_data_sources c a w = (Inr page, w1)"
    and "find (\<lambda>d. dsrc_name d = name) (get_list (dataSources page)) = Some d"
  shows "ensure_ddb_ds (logged c) a name table_arn role_arn (w, []) = (Inr d, (w1, [ListDataSources a]))"
  using list_data_sources_logged [OF assms(1), of "[]"] assms(2)
  by (simp add: ensure_ddb_ds_def)

lemma ensure_ddb_ds_missing:
  assumes "list_data_sources c a w = (Inr page, w1)"
    and "find (\<lambda>d. dsrc_name d = name) (get_list (dataSources page)) = None"
    and "index (py_split CHR '':'' table_arn) 3 = Inr region"
    and "create_data_source c (ddb_ds_args a name table_arn role_arn region) w1 = (r, w2)"
  shows "ensure_ddb_ds (logged c) a name table_arn role_arn (w, [])
      = (r, (w2, [ListDataSources a, CreateDataSource (ddb_ds_args a name table_arn role_arn region)]))"
  using list_data_sources_logged [OF assms(1), of "[]"] assms(2,3)
    create_data_source_logged [OF assms(4), of "[ListDataSources a]"]
  by (simp add: ensure_ddb_ds_def)

lemma ensure_none_ds_found:
  assumes "list_data_sources c a w = (Inr page, w1)"
    and "find (\<lambda>d. dsrc_name d = name) (get_list (dataSources page)) = Some d"
  shows "ensure_none_ds (logged c) a name (w, []) = (Inr d, (w1, [ListDataSources a]))"
  using list_data_sources_logged [OF assms(1), of "[]"] assms(2)
  by (simp add: ensure_none_ds_def)

lemma ensure_none_ds_missing:
  assumes "list_data_sources c a w = (Inr page, w1)"
    and "find (\<lambda>d. dsrc_name d = name) (get_list (dataSources page)) = None"
    and "create_data_source c (none_ds_args a name) w1 = (r, w2)"
  shows "ensure_none_ds (logged c) a name (w, [])
      = (r, (w2, [ListDataSources a, CreateDataSource (none_ds_args a name)]))"
  using list_data_sources_logged [OF assms(1), of "[]"] assms(2)
    create_data_source_logged [OF assms(3), of "[ListDataSources a]"]
  by (simp add: ensure_none_ds_def)

lemma ensure_sns_ds_found:
  assumes "list_data_sources c a w = (Inr page, w1)"
    and "find (\<lambda>d. dsrc_name d = name) (get_list (dataSources page)) = Some d"
  shows "ensure_sns_ds (logged c) a name topic_arn role_arn (w, []) = (Inr d, (w1, [ListDataSources a]))"
  using list_data_sources_logged [OF assms(1), of "[]"] assms(2)
  by (simp add: ensure_sns_ds_def)

lemma ensure_sns_ds_missing:
  assumes "list_data_sources c a w = (Inr page, w1)"
    and "find (\<lambda>d. dsrc_name d = name) (get_list (dataSources page)) = None"
    and "index (py_split CHR '':'' topic_arn) 3 = Inr region"
    and "create_data_source c (sns_ds_args a name role_arn region) w1 = (r, w2)"
  shows "ensure_sns_ds (logged c) a name topic_arn role_arn (w, [])
      = (r, (w2, [ListDataSources a, CreateDataSource (sns_ds_args a name role_arn region)]))"
  using list_data_sources_logged [OF assms(1), of "[]"] assms(2,3)
    create_data_source_logged [OF assms(4), of "[ListDataSources a]"]
  by (simp add: ensure_sns_ds_def)

lemma ensure_table_found:
  assumes "describe_table ddb n w = (Inr t, w1)"
  shows "ensure_table (logged_ddb ddb) n key (w, []) = (Inr t, (w1, [DescribeTable n]))"
  using assms by (simp add: ensure_table_def logged_ddb_def record_call_def)

lemma ensure_table_missing:
  assumes "describe_table ddb n w = (Inl e, w1)"
    and "exn_class e = ResourceNotFoundException"
    and "create_table ddb (table_args n key) w1 = (Inr t, w2)"
    and "wait_table_exists ddb n w2 = (Inr u, w3)"
    and "describe_table ddb n w3 = (r, w4)"
  shows "ensure_table (logged_ddb ddb) n key (w, [])
      = (r, (w4, [DescribeTable n, CreateTable (table_args n key), WaitTableExists n, DescribeTable n]))"
  using assms by (simp add: ensure_table_def logged_ddb_def record_call_def)

section \<open>Claims about the naming utility\<close>

text \<open>
  C4, as amended. For every input the result of \<open>sanitize_name\<close> consists of lower-case
  ASCII letters, digits and hyphens only, is not empty, starts with a lower-case ASCII
  letter (so not with a hyphen) and has no two hyphens in a row. It ends with a hyphen
  exactly when nothing of the input survives the cleaning steps; the result is then the
  bare marker \<open>u-\<close>.
\<close>

theorem sanitize_name_shape:
  "list_all name_char (sanitize_name s)
   \<and> sanitize_name s \<noteq> []
   \<and> is_lower_ascii (hd (sanitize_name s))
   \<and> \<not> is_hyphen (hd (sanitize_name s))
   \<and> no_double_hyphen (sanitize_name s)
   \<and> (clean_name s \<noteq> [] \<longrightarrow> \<not> is_hyphen (last (sanitize_name s)))
   \<and> (clean_name s = [] \<longrightarrow> sanitize_name s = ''u-'')"
proof -
  have "clean_name s = [] \<longrightarrow> sanitize_name s = ''u-''"
    by (simp add: sanitize_name_def)
  then show ?thesis
    using sanitize_name_props [of s] sanitize_name_last [of s]
    by (simp add: lower_not_hyphen)
qed

theorem sanitize_name_shape_witness:
  "clean_name ''My Cool API!!'' \<noteq> [] \<and> sanitize_name ''My Cool API!!'' = ''my-cool-api''
   \<and> \<not> is_hyphen (last (sanitize_name ''My Cool API!!''))
   \<and> clean_name ''!!'' = [] \<and> sanitize_name ''!!'' = ''u-''"
proof -
  have a: "clean_name ''My Cool API!!'' \<noteq> []" by code_simp
  have b: "clean_name ''!!'' = []" by code_simp
  have c: "sanitize_name ''My Cool API!!'' = ''my-cool-api''" by code_simp
  show ?thesis
    using a b c sanitize_name_shape [of "''My Cool API!!''"] sanitize_name_shape [of "''!!''"]
    by simp
qed

text \<open>
  C4 as stated fails: the empty name is sanitized to \<open>u-\<close>, which ends with a hyphen.
\<close>

theorem sanitize_name_trailing_hyphen_counterexample:
  "sanitize_name [] = ''u-'' \<and> is_hyphen (last (sanitize_name []))"
  by code_simp

text \<open>
  C5, as amended. \<open>sanitize_name\<close> is idempotent on every input whose result is not the
  bare marker \<open>u-\<close>; on the others (nothing of the input survives the cleaning) the
  second application drops the trailing hyphen and gives \<open>u\<close>.
\<close>

theorem sanitize_name_idempotent:
  "(sanitize_name s \<noteq> ''u-'' \<longrightarrow> sanitize_name (sanitize_name s) = sanitize_name s)
   \<and> (sanitize_name s = ''u-'' \<longrightarrow> sanitize_name (sanitize_name s) = ''u'')"
proof -
  have u: "sanitize_name ''u-'' = ''u''" by code_simp
  have 1: "sanitize_name s \<noteq> ''u-'' \<longrightarrow> sanitize_name (sanitize_name s) = sanitize_name s"
    using sanitize_name_idem [of s] by (simp add: sanitize_name_marker)
  have 2: "sanitize_name s = ''u-'' \<longrightarrow> sanitize_name (sanitize_name s) = ''u''"
    using u by simp
  show ?thesis using 1 2 by (rule conjI)
qed

theorem sanitize_name_idempotent_witness:
  "sanitize_name ''9 Lives'' \<noteq> ''u-''
   \<and> sanitize_name (sanitize_name ''9 Lives'') = sanitize_name ''9 Lives''
   \<and> sanitize_name '' '' = ''u-'' \<and> sanitize_name (sanitize_name '' '') = ''u''"
proof -
  have a: "sanitize_name ''9 Lives'' \<noteq> ''u-''" by code_simp
  have b: "sanitize_name '' '' = ''u-''" by code_simp
  show ?thesis
    using a b sanitize_name_idempotent [of "''9 Lives''"] sanitize_name_idempotent [of "'' ''"]
    by simp
qed

text \<open>C5 as stated fails at the empty name: \<open>u-\<close> is sanitized to \<open>u\<close>.\<close>

theorem sanitize_name_idempotent_counterexample:
  "sanitize_name (sanitize_name []) \<noteq> sanitize_name []"
  by code_simp

text \<open>
  C6, as amended. \<open>build_api_name\<close> returns the pair of the full name and the base it
  used; the full name is \<open>prefix-base-suffix\<close> with prefix and suffix untouched, and the
  base is a non-empty initial segment of the sanitized display name. Whenever the maximum
  leaves room for the prefix, the suffix, the two hyphens and one character of the base,
  the full name is no longer than the maximum. Below that the base is cut to its first
  character and the full name has length \<open>len(prefix) + len(suffix) + 3\<close>, above the
  maximum.
\<close>

theorem build_api_name_bound:
  assumes "build_api_name d suffix prefix max_len = (full, base)"
  shows "full = prefix @ ''-'' @ base @ ''-'' @ suffix
    \<and> base \<noteq> [] \<and> base = take (length base) (sanitize_name d)
    \<and> (int (length prefix) + int (length suffix) + 3 \<le> max_len \<longrightarrow> int (length full) \<le> max_len)
    \<and> (max_len < int (length prefix) + int (length suffix) + 3 \<longrightarrow>
         base = take 1 (sanitize_name d) \<and> int (length full) = int (length prefix) + int (length suffix) + 3)"
proof -
  let ?b = "sanitize_name d"
  have ne: "?b \<noteq> []" by (rule sanitize_name_nonempty)
  then have pos: "0 < length ?b" by simp
  have t1: "length (take 1 ?b) = 1" using ne by (cases ?b) simp_all
  consider (fits) "int (length prefix) + int (length ?b) + int (length suffix) + 2 \<le> max_len"
    | (cut) "max_len < int (length prefix) + int (length ?b) + int (length suffix) + 2"
        "int (length prefix) + int (length suffix) + 3 \<le> max_len"
    | (floor) "max_len < int (length prefix) + int (length suffix) + 3"
    by linarith
  then show ?thesis
  proof cases
    case fits
    have eq: "(full, base) = (prefix @ ''-'' @ ?b @ ''-'' @ suffix, ?b)"
      unfolding assms [symmetric] by (rule build_api_name_fits [OF fits])
    then have b: "base = ?b" and f0: "full = prefix @ ''-'' @ ?b @ ''-'' @ suffix" by simp_all
    have f: "full = prefix @ ''-'' @ base @ ''-'' @ suffix" unfolding b by (rule f0)
    have 1: "base \<noteq> []" using b ne by simp
    have 2: "base = take (length base) ?b" using b by simp
    have lf: "int (length full) = int (length prefix) + int (length ?b) + int (length suffix) + 2"
      unfolding f b by (rule candidate_length)
    have 3: "int (length full) \<le> max_len" using lf fits by simp
    have 4: "\<not> max_len < int (length prefix) + int (length suffix) + 3" using fits pos by linarith
    show ?thesis using f 1 2 3 4 by blast
  next
    case cut
    define k where "k = nat (max_len - int (length prefix) - int (length suffix) - 2)"
    have k: "0 < k" "k < length ?b" using cut unfolding k_def by linarith+
    have eq: "(full, base) = (prefix @ ''-'' @ take k ?b @ ''-'' @ suffix, take k ?b)"
      unfolding assms [symmetric] by (rule build_api_name_cut [OF cut k_def])
    then have b: "base = take k ?b" and f0: "full = prefix @ ''-'' @ take k ?b @ ''-'' @ suffix" by simp_all
    have f: "full = prefix @ ''-'' @ base @ ''-'' @ suffix" unfolding b by (rule f0)
    have lb: "length base = k" using b k by simp
    have 1: "base \<noteq> []" using lb k by auto
    have 2: "base = take (length base) ?b" using b lb by simp
    have lf: "int (length full) = int (length prefix) + int (length base) + int (length suffix) + 2"
      unfolding f by (rule candidate_length)
    have 3: "int (length full) \<le> max_len" using lf lb cut(2) unfolding k_def by linarith
    have 4: "\<not> max_len < int (length prefix) + int (length suffix) + 3" using cut(2) by linarith
    show ?thesis using f 1 2 3 4 by blast
  next
    case floor
    have eq: "(full, base) = (prefix @ ''-'' @ take 1 ?b @ ''-'' @ suffix, take 1 ?b)"
      unfolding assms [symmetric] by (rule build_api_name_floor [OF floor])
    then have b: "base = take 1 ?b" and f0: "full = prefix @ ''-'' @ take 1 ?b @ ''-'' @ suffix" by simp_all
    have f: "full = prefix @ ''-'' @ base @ ''-'' @ suffix" unfolding b by (rule f0)
    have lb: "length base = 1" using b t1 by simp
    have 1: "base \<noteq> []" using lb by auto
    have 2: "base = take (length base) ?b" using b lb by simp
    have lf: "int (length full) = int (length prefix) + int (length base) + int (length suffix) + 2"
      unfolding f by (rule candidate_length)
    have 3: "int (length full) = int (length prefix) + int (length suffix) + 3" using lf lb by simp
    have 4: "\<not> int (length prefix) + int (length suffix) + 3 \<le> max_len" using floor by linarith
    show ?thesis using f 1 2 3 4 b by blast
  qed
qed

theorem build_api_name_bound_witness:
  "build_api_name ''My Cool API'' ''0315'' ''ghc25'' 20 = (''ghc25-my-cool-a-0315'', ''my-cool-a'')
   \<and> int (length ''ghc25'') + int (length ''0315'') + 3 \<le> 20
   \<and> int (length ''ghc25-my-cool-a-0315'') \<le> 20
   \<and> build_api_name ''a'' ''0315'' ''ghc25'' 5 = (''ghc25-a-0315'', ''a'')
   \<and> (5::int) < int (length ''ghc25'') + int (length ''0315'') + 3
   \<and> int (length ''ghc25-a-0315'') = int (length ''ghc25'') + int (length ''0315'') + 3"
proof -
  have a: "build_api_name ''My Cool API'' ''0315'' ''ghc25'' 20 = (''ghc25-my-cool-a-0315'', ''my-cool-a'')"
    by code_simp
  have b: "build_api_name ''a'' ''0315'' ''ghc25'' 5 = (''ghc25-a-0315'', ''a'')"
    by code_simp
  have c: "int (length ''ghc25'') + int (length ''0315'') + 3 \<le> 20" by simp
  have d: "(5::int) < int (length ''ghc25'') + int (length ''0315'') + 3" by simp
  show ?thesis
    using a b c d build_api_name_bound [OF a] build_api_name_bound [OF b] by blast
qed

text \<open>
  C6 as stated fails: with the maximum 5 the name built from \<open>a\<close>, \<open>0315\<close> and
  \<open>ghc25\<close> has 12 characters.
\<close>

theorem build_api_name_bound_counterexample:
  "build_api_name ''a'' ''0315'' ''ghc25'' 5 = (''ghc25-a-0315'', ''a'')
   \<and> \<not> int (length (fst (build_api_name ''a'' ''0315'' ''ghc25'' 5))) \<le> 5"
proof -
  have b: "build_api_name ''a'' ''0315'' ''ghc25'' 5 = (''ghc25-a-0315'', ''a'')"
    by code_simp
  show ?thesis unfolding b by simp
qed

text \<open>
  C7, as amended. \<open>validate_identifiers\<close> raises exactly when the first argument is
  empty or the placeholder \<open>NAME\<close>, or the second is empty or the placeholder
  \<open>MMDD\<close>; what it raises is a \<open>ValueError\<close>, and for every other pair it returns
  normally.
\<close>

theorem validate_identifiers_raises:
  "((\<exists>e. validate_identifiers first_name_prefix birth_mmdd = Inl e)
     \<longleftrightarrow> (first_name_prefix = [] \<or> first_name_prefix = ''NAME''
          \<or> birth_mmdd = [] \<or> birth_mmdd = ''MMDD''))
   \<and> (validate_identifiers first_name_prefix birth_mmdd = Inr ()
     \<longleftrightarrow> \<not> (first_name_prefix = [] \<or> first_name_prefix = ''NAME''
          \<or> birth_mmdd = [] \<or> birth_mmdd = ''MMDD''))
   \<and> (\<forall>e. validate_identifiers first_name_prefix birth_mmdd = Inl e \<longrightarrow> exn_class e = ValueError)"
  by (auto simp: validate_identifiers_def)

theorem validate_identifiers_raises_witness:
  "validate_identifiers ''anna'' ''0315'' = Inr ()
   \<and> (\<exists>e. validate_identifiers [] ''0315'' = Inl e)
   \<and> (\<exists>e. validate_identifiers ''anna'' ''MMDD'' = Inl e)"
proof -
  have 1: "\<not> (''anna'' = [] \<or> ''anna'' = ''NAME'' \<or> ''0315'' = [] \<or> ''0315'' = ''MMDD'')"
    by simp
  have 2: "([]::string) = [] \<or> [] = ''NAME'' \<or> ''0315'' = [] \<or> ''0315'' = ''MMDD''"
    by simp
  have 3: "''anna'' = [] \<or> ''anna'' = ''NAME'' \<or> ''MMDD'' = [] \<or> ''MMDD'' = ''MMDD''"
    by simp
  have a: "validate_identifiers ''anna'' ''0315'' = Inr ()"
    by (rule iffD2 [OF validate_identifiers_raises [of "''anna''" "''0315''", THEN conjunct2, THEN conjunct1] 1])
  have b: "\<exists>e. validate_identifiers [] ''0315'' = Inl e"
    by (rule iffD2 [OF validate_identifiers_raises [of "[]" "''0315''", THEN conjunct1] 2])
  have c: "\<exists>e. validate_identifiers ''anna'' ''MMDD'' = Inl e"
    by (rule iffD2 [OF validate_identifiers_raises [of "''anna''" "''MMDD''", THEN conjunct1] 3])
  show ?thesis using a b c by (intro conjI)
qed

text \<open>
  C7 as stated fails: an empty first argument is no placeholder, and the call raises.
\<close>

theorem validate_identifiers_empty_counterexample:
  "[] \<noteq> ''NAME'' \<and> ''0315'' \<noteq> ''MMDD'' \<and> isl (validate_identifiers [] ''0315'')"
  by (simp add: validate_identifiers_def)

section \<open>Claims about the provisioning helpers\<close>

text \<open>
  C8. \<open>upsert_js_resolver\<close>, \<open>create_pipeline_resolver\<close> and \<open>create_function\<close>
  first issue the update call. When it succeeds, or fails with anything but the
  not-found signal, no further call is issued and its outcome, the fault included, is
  the outcome of the helper. When it fails with the not-found signal, the create call is
  issued next and its outcome, the fault included, is the outcome of the helper.
\<close>

theorem update_then_create:
  fixes c :: "'w appsync"
  shows
  "(update_resolver c (js_resolver_args a t f d j) w = (ru, w1) \<longrightarrow>
      (\<forall>e. ru = Inl e \<longrightarrow> exn_class e \<noteq> NotFoundException) \<longrightarrow>
      upsert_js_resolver (logged c) a t f d j (w, [])
        = (ru, (w1, [UpdateResolver (js_resolver_args a t f d j)])))
   \<and> (update_resolver c (js_resolver_args a t f d j) w = (Inl e, w1) \<longrightarrow>
      exn_class e = NotFoundException \<longrightarrow>
      create_resolver c (js_resolver_args a t f d j) w1 = (rc, w2) \<longrightarrow>
      upsert_js_resolver (logged c) a t f d j (w, [])
        = (rc, (w2, [UpdateResolver (js_resolver_args a t f d j),
                     CreateResolver (js_resolver_args a t f d j)])))
   \<and> (update_resolver c (pipeline_resolver_args a t f fs) w = (ru, w1) \<longrightarrow>
      (\<forall>e. ru = Inl e \<longrightarrow> exn_class e \<noteq> NotFoundException) \<longrightarrow>
      create_pipeline_resolver (logged c) a t f fs (w, [])
        = (ru, (w1, [UpdateResolver (pipeline_resolver_args a t f fs)])))
   \<and> (update_resolver c (pipeline_resolver_args a t f fs) w = (Inl e, w1) \<longrightarrow>
      exn_class e = NotFoundException \<longrightarrow>
      create_resolver c (pipeline_resolver_args a t f fs) w1 = (rc, w2) \<longrightarrow>
      create_pipeline_resolver (logged c) a t f fs (w, [])
        = (rc, (w2, [UpdateResolver (pipeline_resolver_args a t f fs),
                     CreateResolver (pipeline_resolver_args a t f fs)])))
   \<and> (update_function c (function_update_args a n d j) w = (rf, w1) \<longrightarrow>
      (\<forall>e. rf = Inl e \<longrightarrow> exn_class e \<noteq> NotFoundException) \<longrightarrow>
      create_function (logged c) a n d j (w, [])
        = (rf, (w1, [UpdateFunction (function_update_args a n d j)])))
   \<and> (update_function c (function_update_args a n d j) w = (Inl e, w1) \<longrightarrow>
      exn_class e = NotFoundException \<longrightarrow>
      create_function_op c (function_create_args a n d j) w1 = (rg, w2) \<longrightarrow>
      create_function (logged c) a n d j (w, [])
        = (rg, (w2, [UpdateFunction (function_update_args a n d j),
                     CreateFunction (function_create_args a n d j)])))"
proof (intro conjI impI)
  assume "update_resolver c (js_resolver_args a t f d j) w = (ru, w1)"
    and "\<forall>e. ru = Inl e \<longrightarrow> exn_class e \<noteq> NotFoundException"
  then show "upsert_js_resolver (logged c) a t f d j (w, [])
        = (ru, (w1, [UpdateResolver (js_resolver_args a t f d j)]))"
    by (cases ru) (simp_all add: upsert_js_resolver_updated upsert_js_resolver_fault)
next
  assume "update_resolver c (js_resolver_args a t f d j) w = (Inl e, w1)"
    and "exn_class e = NotFoundException"
    and "create_resolver c (js_resolver_args a t f d j) w1 = (rc, w2)"
  then show "upsert_js_resolver (logged c) a t f d j (w, [])
        = (rc, (w2, [UpdateResolver (js_resolver_args a t f d j),
                     CreateResolver (js_resolver_args a t f d j)]))"
    by (rule upsert_js_resolver_created)
next
  assume "update_resolver c (pipeline_resolver_args a t f fs) w = (ru, w1)"
    and "\<forall>e. ru = Inl e \<longrightarrow> exn_class e \<noteq> NotFoundException"
  then show "create_pipeline_resolver (logged c) a t f fs (w, [])
        = (ru, (w1, [UpdateResolver (pipeline_resolver_args a t f fs)]))"
    by (cases ru) (simp_all add: create_pipeline_resolver_updated create_pipeline_resolver_fault)
next
  assume "update_resolver c (pipeline_resolver_args a t f fs) w = (Inl e, w1)"
    and "exn_class e = NotFoundException"
    and "create_resolver c (pipeline_resolver_args a t f fs) w1 = (rc, w2)"
  then show "create_pipeline_resolver (logged c) a t f fs (w, [])
        = (rc, (w2, [UpdateResolver (pipeline_resolver_args a t f fs),
                     CreateResolver (pipeline_resolver_args a t f fs)]))"
    by (rule create_pipeline_resolver_created)
next
  assume "update_function c (function_update_args a n d j) w = (rf, w1)"
    and "\<forall>e. rf = Inl e \<longrightarrow> exn_class e \<noteq> NotFoundException"
  then show "create_function (logged c) a n d j (w, [])
        = (rf, (w1, [UpdateFunction (function_update_args a n d j)]))"
    by (cases rf) (simp_all add: create_function_updated create_function_fault)
next
  assume "update_function c (function_update_args a n d j) w = (Inl e, w1)"
    and "exn_class e = NotFoundException"
    and "create_function_op c (function_create_args a n d j) w1 = (rg, w2)"
  then show "create_function (logged c) a n d j (w, [])
        = (rg, (w2, [UpdateFunction (function_update_args a n d j),
                     CreateFunction (function_create_args a n d j)]))"
    by (rule create_function_created)
qed

theorem update_then_create_witness:
  "upsert_js_resolver (logged resolver_service) ''api'' ''Query'' ''cost'' ''CostDS'' ''js'' (False, [])
     = (Inr (), (True, [UpdateResolver (js_resolver_args ''api'' ''Query'' ''cost'' ''CostDS'' ''js''),
                        CreateResolver (js_resolver_args ''api'' ''Query'' ''cost'' ''CostDS'' ''js'')]))
   \<and> upsert_js_resolver (logged resolver_service) ''api'' ''Query'' ''cost'' ''CostDS'' ''js'' (True, [])
     = (Inr (), (True, [UpdateResolver (js_resolver_args ''api'' ''Query'' ''cost'' ''CostDS'' ''js'')]))
   \<and> create_pipeline_resolver (logged no_appsync) ''api'' ''Mutation'' ''putCost'' [''fn-1''] ((), [])
     = (Inl unavailable, ((), [UpdateResolver (pipeline_resolver_args ''api'' ''Mutation'' ''putCost'' [''fn-1''])]))
   \<and> create_pipeline_resolver (logged resolver_service) ''api'' ''Mutation'' ''putCost'' [''fn-1''] (False, [])
     = (Inr (), (True, [UpdateResolver (pipeline_resolver_args ''api'' ''Mutation'' ''putCost'' [''fn-1'']),
                        CreateResolver (pipeline_resolver_args ''api'' ''Mutation'' ''putCost'' [''fn-1''])]))
   \<and> create_function (logged resolver_service) ''api'' ''putCost'' ''CostDS'' ''js'' (True, [])
     = (Inr \<lparr>fc_functionId = ''putCost'', fc_name = ''putCost'', fc_fields = []\<rparr>,
        (True, [UpdateFunction (function_update_args ''api'' ''putCost'' ''CostDS'' ''js'')]))
   \<and> create_function (logged resolver_service) ''api'' ''putCost'' ''CostDS'' ''js'' (False, [])
     = (Inr \<lparr>fc_functionId = ''fn-1'', fc_name = ''putCost'', fc_fields = []\<rparr>,
        (True, [UpdateFunction (function_update_args ''api'' ''putCost'' ''CostDS'' ''js''),
                CreateFunction (function_create_args ''api'' ''putCost'' ''CostDS'' ''js'')]))"
proof -
  let ?nf = "Exn NotFoundException ''No resolver found''"
  let ?fnf = "Exn NotFoundException ''Function not found''"
  note rs = resolver_service_def no_appsync_def
  note t = update_then_create [where a = "''api''"]
  have 1: "upsert_js_resolver (logged resolver_service) ''api'' ''Query'' ''cost'' ''CostDS'' ''js'' (False, [])
     = (Inr (), (True, [UpdateResolver (js_resolver_args ''api'' ''Query'' ''cost'' ''CostDS'' ''js''),
                        CreateResolver (js_resolver_args ''api'' ''Query'' ''cost'' ''CostDS'' ''js'')]))"
    using t [where c = resolver_service and w = False and e = ?nf and ?w1.0 = False
        and rc = "Inr ()" and ?w2.0 = True and t = "''Query''" and f = "''cost''" and d = "''CostDS''" and j = "''js''",
        THEN conjunct2, THEN conjunct1]
    by (simp add: rs)
  have 2: "upsert_js_resolver (logged resolver_service) ''api'' ''Query'' ''cost'' ''CostDS'' ''js'' (True, [])
     = (Inr (), (True, [UpdateResolver (js_resolver_args ''api'' ''Query'' ''cost'' ''CostDS'' ''js'')]))"
    using t [where c = resolver_service and w = True and ru = "Inr ()" and ?w1.0 = True
        and t = "''Query''" and f = "''cost''" and d = "''CostDS''" and j = "''js''",
        THEN conjunct1]
    by (simp add: rs)
  have 3: "create_pipeline_resolver (logged no_appsync) ''api'' ''Mutation'' ''putCost'' [''fn-1''] ((), [])
     = (Inl unavailable, ((), [UpdateResolver (pipeline_resolver_args ''api'' ''Mutation'' ''putCost'' [''fn-1''])]))"
    using t [where c = "no_appsync :: unit appsync" and w = "()" and ru = "Inl unavailable" and ?w1.0 = "()"
        and t = "''Mutation''" and f = "''putCost''" and fs = "[''fn-1'']",
        THEN conjunct2, THEN conjunct2, THEN conjunct1]
    by (simp add: rs unavailable_def)
  have 4: "create_pipeline_resolver (logged resolver_service) ''api'' ''Mutation'' ''putCost'' [''fn-1''] (False, [])
     = (Inr (), (True, [UpdateResolver (pipeline_resolver_args ''api'' ''Mutation'' ''putCost'' [''fn-1'']),
                        CreateResolver (pipeline_resolver_args ''api'' ''Mutation'' ''putCost'' [''fn-1''])]))"
    using t [where c = resolver_service and w = False and e = ?nf and ?w1.0 = False
        and rc = "Inr ()" and ?w2.0 = True and t = "''Mutation''" and f = "''putCost''" and fs = "[''fn-1'']",
        THEN conjunct2, THEN conjunct2, THEN conjunct2, THEN conjunct1]
    by (simp add: rs)
  have 5: "create_function (logged resolver_service) ''api'' ''putCost'' ''CostDS'' ''js'' (True, [])
     = (Inr \<lparr>fc_functionId = ''putCost'', fc_name = ''putCost'', fc_fields = []\<rparr>,
        (True, [UpdateFunction (function_update_args ''api'' ''putCost'' ''CostDS'' ''js'')]))"
    using t [where c = resolver_service and w = True and ?w1.0 = True
        and rf = "Inr \<lparr>fc_functionId = ''putCost'', fc_name = ''putCost'', fc_fields = []\<rparr>"
        and n = "''putCost''" and d = "''CostDS''" and j = "''js''",
        THEN conjunct2, THEN conjunct2, THEN conjunct2, THEN conjunct2, THEN conjunct1]
    by (simp add: rs function_update_args_def)
  have 6: "create_function (logged resolver_service) ''api'' ''putCost'' ''CostDS'' ''js'' (False, [])
     = (Inr \<lparr>fc_functionId = ''fn-1'', fc_name = ''putCost'', fc_fields = []\<rparr>,
        (True, [UpdateFunction (function_update_args ''api'' ''putCost'' ''CostDS'' ''js''),
                CreateFunction (function_create_args ''api'' ''putCost'' ''CostDS'' ''js'')]))"
    using t [where c = resolver_service and w = False and e = ?fnf and ?w1.0 = False and ?w2.0 = True
        and rg = "Inr \<lparr>fc_functionId = ''fn-1'', fc_name = ''putCost'', fc_fields = []\<rparr>"
        and n = "''putCost''" and d = "''CostDS''" and j = "''js''",
        THEN conjunct2, THEN conjunct2, THEN conjunct2, THEN conjunct2, THEN conjunct2]
    by (simp add: rs function_update_args_def function_create_args_def)
  show ?thesis using 1 2 3 4 5 6 by (intro conjI)
qed

text \<open>
  C9. \<open>ensure_api_key\<close> treats every \<open>days\<close> below 1 as 1. For an \<open>int\<close> or a finite
  \<open>float\<close> number of days within the ranges of \<open>timedelta\<close> and \<open>datetime\<close> it issues one
  \<open>create_api_key\<close> call, whose expiry is \<open>int(timestamp())\<close> of the current time plus the
  \<open>timedelta\<close> of the days and two minutes, and returns the id and the expiry of the key
  that the call gives (or the fault of the call). The \<open>timedelta\<close> is the days plus
  120 seconds: exactly for an \<open>int\<close> and for a whole \<open>float\<close>, and to the microsecond above
  or below for a \<open>float\<close> with a fraction. The expiry is the whole seconds of the sum, or
  one second more: the whole seconds exactly while they are below \<open>2 ^ 34\<close> (the year 2514),
  where \<open>timestamp()\<close> is an exact \<open>float\<close>.
\<close>

theorem ensure_api_key_expiry:
  fixes c :: "'w appsync"
  shows
  "(less_than_one days \<longrightarrow>
        ensure_api_key c sys api_id days w = ensure_api_key c sys api_id (PyInt 1) w)
   \<and> (\<not> less_than_one days \<longrightarrow> timedelta_us days = Inr d \<longrightarrow>
        d div us_per_day \<le> 999999999 \<longrightarrow> now_us sys w + d \<le> datetime_max_us \<longrightarrow>
        create_api_key c api_id ''workshop'' (timestamp_seconds (now_us sys w + d)) w = (r, w1) \<longrightarrow>
        ensure_api_key (logged c) (logged_sys sys) api_id days (w, [])
          = ((case r of Inl e \<Rightarrow> Inl e | Inr key \<Rightarrow> Inr (key_id key, key_expires key)),
             (w1, [CreateApiKey api_id ''workshop'' (timestamp_seconds (now_us sys w + d))])))
   \<and> timedelta_us (PyInt n) = Inr (n * 86400000000 + 120000000)
   \<and> (0 \<le> e \<longrightarrow>
        timedelta_us (PyFloat m e) = Inr (m * 2 ^ nat e * 86400000000 + 120000000))
   \<and> (0 < m \<longrightarrow> e < 0 \<longrightarrow>
        (\<exists>x. timedelta_us (PyFloat m e) = Inr x
           \<and> (m * 86400000000) div 2 ^ nat (- e) + 120000000 \<le> x
           \<and> x \<le> (m * 86400000000) div 2 ^ nat (- e) + 120000001))
   \<and> (1000000 \<le> t \<longrightarrow> t \<le> datetime_max_us \<longrightarrow>
        t div 1000000 \<le> timestamp_seconds t \<and> timestamp_seconds t \<le> t div 1000000 + 1)
   \<and> (1000000 \<le> t \<longrightarrow> t div 1000000 < 2 ^ 34 \<longrightarrow> timestamp_seconds t = t div 1000000)
   \<and> (1 \<le> n \<longrightarrow> 0 \<le> now_us sys w \<longrightarrow> now_us sys w div 1000000 + n * 86400 + 120 < 2 ^ 34 \<longrightarrow>
        timestamp_seconds (now_us sys w + (n * 86400000000 + 120000000))
          = now_us sys w div 1000000 + n * 86400 + 120)"
proof (intro conjI impI)
  assume "less_than_one days"
  then show "ensure_api_key c sys api_id days w = ensure_api_key c sys api_id (PyInt 1) w"
    by (rule ensure_api_key_clamp)
next
  assume "\<not> less_than_one days" "timedelta_us days = Inr d"
    "d div us_per_day \<le> 999999999" "now_us sys w + d \<le> datetime_max_us"
    "create_api_key c api_id ''workshop'' (timestamp_seconds (now_us sys w + d)) w = (r, w1)"
  then show "ensure_api_key (logged c) (logged_sys sys) api_id days (w, [])
          = ((case r of Inl e \<Rightarrow> Inl e | Inr key \<Rightarrow> Inr (key_id key, key_expires key)),
             (w1, [CreateApiKey api_id ''workshop'' (timestamp_seconds (now_us sys w + d))]))"
    by (rule ensure_api_key_call)
next
  show "timedelta_us (PyInt n) = Inr (n * 86400000000 + 120000000)"
    by (rule timedelta_us_int)
next
  assume "0 \<le> e"
  then show "timedelta_us (PyFloat m e) = Inr (m * 2 ^ nat e * 86400000000 + 120000000)"
    by (rule timedelta_us_float_whole)
next
  assume "0 < m" "e < 0"
  then show "\<exists>x. timedelta_us (PyFloat m e) = Inr x
           \<and> (m * 86400000000) div 2 ^ nat (- e) + 120000000 \<le> x
           \<and> x \<le> (m * 86400000000) div 2 ^ nat (- e) + 120000001"
    by (rule timedelta_us_float)
next
  assume a: "1000000 \<le> t" and b: "t \<le> datetime_max_us"
  have c: "t div 1000000 < 2 ^ 53" using b unfolding datetime_max_us_def by simp
  show "t div 1000000 \<le> timestamp_seconds t" using a c by (rule timestamp_seconds_near)
next
  assume a: "1000000 \<le> t" and b: "t \<le> datetime_max_us"
  have c: "t div 1000000 < 2 ^ 53" using b unfolding datetime_max_us_def by simp
  show "timestamp_seconds t \<le> t div 1000000 + 1" using a c by (rule timestamp_seconds_near)
next
  assume "1000000 \<le> t" "t div 1000000 < 2 ^ 34"
  then show "timestamp_seconds t = t div 1000000" by (rule timestamp_seconds_exact)
next
  assume n: "1 \<le> n" and p: "0 \<le> now_us sys w"
    and b: "now_us sys w div 1000000 + n * 86400 + 120 < 2 ^ 34"
  let ?t = "now_us sys w + (n * 86400000000 + 120000000)"
  have e: "?t = now_us sys w + (n * 86400 + 120) * 1000000" by simp
  have d: "?t div 1000000 = now_us sys w div 1000000 + n * 86400 + 120"
    unfolding e by simp
  have g: "1000000 \<le> ?t" using n p by simp
  have "timestamp_seconds ?t = ?t div 1000000"
    using g b unfolding d [symmetric] by (rule timestamp_seconds_exact)
  then show "timestamp_seconds ?t = now_us sys w div 1000000 + n * 86400 + 120"
    unfolding d .
qed

theorem ensure_api_key_expiry_witness:
  "ensure_api_key key_service (clock_at 1700000000500000) ''api'' (PyInt 0) ()
     = ensure_api_key key_service (clock_at 1700000000500000) ''api'' (PyInt 1) ()
   \<and> ensure_api_key (logged key_service) (logged_sys (clock_at 1700000000500000)) ''api''
        (PyInt 1) ((), [])
     = (Inr (''da2-key'', 1700086520), ((), [CreateApiKey ''api'' ''workshop'' 1700086520]))
   \<and> ensure_api_key (logged key_service) (logged_sys (clock_at 1700000000999999)) ''api''
        (PyInt 200000) ((), [])
     = (Inr (''da2-key'', 18980000121), ((), [CreateApiKey ''api'' ''workshop'' 18980000121]))
   \<and> ensure_api_key (logged key_service) (logged_sys (clock_at 1700000000500000)) ''api''
        (PyFloat 6755399441055744 (- 52)) ((), [])
     = (Inr (''da2-key'', 1700129720), ((), [CreateApiKey ''api'' ''workshop'' 1700129720]))
   \<and> timedelta_us (PyInt 200000) = Inr 17280000120000000
   \<and> timedelta_us (PyFloat 3 (- 1)) = Inr 129720000000
   \<and> timedelta_us (PyFloat 3 1) = Inr 518520000000
   \<and> 18980000120 \<le> timestamp_seconds 18980000120999999
   \<and> timestamp_seconds 18980000120999999 \<le> 18980000121
   \<and> timestamp_seconds 1700086520500000 = 1700086520"
proof -
  let ?c = "key_service :: unit appsync"
  let ?k = "\<lambda>e. Inr \<lparr>key_id = ''da2-key'', key_expires = e\<rparr> :: exn + api_key"
  note t = ensure_api_key_expiry [where c = ?c and api_id = "''api''" and w = "()"]
  have 1: "ensure_api_key ?c (clock_at 1700000000500000) ''api'' (PyInt 0) ()
     = ensure_api_key ?c (clock_at 1700000000500000) ''api'' (PyInt 1) ()"
  proof (rule t [where days = "PyInt 0" and sys = "clock_at 1700000000500000",
        THEN conjunct1, THEN mp])
    show "less_than_one (PyInt 0)" by (simp add: less_than_one_def)
  qed
  have d1: "timedelta_us (PyInt 1) = Inr 86520000000" by code_simp
  have d2: "timedelta_us (PyInt 200000) = Inr 17280000120000000" by code_simp
  have d3: "timedelta_us (PyFloat 6755399441055744 (- 52)) = Inr 129720000000" by code_simp
  have s1: "timestamp_seconds (1700000000500000 + 86520000000) = 1700086520" by code_simp
  have s2: "timestamp_seconds (1700000000999999 + 17280000120000000) = 18980000121" by code_simp
  have s3: "timestamp_seconds (1700000000500000 + 129720000000) = 1700129720" by code_simp
  have 2: "ensure_api_key (logged ?c) (logged_sys (clock_at 1700000000500000)) ''api''
        (PyInt 1) ((), [])
     = (Inr (''da2-key'', 1700086520), ((), [CreateApiKey ''api'' ''workshop'' 1700086520]))"
    using t [where days = "PyInt 1" and sys = "clock_at 1700000000500000" and d = 86520000000
        and r = "?k 1700086520" and ?w1.0 = "()", THEN conjunct2, THEN conjunct1] d1
    unfolding clock_now s1 key_service_create
    by (simp add: less_than_one_def us_per_day_def datetime_max_us_def)
  have 3: "ensure_api_key (logged ?c) (logged_sys (clock_at 1700000000999999)) ''api''
        (PyInt 200000) ((), [])
     = (Inr (''da2-key'', 18980000121), ((), [CreateApiKey ''api'' ''workshop'' 18980000121]))"
    using t [where days = "PyInt 200000" and sys = "clock_at 1700000000999999"
        and d = 17280000120000000 and r = "?k 18980000121" and ?w1.0 = "()",
        THEN conjunct2, THEN conjunct1] d2
    unfolding clock_now s2 key_service_create
    by (simp add: less_than_one_def us_per_day_def datetime_max_us_def)
  have 4: "ensure_api_key (logged ?c) (logged_sys (clock_at 1700000000500000)) ''api''
        (PyFloat 6755399441055744 (- 52)) ((), [])
     = (Inr (''da2-key'', 1700129720), ((), [CreateApiKey ''api'' ''workshop'' 1700129720]))"
    using t [where days = "PyFloat 6755399441055744 (- 52)" and sys = "clock_at 1700000000500000"
        and d = 129720000000 and r = "?k 1700129720" and ?w1.0 = "()",
        THEN conjunct2, THEN conjunct1] d3
    unfolding clock_now s3 key_service_create
    by (simp add: less_than_one_def us_per_day_def datetime_max_us_def)
  have 5: "timedelta_us (PyInt 200000) = Inr 17280000120000000"
    using t [where n = 200000, THEN conjunct2, THEN conjunct2, THEN conjunct1] by simp
  have "\<exists>x. timedelta_us (PyFloat 3 (- 1)) = Inr x \<and> 129720000000 \<le> x \<and> x \<le> 129720000001"
    using t [where m = 3 and e = "- 1", THEN conjunct2, THEN conjunct2, THEN conjunct2,
        THEN conjunct2, THEN conjunct1] by simp
  moreover have "timedelta_us (PyFloat 3 (- 1)) = Inr 129720000000" by code_simp
  ultimately have 6: "timedelta_us (PyFloat 3 (- 1)) = Inr 129720000000" by simp
  have 7: "timedelta_us (PyFloat 3 1) = Inr 518520000000"
    using t [where m = 3 and e = 1, THEN conjunct2, THEN conjunct2, THEN conjunct2,
        THEN conjunct1] by simp
  have 8: "18980000120 \<le> timestamp_seconds 18980000120999999
      \<and> timestamp_seconds 18980000120999999 \<le> 18980000121"
    using t [where t = 18980000120999999, THEN conjunct2, THEN conjunct2, THEN conjunct2,
        THEN conjunct2, THEN conjunct2, THEN conjunct1]
    by (simp add: datetime_max_us_def)
  have 9: "timestamp_seconds 1700086520500000 = 1700086520"
    using t [where t = 1700086520500000, THEN conjunct2, THEN conjunct2, THEN conjunct2,
        THEN conjunct2, THEN conjunct2, THEN conjunct2, THEN conjunct1]
    by simp
  show ?thesis using 1 2 3 4 5 6 7 8 9 by (intro conjI) simp_all
qed

text \<open>
  C3, as amended. After the schema document is read and the creation is started,
  \<open>upload_schema\<close> polls the status at most 30 times and sleeps two seconds after every
  poll that finds a status other than \<open>SUCCESS\<close>, \<open>FAILED\<close> and \<open>NOT_APPLICABLE\<close>.
  It raises exactly when the first poll that does not find such a pending status is
  among the 30 and either raises itself or finds \<open>FAILED\<close> or \<open>NOT_APPLICABLE\<close>; the
  loop ends with that poll, whose fault is passed on and whose status \<open>SUCCESS\<close> makes
  the helper return. In particular \<open>NOT_APPLICABLE\<close> raises a \<open>RuntimeError\<close>.
\<close>

theorem upload_schema_raises:
  fixes c :: "'w appsync"
  shows
  "read_bytes sys p w = Inr data \<longrightarrow> start_schema_creation c a data w = (Inr u, w0) \<longrightarrow>
     (isl (fst (upload_schema c sys a p w))
        \<longleftrightarrow> (\<exists>k<30. (\<forall>j<k. pending (poll_reply c sys a j w0)) \<and> failing (poll_reply c sys a k w0)))
     \<and> (\<forall>k<30. (\<forall>j<k. pending (poll_reply c sys a j w0)) \<longrightarrow> \<not> pending (poll_reply c sys a k w0) \<longrightarrow>
          upload_schema (logged c) (logged_sys sys) a p (w, [])
            = (poll_outcome (poll_reply c sys a k w0),
               (snd (get_schema_creation_status c a (poll_world c sys a k w0)),
                StartSchemaCreation a data # poll_log a k @ [GetSchemaCreationStatus a])))
     \<and> (\<forall>st. st_status st = Some ''NOT_APPLICABLE'' \<longrightarrow>
          failing (Inr st) \<and> poll_outcome (Inr st)
            = Inl (Exn RuntimeError (''Schema status=NOT_APPLICABLE: '' @ take 400 (get_list (st_details st)))))
     \<and> (\<forall>st. st_status st = Some ''SUCCESS'' \<longrightarrow>
          \<not> failing (Inr st) \<and> \<not> pending (Inr st) \<and> poll_outcome (Inr st) = Inr ())"
proof (intro impI)
  assume r: "read_bytes sys p w = Inr data" and s: "start_schema_creation c a data w = (Inr u, w0)"
  have 1: "isl (fst (upload_schema c sys a p w))
        \<longleftrightarrow> (\<exists>k<30. (\<forall>j<k. pending (poll_reply c sys a j w0)) \<and> failing (poll_reply c sys a k w0))"
    unfolding upload_schema_started [OF r s] by (rule poll_schema_raises)
  have 2: "\<forall>k<30. (\<forall>j<k. pending (poll_reply c sys a j w0)) \<longrightarrow> \<not> pending (poll_reply c sys a k w0) \<longrightarrow>
          upload_schema (logged c) (logged_sys sys) a p (w, [])
            = (poll_outcome (poll_reply c sys a k w0),
               (snd (get_schema_creation_status c a (poll_world c sys a k w0)),
                StartSchemaCreation a data # poll_log a k @ [GetSchemaCreationStatus a]))"
    using upload_schema_ended [OF r s] by blast
  have 3: "\<forall>st. st_status st = Some ''NOT_APPLICABLE'' \<longrightarrow>
          failing (Inr st) \<and> poll_outcome (Inr st)
            = Inl (Exn RuntimeError (''Schema status=NOT_APPLICABLE: '' @ take 400 (get_list (st_details st))))"
    using not_applicable_raises by blast
  have 4: "\<forall>st. st_status st = Some ''SUCCESS'' \<longrightarrow>
          \<not> failing (Inr st) \<and> \<not> pending (Inr st) \<and> poll_outcome (Inr st) = Inr ()"
    using success_returns by blast
  show "(isl (fst (upload_schema c sys a p w))
        \<longleftrightarrow> (\<exists>k<30. (\<forall>j<k. pending (poll_reply c sys a j w0)) \<and> failing (poll_reply c sys a k w0)))
     \<and> (\<forall>k<30. (\<forall>j<k. pending (poll_reply c sys a j w0)) \<longrightarrow> \<not> pending (poll_reply c sys a k w0) \<longrightarrow>
          upload_schema (logged c) (logged_sys sys) a p (w, [])
            = (poll_outcome (poll_reply c sys a k w0),
               (snd (get_schema_creation_status c a (poll_world c sys a k w0)),
                StartSchemaCreation a data # poll_log a k @ [GetSchemaCreationStatus a])))
     \<and> (\<forall>st. st_status st = Some ''NOT_APPLICABLE'' \<longrightarrow>
          failing (Inr st) \<and> poll_outcome (Inr st)
            = Inl (Exn RuntimeError (''Schema status=NOT_APPLICABLE: '' @ take 400 (get_list (st_details st)))))
     \<and> (\<forall>st. st_status st = Some ''SUCCESS'' \<longrightarrow>
          \<not> failing (Inr st) \<and> \<not> pending (Inr st) \<and> poll_outcome (Inr st) = Inr ())"
    using 1 2 3 4 by (intro conjI)
qed

theorem upload_schema_raises_witness:
  "isl (fst (upload_schema schema_service (clock_at 0) ''api'' ''schema.graphql''
          [''PROCESSING'', ''NOT_APPLICABLE'', ''SUCCESS'']))
   \<and> upload_schema (logged schema_service) (logged_sys (clock_at 0)) ''api'' ''schema.graphql''
         ([''PROCESSING'', ''NOT_APPLICABLE'', ''SUCCESS''], [])
       = (Inl (Exn RuntimeError ''Schema status=NOT_APPLICABLE: ''),
          ([''SUCCESS''],
           [StartSchemaCreation ''api'' ''type Query { ok: Boolean }'',
            GetSchemaCreationStatus ''api'', Sleep 2, GetSchemaCreationStatus ''api'']))
   \<and> upload_schema (logged schema_service) (logged_sys (clock_at 0)) ''api'' ''schema.graphql''
         ([''SUCCESS''], [])
       = (Inr (), ([], [StartSchemaCreation ''api'' ''type Query { ok: Boolean }'',
                        GetSchemaCreationStatus ''api'']))"
proof -
  let ?sys = "clock_at 0 :: string list system"
  let ?w = "[''PROCESSING'', ''NOT_APPLICABLE'', ''SUCCESS'']"
  note t = upload_schema_raises [where c = schema_service and sys = ?sys and a = "''api''"
      and p = "''schema.graphql''" and u = "()" and data = "''type Query { ok: Boolean }''"]
  note ev = poll_reply_def schema_service_status clock_at_def pending_def failing_def
    poll_outcome_def poll_log_def get_list_def
  have w1: "poll_world schema_service ?sys ''api'' (Suc 0) ?w = [''NOT_APPLICABLE'', ''SUCCESS'']"
    by (simp add: schema_service_status clock_at_def)
  have p0: "pending (poll_reply schema_service ?sys ''api'' 0 ?w)"
    by (simp add: ev)
  have f1: "failing (poll_reply schema_service ?sys ''api'' (Suc 0) ?w)"
    unfolding poll_reply_def w1 by (simp add: schema_service_status failing_def)
  have o1: "poll_outcome (poll_reply schema_service ?sys ''api'' (Suc 0) ?w)
      = Inl (Exn RuntimeError ''Schema status=NOT_APPLICABLE: '')"
    unfolding poll_reply_def w1 by (simp add: schema_service_status poll_outcome_def get_list_def)
  have b1: "\<forall>j<Suc 0. pending (poll_reply schema_service ?sys ''api'' j ?w)"
    using p0 by simp
  have ex: "\<exists>k<30. (\<forall>j<k. pending (poll_reply schema_service ?sys ''api'' j ?w))
      \<and> failing (poll_reply schema_service ?sys ''api'' k ?w)"
    using b1 f1 by (intro exI [of _ "Suc 0"]) simp
  note t1 = t [where w = ?w and ?w0.0 = ?w, rule_format, OF schema_service_start]
  have 1: "isl (fst (upload_schema schema_service ?sys ''api'' ''schema.graphql'' ?w))"
    using t1 [THEN conjunct1] ex by simp
  have "upload_schema (logged schema_service) (logged_sys ?sys) ''api'' ''schema.graphql'' (?w, [])
      = (poll_outcome (poll_reply schema_service ?sys ''api'' (Suc 0) ?w),
         (snd (get_schema_creation_status schema_service ''api'' (poll_world schema_service ?sys ''api'' (Suc 0) ?w)),
          StartSchemaCreation ''api'' ''type Query { ok: Boolean }'' # poll_log ''api'' (Suc 0)
            @ [GetSchemaCreationStatus ''api'']))"
    using t1 [THEN conjunct2, THEN conjunct1, rule_format, of "Suc 0"] b1 f1 failing_not_pending
    by simp
  then have 2: "upload_schema (logged schema_service) (logged_sys ?sys) ''api'' ''schema.graphql'' (?w, [])
       = (Inl (Exn RuntimeError ''Schema status=NOT_APPLICABLE: ''),
          ([''SUCCESS''],
           [StartSchemaCreation ''api'' ''type Query { ok: Boolean }'',
            GetSchemaCreationStatus ''api'', Sleep 2, GetSchemaCreationStatus ''api'']))"
    unfolding o1 w1 by (simp add: schema_service_status poll_log_def)
  note t2 = t [where w = "[''SUCCESS'']" and ?w0.0 = "[''SUCCESS'']", rule_format, OF schema_service_start]
  have np: "\<not> pending (poll_reply schema_service ?sys ''api'' 0 [''SUCCESS''])"
    by (simp add: ev)
  have 3: "upload_schema (logged schema_service) (logged_sys ?sys) ''api'' ''schema.graphql'' ([''SUCCESS''], [])
       = (Inr (), ([], [StartSchemaCreation ''api'' ''type Query { ok: Boolean }'',
                        GetSchemaCreationStatus ''api'']))"
    using t2 [THEN conjunct2, THEN conjunct1, rule_format, of 0] np
    by (simp add: ev)
  show ?thesis using 1 2 3 by (intro conjI)
qed

text \<open>
  C3 as stated fails: a first status \<open>NOT_APPLICABLE\<close> is not taken as success, the
  helper raises.
\<close>

theorem upload_schema_not_applicable_counterexample:
  "upload_schema schema_service (clock_at 0) ''api'' ''schema.graphql'' [''NOT_APPLICABLE'']
     = (Inl (Exn RuntimeError ''Schema status=NOT_APPLICABLE: ''), [])"
  by code_simp

text \<open>
  C10. When the schema document is read, the creation is started and each of the 30 polls
  finds a pending status, \<open>upload_schema\<close> returns normally: its calls are the start
  and 30 polls, each followed by a sleep of two seconds, and nothing tells the caller that
  the compilation did not complete.
\<close>

theorem upload_schema_gives_up:
  fixes c :: "'w appsync"
  shows
  "read_bytes sys p w = Inr data \<longrightarrow> start_schema_creation c a data w = (Inr u, w0) \<longrightarrow>
   (\<forall>k<30. pending (poll_reply c sys a k w0)) \<longrightarrow>
     upload_schema c sys a p w = (Inr (), poll_world c sys a 30 w0)
     \<and> upload_schema (logged c) (logged_sys sys) a p (w, [])
         = (Inr (), (poll_world c sys a 30 w0, StartSchemaCreation a data # poll_log a 30))"
proof (intro impI)
  assume r: "read_bytes sys p w = Inr data" and s: "start_schema_creation c a data w = (Inr u, w0)"
    and "\<forall>k<30. pending (poll_reply c sys a k w0)"
  then have p: "\<And>k. k < 30 \<Longrightarrow> pending (poll_reply c sys a k w0)" by simp
  show "upload_schema c sys a p w = (Inr (), poll_world c sys a 30 w0)
     \<and> upload_schema (logged c) (logged_sys sys) a p (w, [])
         = (Inr (), (poll_world c sys a 30 w0, StartSchemaCreation a data # poll_log a 30))"
    using upload_schema_timeout [OF r s p] by (intro conjI)
qed

theorem upload_schema_gives_up_witness:
  "upload_schema schema_service (clock_at 0) ''api'' ''schema.graphql'' [] = (Inr (), [])
   \<and> upload_schema (logged schema_service) (logged_sys (clock_at 0)) ''api'' ''schema.graphql'' ([], [])
       = (Inr (), ([], StartSchemaCreation ''api'' ''type Query { ok: Boolean }'' # poll_log ''api'' 30))
   \<and> length (poll_log ''api'' 30) = 60"
proof -
  have p: "\<forall>k<30. pending (poll_reply schema_service (clock_at 0) ''api'' k [])"
    by (simp add: schema_service_idle_pending)
  have l: "length (poll_log ''api'' 30) = 60"
    by (simp add: length_poll_log)
  show ?thesis
    using upload_schema_gives_up [where c = schema_service and sys = "clock_at 0" and a = "''api''"
        and p = "''schema.graphql''" and w = "[]" and ?w0.0 = "[]" and u = "()"
        and data = "''type Query { ok: Boolean }''"] p l
    by (simp add: schema_service_start schema_service_idle)
qed

text \<open>
  C1, as amended. \<open>ensure_api\<close>: when the service, asked page after page through
  \<open>nextToken\<close>, serves after finitely many replies a page that holds an API of the given
  name, the pages before holding none, no creation call is issued and the first such API
  of that page is returned as it is; when the listing ends, with a reply that carries no
  \<open>nextToken\<close>, and no page holds an API of the name, exactly one
  \<open>create_graphql_api\<close> call follows the list calls and its outcome, descriptor or
  fault, is returned. \<open>ensure_ddb_ds\<close>, \<open>ensure_none_ds\<close> and \<open>ensure_sns_ds\<close>: when
  the reply of \<open>list_data_sources\<close> holds a data source of the given name, no creation
  call is issued and the first such descriptor is returned as it is; when the reply is
  the whole listing (it carries no \<open>nextToken\<close>) and holds none, and for
  \<open>ensure_ddb_ds\<close> and \<open>ensure_sns_ds\<close> the ARN has a fourth colon-separated field,
  exactly one creation call follows the list call and its outcome, descriptor or fault,
  is returned. \<open>ensure_catalog_table\<close> and \<open>ensure_cost_table\<close>: when
  \<open>describe_table\<close> succeeds its descriptor is returned and nothing is created; when it
  raises \<open>ResourceNotFoundException\<close> and creation and wait succeed, exactly one
  \<open>create_table\<close> call is issued and the outcome of a second \<open>describe_table\<close> call is
  returned, not the descriptor that \<open>create_table\<close> gave.
\<close>

theorem ensure_creates_once:
  fixes c :: "'w appsync" and boto :: "string \<Rightarrow> 'w dynamodb"
  shows
  "(pages_served c None w (qs @ [(resp, w1)]) \<longrightarrow>
      find (\<lambda>api. gapi_name api = name) (page_apis qs) = None \<longrightarrow>
      find (\<lambda>api. gapi_name api = name) (get_list (graphqlApis resp)) = Some api \<longrightarrow>
      ensure_api (logged c) name role xray (w, [])
        = Some (Inr api, (w1, list_calls None (qs @ [(resp, w1)])))
      \<and> creations (list_calls None (qs @ [(resp, w1)])) = []
      \<and> gapi_name api = name)
   \<and> (pages_served c None w (qs @ [(resp, w1)]) \<longrightarrow>
      find (\<lambda>api. gapi_name api = name) (page_apis (qs @ [(resp, w1)])) = None \<longrightarrow>
      \<not> truthy (nextToken resp) \<longrightarrow>
      create_graphql_api c (api_kwargs name role xray) w1 = (ra, w2) \<longrightarrow>
      ensure_api (logged c) name role xray (w, [])
        = Some (ra, (w2, list_calls None (qs @ [(resp, w1)])
                          @ [CreateGraphqlApi (api_kwargs name role xray)]))
      \<and> creations (list_calls None (qs @ [(resp, w1)])
                          @ [CreateGraphqlApi (api_kwargs name role xray)])
        = [CreateGraphqlApi (api_kwargs name role xray)])
   \<and> (list_data_sources c a w = (Inr page, w1) \<longrightarrow>
      find (\<lambda>d. dsrc_name d = name) (get_list (dataSources page)) = Some d \<longrightarrow>
      ensure_ddb_ds (logged c) a name table_arn role_arn (w, []) = (Inr d, (w1, [ListDataSources a]))
      \<and> ensure_none_ds (logged c) a name (w, []) = (Inr d, (w1, [ListDataSources a]))
      \<and> ensure_sns_ds (logged c) a name topic_arn role_arn (w, []) = (Inr d, (w1, [ListDataSources a])))
   \<and> (list_data_sources c a w = (Inr page, w1) \<longrightarrow>
      \<not> truthy (ds_nextToken page) \<longrightarrow>
      find (\<lambda>d. dsrc_name d = name) (get_list (dataSources page)) = None \<longrightarrow>
      (index (py_split CHR '':'' table_arn) 3 = Inr region \<longrightarrow>
       create_data_source c (ddb_ds_args a name table_arn role_arn region) w1 = (rd, w2) \<longrightarrow>
       ensure_ddb_ds (logged c) a name table_arn role_arn (w, [])
         = (rd, (w2, [ListDataSources a,
                      CreateDataSource (ddb_ds_args a name table_arn role_arn region)])))
      \<and> (create_data_source c (none_ds_args a name) w1 = (rd, w2) \<longrightarrow>
       ensure_none_ds (logged c) a name (w, [])
         = (rd, (w2, [ListDataSources a, CreateDataSource (none_ds_args a name)])))
      \<and> (index (py_split CHR '':'' topic_arn) 3 = Inr region \<longrightarrow>
       create_data_source c (sns_ds_args a name role_arn region) w1 = (rd, w2) \<longrightarrow>
       ensure_sns_ds (logged c) a name topic_arn role_arn (w, [])
         = (rd, (w2, [ListDataSources a,
                      CreateDataSource (sns_ds_args a name role_arn region)]))))
   \<and> (describe_table (boto reg) n w = (Inr t, w1) \<longrightarrow>
      ensure_catalog_table (\<lambda>r. logged_ddb (boto r)) n reg (w, []) = (Inr t, (w1, [DescribeTable n]))
      \<and> ensure_cost_table (\<lambda>r. logged_ddb (boto r)) n reg (w, []) = (Inr t, (w1, [DescribeTable n])))
   \<and> (describe_table (boto reg) n w = (Inl e, w1) \<longrightarrow>
      exn_class e = ResourceNotFoundException \<longrightarrow>
      wait_table_exists (boto reg) n w2 = (Inr u, w3) \<longrightarrow>
      describe_table (boto reg) n w3 = (rt, w4) \<longrightarrow>
      (create_table (boto reg) (table_args n ''asin'') w1 = (Inr t, w2) \<longrightarrow>
       ensure_catalog_table (\<lambda>r. logged_ddb (boto r)) n reg (w, [])
         = (rt, (w4, [DescribeTable n, CreateTable (table_args n ''asin''),
                      WaitTableExists n, DescribeTable n])))
      \<and> (create_table (boto reg) (table_args n ''asinVendor'') w1 = (Inr t, w2) \<longrightarrow>
       ensure_cost_table (\<lambda>r. logged_ddb (boto r)) n reg (w, [])
         = (rt, (w4, [DescribeTable n, CreateTable (table_args n ''asinVendor''),
                      WaitTableExists n, DescribeTable n]))))"
proof -
  have 1: "pages_served c None w (qs @ [(resp, w1)]) \<longrightarrow>
      find (\<lambda>api. gapi_name api = name) (page_apis qs) = None \<longrightarrow>
      find (\<lambda>api. gapi_name api = name) (get_list (graphqlApis resp)) = Some api \<longrightarrow>
      ensure_api (logged c) name role xray (w, [])
        = Some (Inr api, (w1, list_calls None (qs @ [(resp, w1)])))
      \<and> creations (list_calls None (qs @ [(resp, w1)])) = []
      \<and> gapi_name api = name"
    by (intro impI) (rule ensure_api_served_found)
  have 2: "pages_served c None w (qs @ [(resp, w1)]) \<longrightarrow>
      find (\<lambda>api. gapi_name api = name) (page_apis (qs @ [(resp, w1)])) = None \<longrightarrow>
      \<not> truthy (nextToken resp) \<longrightarrow>
      create_graphql_api c (api_kwargs name role xray) w1 = (ra, w2) \<longrightarrow>
      ensure_api (logged c) name role xray (w, [])
        = Some (ra, (w2, list_calls None (qs @ [(resp, w1)])
                          @ [CreateGraphqlApi (api_kwargs name role xray)]))
      \<and> creations (list_calls None (qs @ [(resp, w1)])
                          @ [CreateGraphqlApi (api_kwargs name role xray)])
        = [CreateGraphqlApi (api_kwargs name role xray)]"
    by (intro impI) (rule ensure_api_served_missing)
  have 3: "list_data_sources c a w = (Inr page, w1) \<longrightarrow>
      find (\<lambda>d. dsrc_name d = name) (get_list (dataSources page)) = Some d \<longrightarrow>
      ensure_ddb_ds (logged c) a name table_arn role_arn (w, []) = (Inr d, (w1, [ListDataSources a]))
      \<and> ensure_none_ds (logged c) a name (w, []) = (Inr d, (w1, [ListDataSources a]))
      \<and> ensure_sns_ds (logged c) a name topic_arn role_arn (w, []) = (Inr d, (w1, [ListDataSources a]))"
    by (intro impI conjI) (rule ensure_ddb_ds_found ensure_none_ds_found ensure_sns_ds_found; assumption)+
  have 4: "list_data_sources c a w = (Inr page, w1) \<longrightarrow>
      \<not> truthy (ds_nextToken page) \<longrightarrow>
      find (\<lambda>d. dsrc_name d = name) (get_list (dataSources page)) = None \<longrightarrow>
      (index (py_split CHR '':'' table_arn) 3 = Inr region \<longrightarrow>
       create_data_source c (ddb_ds_args a name table_arn role_arn region) w1 = (rd, w2) \<longrightarrow>
       ensure_ddb_ds (logged c) a name table_arn role_arn (w, [])
         = (rd, (w2, [ListDataSources a,
                      CreateDataSource (ddb_ds_args a name table_arn role_arn region)])))
      \<and> (create_data_source c (none_ds_args a name) w1 = (rd, w2) \<longrightarrow>
       ensure_none_ds (logged c) a name (w, [])
         = (rd, (w2, [ListDataSources a, CreateDataSource (none_ds_args a name)])))
      \<and> (index (py_split CHR '':'' topic_arn) 3 = Inr region \<longrightarrow>
       create_data_source c (sns_ds_args a name role_arn region) w1 = (rd, w2) \<longrightarrow>
       ensure_sns_ds (logged c) a name topic_arn role_arn (w, [])
         = (rd, (w2, [ListDataSources a,
                      CreateDataSource (sns_ds_args a name role_arn region)])))"
    by (intro impI conjI) (rule ensure_ddb_ds_missing ensure_none_ds_missing ensure_sns_ds_missing; assumption)+
  have 5: "describe_table (boto reg) n w = (Inr t, w1) \<longrightarrow>
      ensure_catalog_table (\<lambda>r. logged_ddb (boto r)) n reg (w, []) = (Inr t, (w1, [DescribeTable n]))
      \<and> ensure_cost_table (\<lambda>r. logged_ddb (boto r)) n reg (w, []) = (Inr t, (w1, [DescribeTable n]))"
    unfolding ensure_catalog_table_def ensure_cost_table_def
    by (intro impI conjI) (rule ensure_table_found; assumption)+
  have 6: "describe_table (boto reg) n w = (Inl e, w1) \<longrightarrow>
      exn_class e = ResourceNotFoundException \<longrightarrow>
      wait_table_exists (boto reg) n w2 = (Inr u, w3) \<longrightarrow>
      describe_table (boto reg) n w3 = (rt, w4) \<longrightarrow>
      (create_table (boto reg) (table_args n ''asin'') w1 = (Inr t, w2) \<longrightarrow>
       ensure_catalog_table (\<lambda>r. logged_ddb (boto r)) n reg (w, [])
         = (rt, (w4, [DescribeTable n, CreateTable (table_args n ''asin''),
                      WaitTableExists n, DescribeTable n])))
      \<and> (create_table (boto reg) (table_args n ''asinVendor'') w1 = (Inr t, w2) \<longrightarrow>
       ensure_cost_table (\<lambda>r. logged_ddb (boto r)) n reg (w, [])
         = (rt, (w4, [DescribeTable n, CreateTable (table_args n ''asinVendor''),
                      WaitTableExists n, DescribeTable n])))"
    unfolding ensure_catalog_table_def ensure_cost_table_def
    by (intro impI conjI) (rule ensure_table_missing; assumption)+
  show ?thesis using 1 2 3 4 5 6 by (intro conjI)
qed

theorem ensure_creates_once_witness:
  "ensure_api (logged (paged_appsync example_pages)) ''shop-api'' None False ((), [])
     = Some (Inr \<lparr>gapi_name = ''shop-api'', gapi_id = ''a2'', gapi_fields = []\<rparr>,
             ((), [ListGraphqlApis None, ListGraphqlApis (Some ''+'')]))
   \<and> ensure_api (logged (paged_appsync example_pages)) ''new-api'' None False ((), [])
     = Some (Inr \<lparr>gapi_name = ''new-api'', gapi_id = ''new-api'', gapi_fields = []\<rparr>,
             ((), [ListGraphqlApis None, ListGraphqlApis (Some ''+''),
                   CreateGraphqlApi (api_kwargs ''new-api'' None False)]))
   \<and> ensure_ddb_ds (logged datasource_service) ''a1'' ''CostDS'' cost_table_arn ''role'' ([cost_ds], [])
     = (Inr cost_ds, ([cost_ds], [ListDataSources ''a1'']))
   \<and> ensure_ddb_ds (logged datasource_service) ''a1'' ''CostDS'' cost_table_arn ''role'' ([], [])
     = (Inr cost_ds,
        ([cost_ds], [ListDataSources ''a1'',
           CreateDataSource (ddb_ds_args ''a1'' ''CostDS'' cost_table_arn ''role'' ''us-east-1'')]))
   \<and> ensure_none_ds (logged datasource_service) ''a1'' ''NoneDS'' ([cost_ds], [])
     = (Inr \<lparr>dsrc_name = ''NoneDS'', dsrc_type = ''NONE'', dsrc_fields = []\<rparr>,
        ([cost_ds, \<lparr>dsrc_name = ''NoneDS'', dsrc_type = ''NONE'', dsrc_fields = []\<rparr>],
         [ListDataSources ''a1'', CreateDataSource (none_ds_args ''a1'' ''NoneDS'')]))
   \<and> ensure_sns_ds (logged datasource_service) ''a1'' ''SnsDS'' price_topic_arn ''role'' ([cost_ds], [])
     = (Inr \<lparr>dsrc_name = ''SnsDS'', dsrc_type = ''HTTP'', dsrc_fields = []\<rparr>,
        ([cost_ds, \<lparr>dsrc_name = ''SnsDS'', dsrc_type = ''HTTP'', dsrc_fields = []\<rparr>],
         [ListDataSources ''a1'',
          CreateDataSource (sns_ds_args ''a1'' ''SnsDS'' ''role'' ''us-east-1'')]))
   \<and> ensure_catalog_table (\<lambda>r. logged_ddb (table_service r)) ''catalog'' ''us-east-1'' (True, [])
     = (Inr \<lparr>td_name = ''catalog'', td_status = ''ACTIVE'', td_fields = []\<rparr>,
        (True, [DescribeTable ''catalog'']))
   \<and> ensure_cost_table (\<lambda>r. logged_ddb (table_service r)) ''cost'' ''us-east-1'' (False, [])
     = (Inr \<lparr>td_name = ''cost'', td_status = ''ACTIVE'', td_fields = []\<rparr>,
        (True, [DescribeTable ''cost'', CreateTable (table_args ''cost'' ''asinVendor''),
                WaitTableExists ''cost'', DescribeTable ''cost'']))"
proof -
  note svc = paged_appsync_def datasource_service_def table_service_def no_appsync_def
  let ?p1 = "\<lparr>graphqlApis = Some [\<lparr>gapi_name = ''catalog-api'', gapi_id = ''a1'', gapi_fields = []\<rparr>],
      nextToken = Some ''+''\<rparr>"
  let ?p2 = "\<lparr>graphqlApis = Some [\<lparr>gapi_name = ''shop-api'', gapi_id = ''a2'', gapi_fields = []\<rparr>],
      nextToken = None\<rparr>"
  have ps: "pages_served (paged_appsync example_pages) None () ([(?p1, ())] @ [(?p2, ())])"
    by code_simp
  have lc: "list_calls None ([(?p1, ())] @ [(?p2, ())])
      = [ListGraphqlApis None, ListGraphqlApis (Some ''+'')]"
    by code_simp
  have f0: "find (\<lambda>api. gapi_name api = ''shop-api'') (page_apis [(?p1, ())]) = None"
    by code_simp
  have f1: "find (\<lambda>api. gapi_name api = ''shop-api'') (get_list (graphqlApis ?p2))
      = Some \<lparr>gapi_name = ''shop-api'', gapi_id = ''a2'', gapi_fields = []\<rparr>"
    by code_simp
  have 1: "ensure_api (logged (paged_appsync example_pages)) ''shop-api'' None False ((), [])
     = Some (Inr \<lparr>gapi_name = ''shop-api'', gapi_id = ''a2'', gapi_fields = []\<rparr>,
             ((), [ListGraphqlApis None, ListGraphqlApis (Some ''+'')]))"
    using ensure_creates_once [THEN conjunct1, rule_format, OF ps f0 f1, THEN conjunct1]
    unfolding lc .
  have f2: "find (\<lambda>api. gapi_name api = ''new-api'') (page_apis ([(?p1, ())] @ [(?p2, ())])) = None"
    by code_simp
  have t2: "\<not> truthy (nextToken ?p2)"
    by code_simp
  have c2: "create_graphql_api (paged_appsync example_pages) (api_kwargs ''new-api'' None False) ()
      = (Inr \<lparr>gapi_name = ''new-api'', gapi_id = ''new-api'', gapi_fields = []\<rparr>, ())"
    by (simp add: svc api_kwargs_def)
  have 2: "ensure_api (logged (paged_appsync example_pages)) ''new-api'' None False ((), [])
     = Some (Inr \<lparr>gapi_name = ''new-api'', gapi_id = ''new-api'', gapi_fields = []\<rparr>,
             ((), [ListGraphqlApis None, ListGraphqlApis (Some ''+''),
                   CreateGraphqlApi (api_kwargs ''new-api'' None False)]))"
    using ensure_creates_once [THEN conjunct2, THEN conjunct1, rule_format, OF ps f2 t2 c2,
        THEN conjunct1]
    unfolding lc by simp
  have l3: "list_data_sources datasource_service ''a1'' [cost_ds]
      = (Inr \<lparr>dataSources = Some [cost_ds], ds_nextToken = None\<rparr>, [cost_ds])"
    by (simp add: svc)
  have l4: "list_data_sources datasource_service ''a1'' []
      = (Inr \<lparr>dataSources = Some [], ds_nextToken = None\<rparr>, [])"
    by (simp add: svc)
  have n3: "\<not> truthy (ds_nextToken \<lparr>dataSources = Some [cost_ds], ds_nextToken = None\<rparr>)"
    by (simp add: truthy_def)
  have n4: "\<not> truthy (ds_nextToken \<lparr>dataSources = Some [], ds_nextToken = None\<rparr>)"
    by (simp add: truthy_def)
  have s3: "find (\<lambda>d. dsrc_name d = ''CostDS'')
      (get_list (dataSources \<lparr>dataSources = Some [cost_ds], ds_nextToken = None\<rparr>)) = Some cost_ds"
    by (simp add: get_list_def cost_ds_def)
  have 3: "ensure_ddb_ds (logged datasource_service) ''a1'' ''CostDS'' cost_table_arn ''role'' ([cost_ds], [])
     = (Inr cost_ds, ([cost_ds], [ListDataSources ''a1'']))"
    by (rule ensure_creates_once [THEN conjunct2, THEN conjunct2, THEN conjunct1, rule_format,
          OF l3 s3, THEN conjunct1])
  have s4: "find (\<lambda>d. dsrc_name d = ''CostDS'')
      (get_list (dataSources \<lparr>dataSources = Some [], ds_nextToken = None\<rparr>)) = None"
    by (simp add: get_list_def)
  have r4: "index (py_split CHR '':'' cost_table_arn) 3 = Inr ''us-east-1''"
    by code_simp
  have c4: "create_data_source datasource_service
      (ddb_ds_args ''a1'' ''CostDS'' cost_table_arn ''role'' ''us-east-1'') [] = (Inr cost_ds, [cost_ds])"
    by (simp add: svc ddb_ds_args_def cost_ds_def)
  have 4: "ensure_ddb_ds (logged datasource_service) ''a1'' ''CostDS'' cost_table_arn ''role'' ([], [])
     = (Inr cost_ds,
        ([cost_ds], [ListDataSources ''a1'',
           CreateDataSource (ddb_ds_args ''a1'' ''CostDS'' cost_table_arn ''role'' ''us-east-1'')]))"
    by (rule ensure_creates_once [THEN conjunct2, THEN conjunct2, THEN conjunct2, THEN conjunct1,
          rule_format, OF l4 n4 s4, THEN conjunct1, rule_format, OF r4 c4])
  have s5: "find (\<lambda>d. dsrc_name d = ''NoneDS'')
      (get_list (dataSources \<lparr>dataSources = Some [cost_ds], ds_nextToken = None\<rparr>)) = None"
    by (simp add: get_list_def cost_ds_def)
  have c5: "create_data_source datasource_service (none_ds_args ''a1'' ''NoneDS'') [cost_ds]
      = (Inr \<lparr>dsrc_name = ''NoneDS'', dsrc_type = ''NONE'', dsrc_fields = []\<rparr>,
         [cost_ds, \<lparr>dsrc_name = ''NoneDS'', dsrc_type = ''NONE'', dsrc_fields = []\<rparr>])"
    by (simp add: svc none_ds_args_def)
  have 5: "ensure_none_ds (logged datasource_service) ''a1'' ''NoneDS'' ([cost_ds], [])
     = (Inr \<lparr>dsrc_name = ''NoneDS'', dsrc_type = ''NONE'', dsrc_fields = []\<rparr>,
        ([cost_ds, \<lparr>dsrc_name = ''NoneDS'', dsrc_type = ''NONE'', dsrc_fields = []\<rparr>],
         [ListDataSources ''a1'', CreateDataSource (none_ds_args ''a1'' ''NoneDS'')]))"
    by (rule ensure_creates_once [THEN conjunct2, THEN conjunct2, THEN conjunct2, THEN conjunct1,
          rule_format, OF l3 n3 s5, THEN conjunct2, THEN conjunct1, rule_format, OF c5])
  have s6: "find (\<lambda>d. dsrc_name d = ''SnsDS'')
      (get_list (dataSources \<lparr>dataSources = Some [cost_ds], ds_nextToken = None\<rparr>)) = None"
    by (simp add: get_list_def cost_ds_def)
  have r6: "index (py_split CHR '':'' price_topic_arn) 3 = Inr ''us-east-1''"
    by code_simp
  have c6: "create_data_source datasource_service (sns_ds_args ''a1'' ''SnsDS'' ''role'' ''us-east-1'') [cost_ds]
      = (Inr \<lparr>dsrc_name = ''SnsDS'', dsrc_type = ''HTTP'', dsrc_fields = []\<rparr>,
         [cost_ds, \<lparr>dsrc_name = ''SnsDS'', dsrc_type = ''HTTP'', dsrc_fields = []\<rparr>])"
    by (simp add: svc sns_ds_args_def)
  have 6: "ensure_sns_ds (logged datasource_service) ''a1'' ''SnsDS'' price_topic_arn ''role'' ([cost_ds], [])
     = (Inr \<lparr>dsrc_name = ''SnsDS'', dsrc_type = ''HTTP'', dsrc_fields = []\<rparr>,
        ([cost_ds, \<lparr>dsrc_name = ''SnsDS'', dsrc_type = ''HTTP'', dsrc_fields = []\<rparr>],
         [ListDataSources ''a1'',
          CreateDataSource (sns_ds_args ''a1'' ''SnsDS'' ''role'' ''us-east-1'')]))"
    by (rule ensure_creates_once [THEN conjunct2, THEN conjunct2, THEN conjunct2, THEN conjunct1,
          rule_format, OF l3 n3 s6, THEN conjunct2, THEN conjunct2, rule_format, OF r6 c6])
  have d7: "describe_table (table_service ''us-east-1'') ''catalog'' True
      = (Inr \<lparr>td_name = ''catalog'', td_status = ''ACTIVE'', td_fields = []\<rparr>, True)"
    by (simp add: svc)
  have 7: "ensure_catalog_table (\<lambda>r. logged_ddb (table_service r)) ''catalog'' ''us-east-1'' (True, [])
     = (Inr \<lparr>td_name = ''catalog'', td_status = ''ACTIVE'', td_fields = []\<rparr>,
        (True, [DescribeTable ''catalog'']))"
    by (rule ensure_creates_once [where boto = table_service and reg = "''us-east-1''",
          THEN conjunct2, THEN conjunct2, THEN conjunct2, THEN conjunct2,
          THEN conjunct1, rule_format, OF d7, THEN conjunct1])
  have d8: "describe_table (table_service ''us-east-1'') ''cost'' False
      = (Inl (Exn ResourceNotFoundException ''Requested resource not found''), False)"
    by (simp add: svc)
  have e8: "exn_class (Exn ResourceNotFoundException ''Requested resource not found'') = ResourceNotFoundException"
    by simp
  have w8: "wait_table_exists (table_service ''us-east-1'') ''cost'' True = (Inr (), True)"
    by (simp add: svc)
  have a8: "describe_table (table_service ''us-east-1'') ''cost'' True
      = (Inr \<lparr>td_name = ''cost'', td_status = ''ACTIVE'', td_fields = []\<rparr>, True)"
    by (simp add: svc)
  have c8: "create_table (table_service ''us-east-1'') (table_args ''cost'' ''asinVendor'') False
      = (Inr \<lparr>td_name = ''cost'', td_status = ''CREATING'', td_fields = []\<rparr>, True)"
    by (simp add: svc table_args_def)
  have 8: "ensure_cost_table (\<lambda>r. logged_ddb (table_service r)) ''cost'' ''us-east-1'' (False, [])
     = (Inr \<lparr>td_name = ''cost'', td_status = ''ACTIVE'', td_fields = []\<rparr>,
        (True, [DescribeTable ''cost'', CreateTable (table_args ''cost'' ''asinVendor''),
                WaitTableExists ''cost'', DescribeTable ''cost'']))"
    by (rule ensure_creates_once [where boto = table_service and reg = "''us-east-1''",
          THEN conjunct2, THEN conjunct2, THEN conjunct2, THEN conjunct2,
          THEN conjunct2, rule_format, OF d8 e8 w8 a8, THEN conjunct2, rule_format, OF c8])
  show ?thesis using 1 2 3 4 5 6 7 8 by (intro conjI)
qed

text \<open>
  C1 as stated fails three times. With no table present, \<open>ensure_catalog_table\<close>
  returns the \<open>ACTIVE\<close> descriptor of its second \<open>describe_table\<close> call, which is not
  the \<open>CREATING\<close> descriptor of the creation call. With no data source present and a
  table ARN without colons, \<open>ensure_ddb_ds\<close> raises \<open>IndexError\<close> and issues no creation
  call. With the data source \<open>NoneDS\<close> present but listed behind a \<open>nextToken\<close>,
  \<open>ensure_none_ds\<close>, which asks for no further page, issues a creation call.
\<close>

theorem ensure_table_descriptor_counterexample:
  "describe_table (table_service ''us-east-1'') ''catalog'' False
     = (Inl (Exn ResourceNotFoundException ''Requested resource not found''), False)
   \<and> create_table (table_service ''us-east-1'') (table_args ''catalog'' ''asin'') False
     = (Inr \<lparr>td_name = ''catalog'', td_status = ''CREATING'', td_fields = []\<rparr>, True)
   \<and> ensure_catalog_table table_service ''catalog'' ''us-east-1'' False
     = (Inr \<lparr>td_name = ''catalog'', td_status = ''ACTIVE'', td_fields = []\<rparr>, True)
   \<and> fst (ensure_catalog_table table_service ''catalog'' ''us-east-1'' False)
     \<noteq> fst (create_table (table_service ''us-east-1'') (table_args ''catalog'' ''asin'') False)
   \<and> list_data_sources datasource_service ''a1'' []
     = (Inr \<lparr>dataSources = Some [], ds_nextToken = None\<rparr>, [])
   \<and> ensure_ddb_ds (logged datasource_service) ''a1'' ''CostDS'' ''cost'' ''role'' ([], [])
     = (Inl (Exn IndexError ''list index out of range''), ([], [ListDataSources ''a1'']))
   \<and> list_data_sources truncating_datasource_service ''a1''
        [cost_ds, \<lparr>dsrc_name = ''NoneDS'', dsrc_type = ''NONE'', dsrc_fields = []\<rparr>]
     = (Inr \<lparr>dataSources = Some [cost_ds], ds_nextToken = Some ''+''\<rparr>,
        [cost_ds, \<lparr>dsrc_name = ''NoneDS'', dsrc_type = ''NONE'', dsrc_fields = []\<rparr>])
   \<and> ensure_none_ds (logged truncating_datasource_service) ''a1'' ''NoneDS''
        ([cost_ds, \<lparr>dsrc_name = ''NoneDS'', dsrc_type = ''NONE'', dsrc_fields = []\<rparr>], [])
     = (Inr \<lparr>dsrc_name = ''NoneDS'', dsrc_type = ''NONE'', dsrc_fields = []\<rparr>,
        ([cost_ds, \<lparr>dsrc_name = ''NoneDS'', dsrc_type = ''NONE'', dsrc_fields = []\<rparr>,
          \<lparr>dsrc_name = ''NoneDS'', dsrc_type = ''NONE'', dsrc_fields = []\<rparr>],
         [ListDataSources ''a1'', CreateDataSource (none_ds_args ''a1'' ''NoneDS'')]))"
  by code_simp

text \<open>
  C2. \<open>find_api_by_name\<close> returns an API only if its name equals the requested name,
  and on a listing of finitely many pages it returns the first such API of all pages
  (\<open>find_api_by_name_exact\<close>, \<open>find_api_by_name_paged\<close>). The fallback lookups of
  \<open>ensure_sns_topic\<close> and \<open>ensure_sqs_queue\<close> do not compare names for equality:
  asked for \<open>shop-price-changes\<close> while creation is refused as already existing, the
  first returns the ARN of the topic \<open>workshop-price-changes\<close>, which contains the
  requested name, and asked for \<open>shop-price-processing\<close> the second returns the queue
  \<open>shop-price-processing-dlq\<close>, the first of the listing by prefix.
\<close>

theorem fallback_lookup_substring_match:
  "ensure_sns_topic
     (topic_service [''arn:aws:sns:us-east-1:123456789012:workshop-price-changes'',
                     ''arn:aws:sns:us-east-1:123456789012:shop-price-changes''])
     ''shop'' ''us-east-1'' ()
     = (Inr (Some ''arn:aws:sns:us-east-1:123456789012:workshop-price-changes''), ())
   \<and> last (py_split CHR '':'' ''arn:aws:sns:us-east-1:123456789012:workshop-price-changes'')
     \<noteq> ''shop'' @ ''-price-changes''
   \<and> ensure_sqs_queue
     (queue_service [''https://sqs.us-east-1.amazonaws.com/123456789012/shop-price-processing-dlq'',
                     ''https://sqs.us-east-1.amazonaws.com/123456789012/shop-price-processing''])
     ''shop'' ''us-east-1'' ()
     = (Inr (''https://sqs.us-east-1.amazonaws.com/123456789012/shop-price-processing-dlq'',
             ''arn:aws:sqs:us-east-1:123456789012:shop-price-processing-dlq''), ())
   \<and> last (py_split CHR ''/'' ''https://sqs.us-east-1.amazonaws.com/123456789012/shop-price-processing-dlq'')
     \<noteq> ''shop'' @ ''-price-processing''"
  by code_simp

end
